(* ===== verification/Uds_Prelude.thy ===== *)
theory Uds_Prelude
  imports Main "HOL-Library.Word" "HOL-Library.Monad_Syntax"
begin

unbundle bit_operations_syntax

text \<open>
  Shared vocabulary of the development: the machine integers of the C code, reads and
  writes of byte arrays that fail out of range, big-endian splitting, and the predicate
  \<open>ok\<close>, with which every proof about a fallible step is carried out.

  A C function that may run into undefined behaviour (an access outside a buffer, a
  call through a null function pointer, a shift by the width of the type or more)
  returns an \<open>option\<close>: \<open>None\<close> is the undefined behaviour and \<open>Some\<close> the result. The
  do-notation of the library's option monad sequences such steps.
\<close>

section \<open>Machine integers\<close>

type_synonym u8 = "8 word"
type_synonym u16 = "16 word"
type_synonym u32 = "32 word"

named_theorems uds_exec \<open>symbolic execution: what one step of the code computes\<close>
named_theorems uds_wf \<open>well-formedness and trace facts kept by the steps\<close>

lemma u8_less [simp]: "unat (b :: u8) < 256"
  using unsigned_less [of b, where 'a = nat] by simp

lemma u16_less [simp]: "unat (x :: u16) < 65536"
  using unsigned_less [of x, where 'a = nat] by simp

lemma u32_less [simp]: "unat (x :: u32) < 4294967296"
  using unsigned_less [of x, where 'a = nat] by simp

lemma u8_bit_less: "bit (b :: u8) n \<Longrightarrow> n < 8"
  using bit_imp_le_length [of b n] by simp

lemma unat_u8_to_u16 [simp]: "unat (ucast (b :: u8) :: u16) = unat b"
  by (simp add: unsigned_ucast_eq take_bit_nat_eq_self_iff less_trans [OF u8_less])

lemma unat_u8_to_u32 [simp]: "unat (ucast (b :: u8) :: u32) = unat b"
  by (simp add: unsigned_ucast_eq take_bit_nat_eq_self_iff less_trans [OF u8_less])

lemma unat_u16_to_u32 [simp]: "unat (ucast (x :: u16) :: u32) = unat x"
  by (simp add: unsigned_ucast_eq take_bit_nat_eq_self_iff less_trans [OF u16_less])

lemma unat_of_nat_u16: "n < 65536 \<Longrightarrow> unat (of_nat n :: u16) = n"
  by (simp add: unat_of_nat take_bit_nat_eq_self_iff)

lemma unat_of_nat_u8: "n < 256 \<Longrightarrow> unat (of_nat n :: u8) = n"
  by (simp add: unat_of_nat take_bit_nat_eq_self_iff)

lemma and_ff_u16: "(x :: u16) AND 0xFF = x mod 256"
proof -
  have "x AND 0xFF = take_bit 8 x" by (simp add: take_bit_eq_mask mask_eq_exp_minus_1)
  then show ?thesis by (simp add: take_bit_eq_mod)
qed

text \<open>Appending a byte below a value: \<open>(a << 8) | b\<close> is \<open>256 * a + b\<close>.\<close>

lemma shift_or_byte:
  fixes a :: "'a::len word" and b :: u8
  shows "push_bit 8 a OR ucast b = 256 * a + ucast b"
proof -
  have "push_bit 8 a AND (ucast b :: 'a word) = 0"
    by (rule bit_word_eqI)
       (simp only: bit_and_iff bit_push_bit_iff bit_unsigned_iff bit_0_eq bot_apply,
        auto dest: u8_bit_less)
  then have "push_bit 8 a + ucast b = push_bit 8 a OR (ucast b :: 'a word)"
    by (rule disjunctive_add_eq_or)
  then show ?thesis by (simp add: push_bit_eq_mult mult.commute)
qed

definition hi8 :: "u16 \<Rightarrow> u8" where
  "hi8 x = ucast (drop_bit 8 x AND 0xFF)"

definition lo8 :: "u16 \<Rightarrow> u8" where
  "lo8 x = ucast (x AND 0xFF)"

definition be16 :: "u8 \<Rightarrow> u8 \<Rightarrow> u16" where
  "be16 h l = push_bit 8 (ucast h) OR ucast l"

lemma unat_be16: "unat (be16 h l) = 256 * unat h + unat l"
  using u8_less [of h] u8_less [of l]
  unfolding be16_def shift_or_byte by (simp add: unat_word_ariths del: u8_less)

lemma unat_lo8: "unat (lo8 x) = unat x mod 256"
  unfolding lo8_def and_ff_u16 by (simp add: unsigned_ucast_eq take_bit_eq_mod unat_mod_distrib)

lemma unat_hi8: "unat (hi8 x) = unat x div 256"
  using u16_less [of x] unfolding hi8_def and_ff_u16
  by (simp add: unsigned_ucast_eq take_bit_eq_mod drop_bit_eq_div unat_mod_distrib
      unat_div_distrib del: u16_less)

lemma be16_hi_lo [simp]: "be16 (hi8 x) (lo8 x) = x"
  by (rule word_unat_eq_iff [THEN iffD2]) (simp add: unat_be16 unat_hi8 unat_lo8)

lemma hi8_be16 [simp]: "hi8 (be16 h l) = h"
  by (rule word_unat_eq_iff [THEN iffD2]) (simp add: unat_be16 unat_hi8 unat_lo8)

lemma lo8_be16 [simp]: "lo8 (be16 h l) = l"
  by (rule word_unat_eq_iff [THEN iffD2]) (simp add: unat_be16 unat_hi8 unat_lo8)

text \<open>\<open>(uint8_t) - (int32_t) res\<close>: the negative response code a hook returned negated.\<close>

definition nrc_of_int :: "int \<Rightarrow> u8" where
  "nrc_of_int res = word_of_int (- res)"

text \<open>\<open>1u << n\<close> on 32 bits, undefined for \<open>n\<close> of 32 or more.\<close>

definition shl1 :: "nat \<Rightarrow> u32 option" where
  "shl1 n = (if n < 32 then Some (push_bit n 1) else None)"

section \<open>Byte arrays\<close>

definition byte_at :: "u8 list \<Rightarrow> nat \<Rightarrow> u8 option" where
  "byte_at xs i = (if i < length xs then Some (xs ! i) else None)"

lemma byte_at_ok [uds_exec]: "i < length xs \<Longrightarrow> byte_at xs i = Some (xs ! i)"
  by (simp add: byte_at_def)

text \<open>The \<open>n\<close> bytes a callee reads at \<open>&xs[i]\<close>.\<close>

definition bytes_at :: "u8 list \<Rightarrow> nat \<Rightarrow> nat \<Rightarrow> u8 list option" where
  "bytes_at xs i n = (if i + n \<le> length xs then Some (take n (drop i xs)) else None)"

lemma bytes_at_ok [uds_exec]: "i + n \<le> length xs \<Longrightarrow> bytes_at xs i n = Some (take n (drop i xs))"
  by (simp add: bytes_at_def)

text \<open>\<open>memcpy(&ys[i], xs, n)\<close> with \<open>n\<close> the length of \<open>xs\<close>.\<close>

definition blit :: "nat \<Rightarrow> 'a list \<Rightarrow> 'a list \<Rightarrow> 'a list option" where
  "blit i xs ys = (if i + length xs \<le> length ys
     then Some (take i ys @ xs @ drop (i + length xs) ys) else None)"

lemma blit_length: "blit i xs ys = Some zs \<Longrightarrow> length zs = length ys"
  by (auto simp: blit_def split: if_splits)

lemma blit_Some: "i + length xs \<le> length ys \<Longrightarrow>
    blit i xs ys = Some (take i ys @ xs @ drop (i + length xs) ys)"
  by (simp add: blit_def)

lemma blit_take: "blit i xs ys = Some zs \<Longrightarrow> take (i + length xs) zs = take i ys @ xs"
  by (cases xs) (auto simp: blit_def min_def split: if_splits)

section \<open>Steps that do not fail\<close>

text \<open>\<open>ok m P\<close>: the step \<open>m\<close> has no undefined behaviour and its result satisfies \<open>P\<close>.\<close>

definition ok :: "'a option \<Rightarrow> ('a \<Rightarrow> bool) \<Rightarrow> bool" where
  "ok m P = (case m of None \<Rightarrow> False | Some x \<Rightarrow> P x)"

lemma ok_Some [simp]: "ok (Some x) P = P x"
  by (simp add: ok_def)

lemma ok_None [simp]: "ok None P = False"
  by (simp add: ok_def)

lemma ok_bind [simp]: "ok (Option.bind m f) P = ok m (\<lambda>x. ok (f x) P)"
  by (cases m) (simp_all add: ok_def)

lemma ok_mono: "ok m P \<Longrightarrow> (\<And>x. P x \<Longrightarrow> Q x) \<Longrightarrow> ok m Q"
  by (cases m) simp_all

lemma ok_iff: "ok m P \<longleftrightarrow> (\<exists>x. m = Some x \<and> P x)"
  by (cases m) simp_all

lemma okE: "ok m P \<Longrightarrow> (\<And>x. m = Some x \<Longrightarrow> P x \<Longrightarrow> R) \<Longrightarrow> R"
  by (cases m) simp_all

lemma okD: "ok m P \<Longrightarrow> m = Some x \<Longrightarrow> P x"
  by simp

lemma ok_if: "(b \<Longrightarrow> ok m P) \<Longrightarrow> (\<not> b \<Longrightarrow> ok n P) \<Longrightarrow> ok (if b then m else n) P"
  by simp

lemma ok_case_option:
  "(h = None \<Longrightarrow> ok m P) \<Longrightarrow> (\<And>f. h = Some f \<Longrightarrow> ok (n f) P) \<Longrightarrow>
   ok (case h of None \<Rightarrow> m | Some f \<Rightarrow> n f) P"
  by (cases h) simp_all

end
