(* ===== verification/Uds_Config.thy ===== *)
theory Uds_Config
  imports Uds_Prelude
begin

text \<open>
  The data of the stack: the constants of \<open>uds_internal.h\<close>, \<open>uds_core.h\<close> and
  \<open>uds_config.h\<close>, the runtime context \<open>uds_ctx_t\<close>, the configuration
  \<open>uds_config_t\<close> with the application's callbacks, and the machine a request runs on
  (the context, the caller's buffers, the storage behind data identifiers, the
  application's own state and a ghost trace of everything the stack does to the
  outside world).
\<close>

section \<open>Constants\<close>

abbreviation (input) UDS_OK :: int where "UDS_OK \<equiv> 0"
abbreviation (input) UDS_ERR_INVALID_ARG :: int where "UDS_ERR_INVALID_ARG \<equiv> -1"
abbreviation (input) UDS_ERR_BUFFER_TOO_SMALL :: int where "UDS_ERR_BUFFER_TOO_SMALL \<equiv> -2"
abbreviation (input) UDS_ERR_NOT_INIT :: int where "UDS_ERR_NOT_INIT \<equiv> -3"
abbreviation (input) UDS_PENDING :: int where "UDS_PENDING \<equiv> 1"

abbreviation (input) UDS_LOG_ERROR :: u8 where "UDS_LOG_ERROR \<equiv> 0"
abbreviation (input) UDS_LOG_INFO :: u8 where "UDS_LOG_INFO \<equiv> 1"
abbreviation (input) UDS_LOG_DEBUG :: u8 where "UDS_LOG_DEBUG \<equiv> 2"

abbreviation (input) UDS_NRC_SERVICE_NOT_SUPPORTED :: u8 where "UDS_NRC_SERVICE_NOT_SUPPORTED \<equiv> 0x11"
abbreviation (input) UDS_NRC_SUBFUNCTION_NOT_SUPPORTED :: u8 where "UDS_NRC_SUBFUNCTION_NOT_SUPPORTED \<equiv> 0x12"
abbreviation (input) UDS_NRC_INCORRECT_LENGTH :: u8 where "UDS_NRC_INCORRECT_LENGTH \<equiv> 0x13"
abbreviation (input) UDS_NRC_RESPONSE_TOO_LONG :: u8 where "UDS_NRC_RESPONSE_TOO_LONG \<equiv> 0x14"
abbreviation (input) UDS_NRC_BUSY_REPEAT_REQUEST :: u8 where "UDS_NRC_BUSY_REPEAT_REQUEST \<equiv> 0x21"
abbreviation (input) UDS_NRC_CONDITIONS_NOT_CORRECT :: u8 where "UDS_NRC_CONDITIONS_NOT_CORRECT \<equiv> 0x22"
abbreviation (input) UDS_NRC_REQUEST_SEQUENCE_ERROR :: u8 where "UDS_NRC_REQUEST_SEQUENCE_ERROR \<equiv> 0x24"
abbreviation (input) UDS_NRC_REQUEST_OUT_OF_RANGE :: u8 where "UDS_NRC_REQUEST_OUT_OF_RANGE \<equiv> 0x31"
abbreviation (input) UDS_NRC_SECURITY_ACCESS_DENIED :: u8 where "UDS_NRC_SECURITY_ACCESS_DENIED \<equiv> 0x33"
abbreviation (input) UDS_NRC_INVALID_KEY :: u8 where "UDS_NRC_INVALID_KEY \<equiv> 0x35"
abbreviation (input) UDS_NRC_EXCEEDED_ATTEMPTS :: u8 where "UDS_NRC_EXCEEDED_ATTEMPTS \<equiv> 0x36"
abbreviation (input) UDS_NRC_REQUIRED_TIME_DELAY :: u8 where "UDS_NRC_REQUIRED_TIME_DELAY \<equiv> 0x37"
abbreviation (input) UDS_NRC_RESPONSE_PENDING :: u8 where "UDS_NRC_RESPONSE_PENDING \<equiv> 0x78"
abbreviation (input) UDS_NRC_SERVICE_NOT_SUPP_IN_SESS :: u8 where "UDS_NRC_SERVICE_NOT_SUPP_IN_SESS \<equiv> 0x7F"

abbreviation (input) UDS_SID_SESSION_CONTROL :: u8 where "UDS_SID_SESSION_CONTROL \<equiv> 0x10"
abbreviation (input) UDS_SID_ECU_RESET :: u8 where "UDS_SID_ECU_RESET \<equiv> 0x11"
abbreviation (input) UDS_SID_CLEAR_DTC :: u8 where "UDS_SID_CLEAR_DTC \<equiv> 0x14"
abbreviation (input) UDS_SID_READ_DTC_INFO :: u8 where "UDS_SID_READ_DTC_INFO \<equiv> 0x19"
abbreviation (input) UDS_SID_READ_DATA_BY_ID :: u8 where "UDS_SID_READ_DATA_BY_ID \<equiv> 0x22"
abbreviation (input) UDS_SID_READ_MEM_BY_ADDR :: u8 where "UDS_SID_READ_MEM_BY_ADDR \<equiv> 0x23"
abbreviation (input) UDS_SID_SECURITY_ACCESS :: u8 where "UDS_SID_SECURITY_ACCESS \<equiv> 0x27"
abbreviation (input) UDS_SID_COMM_CONTROL :: u8 where "UDS_SID_COMM_CONTROL \<equiv> 0x28"
abbreviation (input) UDS_SID_AUTHENTICATION :: u8 where "UDS_SID_AUTHENTICATION \<equiv> 0x29"
abbreviation (input) UDS_SID_READ_BY_PER_ID :: u8 where "UDS_SID_READ_BY_PER_ID \<equiv> 0x2A"
abbreviation (input) UDS_SID_WRITE_DATA_BY_ID :: u8 where "UDS_SID_WRITE_DATA_BY_ID \<equiv> 0x2E"
abbreviation (input) UDS_SID_IO_CONTROL_BY_ID :: u8 where "UDS_SID_IO_CONTROL_BY_ID \<equiv> 0x2F"
abbreviation (input) UDS_SID_ROUTINE_CONTROL :: u8 where "UDS_SID_ROUTINE_CONTROL \<equiv> 0x31"
abbreviation (input) UDS_SID_REQUEST_DOWNLOAD :: u8 where "UDS_SID_REQUEST_DOWNLOAD \<equiv> 0x34"
abbreviation (input) UDS_SID_REQUEST_UPLOAD :: u8 where "UDS_SID_REQUEST_UPLOAD \<equiv> 0x35"
abbreviation (input) UDS_SID_TRANSFER_DATA :: u8 where "UDS_SID_TRANSFER_DATA \<equiv> 0x36"
abbreviation (input) UDS_SID_TRANSFER_EXIT :: u8 where "UDS_SID_TRANSFER_EXIT \<equiv> 0x37"
abbreviation (input) UDS_SID_WRITE_MEM_BY_ADDR :: u8 where "UDS_SID_WRITE_MEM_BY_ADDR \<equiv> 0x3D"
abbreviation (input) UDS_SID_TESTER_PRESENT :: u8 where "UDS_SID_TESTER_PRESENT \<equiv> 0x3E"
abbreviation (input) UDS_SID_CONTROL_DTC_SETTING :: u8 where "UDS_SID_CONTROL_DTC_SETTING \<equiv> 0x85"

abbreviation (input) UDS_S3_TIMEOUT_MS :: u32 where "UDS_S3_TIMEOUT_MS \<equiv> 5000"
abbreviation (input) UDS_P2_MIN_SAFE_MS :: u16 where "UDS_P2_MIN_SAFE_MS \<equiv> 20"
abbreviation (input) UDS_P2_STAR_MIN_SAFE_MS :: u32 where "UDS_P2_STAR_MIN_SAFE_MS \<equiv> 1000"
abbreviation (input) UDS_RESPONSE_OFFSET :: u8 where "UDS_RESPONSE_OFFSET \<equiv> 0x40"
abbreviation (input) UDS_MAX_PERIODIC_MSG_LEN :: u16 where "UDS_MAX_PERIODIC_MSG_LEN \<equiv> 8"
abbreviation (input) UDS_PERIODIC_RATE_FAST :: u8 where "UDS_PERIODIC_RATE_FAST \<equiv> 0x01"
abbreviation (input) UDS_PERIODIC_RATE_MEDIUM :: u8 where "UDS_PERIODIC_RATE_MEDIUM \<equiv> 0x02"
abbreviation (input) UDS_PERIODIC_RATE_SLOW :: u8 where "UDS_PERIODIC_RATE_SLOW \<equiv> 0x03"
abbreviation (input) UDS_PERIODIC_FAST_INTERVAL_MS :: u32 where "UDS_PERIODIC_FAST_INTERVAL_MS \<equiv> 100"
abbreviation (input) UDS_PERIODIC_MEDIUM_INTERVAL_MS :: u32 where "UDS_PERIODIC_MEDIUM_INTERVAL_MS \<equiv> 500"
abbreviation (input) UDS_PERIODIC_SLOW_INTERVAL_MS :: u32 where "UDS_PERIODIC_SLOW_INTERVAL_MS \<equiv> 1000"

abbreviation (input) UDS_MASK_NIBBLE :: u8 where "UDS_MASK_NIBBLE \<equiv> 0x0F"
abbreviation (input) UDS_MASK_SUBFUNCTION :: u8 where "UDS_MASK_SUBFUNCTION \<equiv> 0x7F"
abbreviation (input) UDS_MASK_SUPPRESS_POS_RESP :: u8 where "UDS_MASK_SUPPRESS_POS_RESP \<equiv> 0x80"

abbreviation (input) UDS_SESSION_ID_DEFAULT :: u8 where "UDS_SESSION_ID_DEFAULT \<equiv> 0x01"
abbreviation (input) UDS_SESSION_ID_PROGRAMMING :: u8 where "UDS_SESSION_ID_PROGRAMMING \<equiv> 0x02"
abbreviation (input) UDS_SESSION_ID_EXTENDED :: u8 where "UDS_SESSION_ID_EXTENDED \<equiv> 0x03"

abbreviation (input) UDS_SESSION_DEFAULT :: u8 where "UDS_SESSION_DEFAULT \<equiv> 1"
abbreviation (input) UDS_SESSION_EXTENDED :: u8 where "UDS_SESSION_EXTENDED \<equiv> 2"
abbreviation (input) UDS_SESSION_PROGRAMMING :: u8 where "UDS_SESSION_PROGRAMMING \<equiv> 4"
abbreviation (input) UDS_SESSION_ALL :: u8 where "UDS_SESSION_ALL \<equiv> 0xFF"

definition mask16 :: "u8 \<Rightarrow> u8 list" where
  "mask16 b = b # replicate 15 0"

definition UDS_MASK_SUB_10 :: "u8 list" where "UDS_MASK_SUB_10 = mask16 0x0E"
definition UDS_MASK_SUB_11 :: "u8 list" where "UDS_MASK_SUB_11 = mask16 0x0E"
definition UDS_MASK_SUB_19 :: "u8 list" where "UDS_MASK_SUB_19 = mask16 0x57"
definition UDS_MASK_SUB_27 :: "u8 list" where "UDS_MASK_SUB_27 = (0xFE :: u8) # replicate 15 0xFF"
definition UDS_MASK_SUB_28 :: "u8 list" where "UDS_MASK_SUB_28 = mask16 0x3F"
definition UDS_MASK_SUB_31 :: "u8 list" where "UDS_MASK_SUB_31 = mask16 0x0E"
definition UDS_MASK_SUB_3E :: "u8 list" where "UDS_MASK_SUB_3E = mask16 0x01"
definition UDS_MASK_SUB_85 :: "u8 list" where "UDS_MASK_SUB_85 = mask16 0x06"
definition UDS_MASK_SUB_2A :: "u8 list" where "UDS_MASK_SUB_2A = mask16 0x1E"

section \<open>The context\<close>

text \<open>
  \<open>uds_ctx_t\<close>. The pointer \<open>config\<close> is read only through the configuration that is
  passed to every operation, so the context records whether it is set. A client
  callback is a function pointer, kept as the number of the function.
\<close>

record uds_ctx =
  config_set :: bool
  state_byte :: u8
  active_session :: u8
  security_level :: u8
  last_msg_time :: u32
  p2_timer_start :: u32
  p2_msg_pending :: bool
  p2_star_active :: bool
  response_pending :: bool
  client_cb :: "nat option"
  pending_sid :: u8
  comm_state :: u8
  suppress_pos_resp :: bool
  p2_ms :: u16
  p2_star_ms :: u32
  flash_sequence :: u8
  security_delay_end :: u32
  security_attempts :: u8
  rcrrp_count :: u16
  periodic_ids :: "u8 list"
  periodic_rates :: "u8 list"
  periodic_timers :: "u32 list"
  periodic_count :: u8

section \<open>The machine\<close>

text \<open>
  The calls into the application that a request can cause, with their arguments; a key check
  is recorded with its result.
\<close>

datatype hook =
    HSafe u8 "u8 list"
  | HReset u8
  | HCommControl u8 u8
  | HSeed u8
  | HKey u8 "u8 list" int
  | HDidRead u16
  | HDidWrite u16 "u8 list"
  | HDtcRead u8
  | HDtcClear u32
  | HAuth u8 "u8 list"
  | HRoutine u8 u16 "u8 list"
  | HDownload u32 u32
  | HUpload u32 u32
  | HTransferData u8 "u8 list"
  | HTransferExit
  | HMemRead u32 u32
  | HMemWrite u32 u32 "u8 list"
  | HIoControl u16 u8 "u8 list"
  | HPeriodicRead u8
  | HNvmSave "u8 list"
  | HNvmLoad

datatype event =
    ESend "u8 list"
  | ELock
  | EUnlock
  | ELog u8 string
  | EHook hook

text \<open>
  \<open>tx_buf\<close> and \<open>rx_buf\<close> are the memory behind \<open>config->tx_buffer\<close> and
  \<open>config->rx_buffer\<close>, \<open>did_store\<close> the memory behind the \<open>storage\<close> pointers of the data
  identifiers, \<open>app\<close> the state of the application and the transport, which only their
  callbacks read and change. \<open>ctx_null\<close> says that the caller passed a null context.
\<close>

record 'w machine = uds_ctx +
  ctx_null :: bool
  tx_buf :: "u8 list"
  rx_buf :: "u8 list"
  did_store :: "nat \<Rightarrow> u8 list"
  app :: 'w
  tr :: "event list"

definition ctx_view :: "'w machine \<Rightarrow> uds_ctx" where
  "ctx_view s = uds_ctx.truncate s"

definition emit :: "event \<Rightarrow> 'w machine \<Rightarrow> 'w machine" where
  "emit e s = s\<lparr>tr := tr s @ [e]\<rparr>"

section \<open>Tables and configuration\<close>

text \<open>
  A callback gets the context to read (its members are private to the stack), the
  application state and its arguments; one that fills a buffer returns the bytes it
  wrote there beside its result. A null function pointer is \<open>None\<close>.
\<close>

type_synonym 'w ret = "int \<times> 'w"
type_synonym 'w ret_out = "(int \<times> u8 list) \<times> 'w"
type_synonym 'w handler_fn = "u8 list \<Rightarrow> 'w machine \<Rightarrow> (int \<times> 'w machine) option"

record 'w did_entry =
  did_id :: u16
  did_size :: u16
  did_session_mask :: u8
  did_security_mask :: u16
  did_read :: "(uds_ctx \<Rightarrow> 'w \<Rightarrow> u16 \<Rightarrow> u16 \<Rightarrow> 'w ret_out) option"
  did_write :: "(uds_ctx \<Rightarrow> 'w \<Rightarrow> u16 \<Rightarrow> u8 list \<Rightarrow> 'w ret) option"
  did_storage :: "nat option"

record 'w service_entry =
  svc_sid :: u8
  svc_min_len :: u16
  svc_session_mask :: u8
  svc_security_mask :: u16
  svc_handler :: "'w handler_fn"
  svc_sub_mask :: "u8 list option"

record 'w config =
  ecu_address :: u8
  get_time_ms :: "('w \<Rightarrow> u32 \<times> 'w) option"
  fn_log :: "('w \<Rightarrow> u8 \<Rightarrow> string \<Rightarrow> 'w) option"
  fn_tp_send :: "(uds_ctx \<Rightarrow> 'w \<Rightarrow> u8 list \<Rightarrow> 'w ret) option"
  cfg_p2_ms :: u16
  cfg_p2_star_ms :: u32
  fn_reset :: "(uds_ctx \<Rightarrow> 'w \<Rightarrow> u8 \<Rightarrow> 'w) option"
  fn_comm_control :: "(uds_ctx \<Rightarrow> 'w \<Rightarrow> u8 \<Rightarrow> u8 \<Rightarrow> 'w ret) option"
  fn_security_seed :: "(uds_ctx \<Rightarrow> 'w \<Rightarrow> u8 \<Rightarrow> u16 \<Rightarrow> 'w ret_out) option"
  fn_security_key :: "(uds_ctx \<Rightarrow> 'w \<Rightarrow> u8 \<Rightarrow> u8 list \<Rightarrow> 'w ret) option"
  rx_buffer :: bool
  rx_buffer_size :: u16
  tx_buffer :: bool
  tx_buffer_size :: u16
  strict_compliance :: bool
  log_level :: u8
  security_delay_ms :: u32
  security_max_attempts :: u8
  rcrrp_limit :: u16
  transfer_accept_last_block_replay :: bool
  did_table :: "'w did_entry list"
  user_services :: "'w service_entry list"
  fn_is_safe :: "(uds_ctx \<Rightarrow> 'w \<Rightarrow> u8 \<Rightarrow> u8 list \<Rightarrow> bool \<times> 'w) option"
  fn_nvm_save :: "(uds_ctx \<Rightarrow> 'w \<Rightarrow> u8 list \<Rightarrow> 'w ret) option"
  fn_nvm_load :: "(uds_ctx \<Rightarrow> 'w \<Rightarrow> u16 \<Rightarrow> 'w ret_out) option"
  fn_dtc_read :: "(uds_ctx \<Rightarrow> 'w \<Rightarrow> u8 \<Rightarrow> u16 \<Rightarrow> 'w ret_out) option"
  fn_dtc_clear :: "(uds_ctx \<Rightarrow> 'w \<Rightarrow> u32 \<Rightarrow> 'w ret) option"
  fn_auth :: "(uds_ctx \<Rightarrow> 'w \<Rightarrow> u8 \<Rightarrow> u8 list \<Rightarrow> u16 \<Rightarrow> 'w ret_out) option"
  fn_routine_control :: "(uds_ctx \<Rightarrow> 'w \<Rightarrow> u8 \<Rightarrow> u16 \<Rightarrow> u8 list \<Rightarrow> u16 \<Rightarrow> 'w ret_out) option"
  fn_request_download :: "(uds_ctx \<Rightarrow> 'w \<Rightarrow> u32 \<Rightarrow> u32 \<Rightarrow> 'w ret) option"
  fn_transfer_data :: "(uds_ctx \<Rightarrow> 'w \<Rightarrow> u8 \<Rightarrow> u8 list \<Rightarrow> 'w ret) option"
  fn_transfer_exit :: "(uds_ctx \<Rightarrow> 'w \<Rightarrow> 'w ret) option"
  fn_mem_read :: "(uds_ctx \<Rightarrow> 'w \<Rightarrow> u32 \<Rightarrow> u32 \<Rightarrow> 'w ret_out) option"
  fn_mem_write :: "(uds_ctx \<Rightarrow> 'w \<Rightarrow> u32 \<Rightarrow> u32 \<Rightarrow> u8 list \<Rightarrow> 'w ret) option"
  fn_io_control :: "(uds_ctx \<Rightarrow> 'w \<Rightarrow> u16 \<Rightarrow> u8 \<Rightarrow> u8 list \<Rightarrow> u16 \<Rightarrow> 'w ret_out) option"
  fn_request_upload :: "(uds_ctx \<Rightarrow> 'w \<Rightarrow> u32 \<Rightarrow> u32 \<Rightarrow> 'w ret) option"
  fn_periodic_read :: "(uds_ctx \<Rightarrow> 'w \<Rightarrow> u8 \<Rightarrow> u16 \<Rightarrow> 'w ret_out) option"
  fn_mutex_lock :: "('w \<Rightarrow> 'w) option"
  fn_mutex_unlock :: "('w \<Rightarrow> 'w) option"
  p2_server_max :: u16
  p2_star_server_max :: u16

section \<open>Calls into the application\<close>

text \<open>One call: the callback's new application state is kept and the call is traced.\<close>

definition called :: "hook \<Rightarrow> 'r \<times> 'w \<Rightarrow> 'w machine \<Rightarrow> 'r \<times> 'w machine" where
  "called h rw s = (fst rw, emit (EHook h) (s\<lparr>app := snd rw\<rparr>))"

definition time_now :: "'w config \<Rightarrow> 'w machine \<Rightarrow> (u32 \<times> 'w machine) option" where
  "time_now cfg s = (case get_time_ms cfg of None \<Rightarrow> None
     | Some f \<Rightarrow> Some (fst (f (app s)), s\<lparr>app := snd (f (app s))\<rparr>))"

definition tp_send :: "'w config \<Rightarrow> nat \<Rightarrow> 'w machine \<Rightarrow> (int \<times> 'w machine) option" where
  "tp_send cfg n s = (case fn_tp_send cfg of None \<Rightarrow> None
     | Some f \<Rightarrow>
         if n \<le> length (tx_buf s) then
           (let bs = take n (tx_buf s); rw = f (ctx_view s) (app s) bs
            in Some (fst rw, emit (ESend bs) (s\<lparr>app := snd rw\<rparr>)))
         else None)"

definition mutex_lock :: "'w config \<Rightarrow> 'w machine \<Rightarrow> 'w machine" where
  "mutex_lock cfg s = (case fn_mutex_lock cfg of None \<Rightarrow> s
     | Some f \<Rightarrow> emit ELock (s\<lparr>app := f (app s)\<rparr>))"

definition mutex_unlock :: "'w config \<Rightarrow> 'w machine \<Rightarrow> 'w machine" where
  "mutex_unlock cfg s = (case fn_mutex_unlock cfg of None \<Rightarrow> s
     | Some f \<Rightarrow> emit EUnlock (s\<lparr>app := f (app s)\<rparr>))"

text \<open>\<open>tx_buffer[i] = v\<close>, and a callback or \<open>memcpy\<close> that fills \<open>&tx_buffer[i]\<close>.\<close>

definition tx_write :: "nat \<Rightarrow> u8 \<Rightarrow> 'w machine \<Rightarrow> 'w machine option" where
  "tx_write i v s = (if i < length (tx_buf s)
     then Some (s\<lparr>tx_buf := (tx_buf s)[i := v]\<rparr>) else None)"

definition tx_fill :: "nat \<Rightarrow> u8 list \<Rightarrow> 'w machine \<Rightarrow> 'w machine option" where
  "tx_fill i xs s = do { b \<leftarrow> blit i xs (tx_buf s); Some (s\<lparr>tx_buf := b\<rparr>) }"

end
