(* ===== verification/Uds_Support.thy ===== *)
theory Uds_Support
  imports Uds_Config
begin

text \<open>
  The helpers of \<open>uds_core.c\<close> that every service handler calls: logging, the lookup of
  a data identifier, the address-and-length parser, the access checks of a data
  identifier, and the two functions that end a request, \<open>uds_send_response\<close> and
  \<open>uds_send_nrc\<close>. Then the contract between the dispatcher and the handlers: what the
  application's callbacks promise (\<open>compliant\<close>), what the machine keeps (\<open>wf\<close>), and what
  a handler leaves behind (\<open>answered\<close>), stated as the locale \<open>uds_service\<close>.
\<close>

section \<open>Helpers\<close>

definition uds_internal_log :: "'w config \<Rightarrow> u8 \<Rightarrow> string \<Rightarrow> 'w machine \<Rightarrow> 'w machine" where
  "uds_internal_log cfg level msg s =
     (if \<not> ctx_null s \<and> config_set s then
        (case fn_log cfg of None \<Rightarrow> s
         | Some f \<Rightarrow>
             if level \<le> log_level cfg
             then emit (ELog level msg) (s\<lparr>app := f (app s) level msg\<rparr>) else s)
      else s)"

definition uds_internal_find_did :: "'w config \<Rightarrow> u16 \<Rightarrow> 'w machine \<Rightarrow> 'w did_entry option" where
  "uds_internal_find_did cfg i s =
     (if ctx_null s \<or> \<not> config_set s then None
      else List.find (\<lambda>e. did_id e = i) (did_table cfg))"

text \<open>The loop \<open>*addr = (*addr << 8) | data[i]\<close> over a run of bytes.\<close>

definition be_value :: "u8 list \<Rightarrow> u32" where
  "be_value bs = foldl (\<lambda>a b. push_bit 8 a OR ucast b) 0 bs"

definition alfid_addr_len :: "u8 \<Rightarrow> nat" where
  "alfid_addr_len format = unat (format AND UDS_MASK_NIBBLE)"

definition alfid_size_len :: "u8 \<Rightarrow> nat" where
  "alfid_size_len format = unat (drop_bit 4 format AND UDS_MASK_NIBBLE)"

definition alfid_bad :: "u8 \<Rightarrow> bool" where
  "alfid_bad format \<longleftrightarrow> alfid_addr_len format = 0 \<or> alfid_size_len format = 0
     \<or> alfid_addr_len format > 4 \<or> alfid_size_len format > 4"

text \<open>\<open>None\<close> stands for the result \<open>false\<close>.\<close>

definition uds_internal_parse_addr_len :: "u8 list \<Rightarrow> u8 \<Rightarrow> (u32 \<times> u32) option" where
  "uds_internal_parse_addr_len data format =
     (let addr_len = alfid_addr_len format; size_len = alfid_size_len format in
      if addr_len = 0 \<or> addr_len > 4 \<or> size_len = 0 \<or> size_len > 4 then None
      else if length data < addr_len + size_len then None
      else Some (be_value (take addr_len data), be_value (take size_len (drop addr_len data))))"

text \<open>
  The checks \<open>(mask != 0) && !((1u << n) & mask)\<close> that the data and I/O services make for
  a data identifier: \<open>Some True\<close> when access is denied, \<open>None\<close> when the shift is
  undefined.
\<close>

definition did_session_denied :: "'w did_entry \<Rightarrow> 'w machine \<Rightarrow> bool option" where
  "did_session_denied e s =
     (if did_session_mask e = 0 then Some False
      else do { b \<leftarrow> shl1 (unat (ucast (active_session s) - 1 :: u32));
                Some (b AND ucast (did_session_mask e) = 0) })"

definition did_security_denied :: "'w did_entry \<Rightarrow> 'w machine \<Rightarrow> bool option" where
  "did_security_denied e s =
     (if did_security_mask e = 0 then Some False
      else do { b \<leftarrow> shl1 (unat (security_level s));
                Some (b AND ucast (did_security_mask e) = 0) })"

section \<open>Sending\<close>

definition uds_send_response :: "'w config \<Rightarrow> u16 \<Rightarrow> 'w machine \<Rightarrow> (int \<times> 'w machine) option" where
  "uds_send_response cfg len s =
     (if ctx_null s \<or> \<not> config_set s \<or> \<not> tx_buffer cfg then Some (UDS_ERR_NOT_INIT, s)
      else if len > tx_buffer_size cfg then Some (UDS_ERR_BUFFER_TOO_SMALL, s)
      else let s = s\<lparr>p2_msg_pending := False\<rparr> in
        if suppress_pos_resp s
        then Some (UDS_OK, s\<lparr>suppress_pos_resp := False, rcrrp_count := 0\<rparr>)
        else tp_send cfg (unat len) (s\<lparr>rcrrp_count := 0\<rparr>))"

definition uds_send_nrc :: "'w config \<Rightarrow> u8 \<Rightarrow> u8 \<Rightarrow> 'w machine \<Rightarrow> (int \<times> 'w machine) option" where
  "uds_send_nrc cfg sid nrc s =
     (if ctx_null s \<or> \<not> config_set s \<or> \<not> tx_buffer cfg then Some (UDS_ERR_NOT_INIT, s)
      else if tx_buffer_size cfg < 3 then Some (UDS_ERR_BUFFER_TOO_SMALL, s)
      else do {
        let s = (if nrc \<noteq> UDS_NRC_RESPONSE_PENDING \<and> sid = pending_sid s
                 then s\<lparr>p2_msg_pending := False\<rparr> else s);
        s \<leftarrow> tx_write 0 UDS_NRC_SERVICE_NOT_SUPP_IN_SESS s;
        s \<leftarrow> tx_write 1 sid s;
        s \<leftarrow> tx_write 2 nrc s;
        tp_send cfg 3 s })"

section \<open>Traces\<close>

text \<open>The SDUs handed to the transport, and the lock operations, in their order.\<close>

fun sent :: "event list \<Rightarrow> u8 list list" where
  "sent [] = []"
| "sent (ESend bs # es) = bs # sent es"
| "sent (_ # es) = sent es"

fun lock_ops :: "event list \<Rightarrow> event list" where
  "lock_ops [] = []"
| "lock_ops (ELock # es) = ELock # lock_ops es"
| "lock_ops (EUnlock # es) = EUnlock # lock_ops es"
| "lock_ops (_ # es) = lock_ops es"

fun hooks_of :: "event list \<Rightarrow> hook list" where
  "hooks_of [] = []"
| "hooks_of (EHook h # es) = h # hooks_of es"
| "hooks_of (_ # es) = hooks_of es"

lemma sent_append [simp]: "sent (xs @ ys) = sent xs @ sent ys"
  by (induction xs rule: sent.induct) simp_all

lemma lock_ops_append [simp]: "lock_ops (xs @ ys) = lock_ops xs @ lock_ops ys"
  by (induction xs rule: lock_ops.induct) simp_all

lemma hooks_of_append [simp]: "hooks_of (xs @ ys) = hooks_of xs @ hooks_of ys"
  by (induction xs rule: hooks_of.induct) simp_all

text \<open>
  An answer to service \<open>sid\<close>: a positive response, which starts with \<open>sid + 0x40\<close>, or
  the three bytes of a negative one.
\<close>

definition is_answer :: "u8 \<Rightarrow> u8 list \<Rightarrow> bool" where
  "is_answer sid bs \<longleftrightarrow>
     (bs \<noteq> [] \<and> hd bs = sid + UDS_RESPONSE_OFFSET)
     \<or> (\<exists>nrc. bs = [UDS_NRC_SERVICE_NOT_SUPP_IN_SESS, sid, nrc])"

section \<open>The transport below the stack\<close>

text \<open>
  The interface to the transport layer (\<open>uds_tp.h\<close>): its send function returns 0 on
  success and a negative error code otherwise. The dispatcher relies on it, because the
  result of a handler that ends in a send must not be mistaken for \<open>UDS_PENDING\<close>.
\<close>

locale sdu_transport =
  fixes send :: "uds_ctx \<Rightarrow> 'w \<Rightarrow> u8 list \<Rightarrow> int \<times> 'w"
  assumes status: "fst (send c w bs) \<le> 0"
begin

lemma not_pending: "fst (send c w bs) \<noteq> UDS_PENDING"
  using status [of c w bs] by auto

lemma tp_send_status:
  assumes "fn_tp_send cfg = Some send"
  shows "tp_send cfg n s = Some (r, s') \<Longrightarrow> r \<le> 0"
  using assms status by (auto simp: tp_send_def Let_def split: if_splits)

end

section \<open>What the application promises\<close>

definition fits :: "nat \<Rightarrow> int \<times> u8 list \<Rightarrow> bool" where
  "fits n r \<longleftrightarrow> length (snd r) \<le> n \<and> nat (fst r) \<le> n"

text \<open>
  Whether some data identifier asks for a security level: only then is the level of the
  server a shift count.
\<close>

definition did_secured :: "'w config \<Rightarrow> bool" where
  "did_secured cfg \<longleftrightarrow> (\<exists>e \<in> set (did_table cfg). did_security_mask e \<noteq> 0)"

text \<open>
  The documented contract of \<open>uds_config_t\<close>: the mandatory members are set, the transport
  returns 0 or a negative error code, a callback that fills a buffer writes and reports
  no more than the size it is given. The two bounds the documentation leaves out are
  that the transmit buffer holds the longest fixed response (10 bytes, of service 0x3D)
  and that, where data identifiers ask for security levels, the key callback accepts levels
  below 32 only, the width of the shift in their access check.
\<close>

definition compliant :: "'w config \<Rightarrow> bool" where
  "compliant cfg \<longleftrightarrow>
     get_time_ms cfg \<noteq> None \<and> tx_buffer cfg \<and> 10 \<le> unat (tx_buffer_size cfg)
     \<and> (\<exists>f. fn_tp_send cfg = Some f \<and> sdu_transport f)
     \<and> (\<forall>f c w l. fn_security_seed cfg = Some f \<longrightarrow>
          fits (unat (tx_buffer_size cfg - 2)) (fst (f c w l (tx_buffer_size cfg - 2))))
     \<and> (\<forall>f c w l k. fn_security_key cfg = Some f \<longrightarrow> fst (f c w l k) = 0 \<longrightarrow>
          did_secured cfg \<longrightarrow> unat l < 32)
     \<and> (\<forall>e \<in> set (did_table cfg). \<forall>f c w d. did_read e = Some f \<longrightarrow>
          fits (unat (did_size e)) (fst (f c w d (did_size e))))
     \<and> (\<forall>f c w b. fn_dtc_read cfg = Some f \<longrightarrow>
          fits (unat (tx_buffer_size cfg - 2)) (fst (f c w b (tx_buffer_size cfg - 2))))
     \<and> (\<forall>f c w b d. fn_auth cfg = Some f \<longrightarrow>
          fits (unat (tx_buffer_size cfg - 2)) (fst (f c w b d (tx_buffer_size cfg - 2))))
     \<and> (\<forall>f c w t i d. fn_routine_control cfg = Some f \<longrightarrow>
          fits (unat (tx_buffer_size cfg - 4)) (fst (f c w t i d (tx_buffer_size cfg - 4))))
     \<and> (\<forall>f c w i t d. fn_io_control cfg = Some f \<longrightarrow>
          fits (unat (tx_buffer_size cfg - 3)) (fst (f c w i t d (tx_buffer_size cfg - 3))))
     \<and> (\<forall>f c w a n. fn_mem_read cfg = Some f \<longrightarrow> length (snd (fst (f c w a n))) \<le> unat n)"

section \<open>What the machine keeps\<close>

definition wfm :: "'w config \<Rightarrow> 'w machine \<Rightarrow> bool" where
  "wfm cfg s \<longleftrightarrow>
     \<not> ctx_null s \<and> config_set s
     \<and> length (tx_buf s) = unat (tx_buffer_size cfg)
     \<and> active_session s \<in> {UDS_SESSION_ID_DEFAULT, UDS_SESSION_ID_PROGRAMMING,
                           UDS_SESSION_ID_EXTENDED}
     \<and> (did_secured cfg \<longrightarrow> unat (security_level s) < 32)
     \<and> length (periodic_ids s) = 8 \<and> length (periodic_rates s) = 8
     \<and> length (periodic_timers s) = 8
     \<and> (\<forall>e \<in> set (did_table cfg). \<forall>a. did_storage e = Some a \<longrightarrow>
          unat (did_size e) \<le> length (did_store s a))"

text \<open>
  How the security level may change: it keeps its value, is reset, or is the level of a key
  that the application accepted.
\<close>

definition keyed :: "'w machine \<Rightarrow> event list \<Rightarrow> 'w machine \<Rightarrow> bool" where
  "keyed s0 evs s \<longleftrightarrow> security_level s = security_level s0 \<or> security_level s = 0
     \<or> (\<exists>k. EHook (HKey (security_level s) k 0) \<in> set evs)"

lemma keyed_trans: "keyed s0 es s \<Longrightarrow> keyed s fs t \<Longrightarrow> keyed s0 (es @ fs) t"
  by (auto simp: keyed_def)

text \<open>
  The state of a handler that has not answered yet: well formed, nothing sent and no lock
  touched since the state \<open>s0\<close> it started in, and no request newly pending.
\<close>

definition working :: "'w config \<Rightarrow> 'w machine \<Rightarrow> 'w machine \<Rightarrow> bool" where
  "working cfg s0 s \<longleftrightarrow> wfm cfg s \<and> (p2_msg_pending s \<longrightarrow> p2_msg_pending s0) \<and>
     (\<exists>evs. tr s = tr s0 @ evs \<and> sent evs = [] \<and> lock_ops evs = [] \<and> keyed s0 evs s)"

text \<open>
  What a handler of service \<open>sid\<close> leaves behind: the machine is well formed, at most one
  SDU was sent and it is an answer to \<open>sid\<close>, the locks were not touched, a security level
  was gained only by a key, the pending flag is left to the dispatcher, and a request for
  more time was not answered.
\<close>

definition answered :: "'w config \<Rightarrow> u8 \<Rightarrow> 'w machine \<Rightarrow> int \<times> 'w machine \<Rightarrow> bool" where
  "answered cfg sid s0 r \<longleftrightarrow> wfm cfg (snd r) \<and> (p2_msg_pending (snd r) \<longrightarrow> p2_msg_pending s0) \<and>
     (\<exists>evs. tr (snd r) = tr s0 @ evs \<and> lock_ops evs = [] \<and> keyed s0 evs (snd r)
        \<and> (sent evs = [] \<or> (\<exists>bs. sent evs = [bs] \<and> is_answer sid bs))
        \<and> (fst r = UDS_PENDING \<longrightarrow> sent evs = []))"

text \<open>A handler that is done: it does not ask for more time.\<close>

definition replied :: "'w config \<Rightarrow> u8 \<Rightarrow> 'w machine \<Rightarrow> int \<times> 'w machine \<Rightarrow> bool" where
  "replied cfg sid s0 r \<longleftrightarrow> answered cfg sid s0 r \<and> fst r \<le> 0"

lemma replied_answered: "replied cfg sid s0 r \<Longrightarrow> answered cfg sid s0 r"
  by (simp add: replied_def)

section \<open>Facts about the helpers\<close>

text \<open>Logging and locking touch nothing but the application state and the trace.\<close>

lemma log_fields [simp]:
  "config_set (uds_internal_log cfg l m s) = config_set s"
  "state_byte (uds_internal_log cfg l m s) = state_byte s"
  "active_session (uds_internal_log cfg l m s) = active_session s"
  "security_level (uds_internal_log cfg l m s) = security_level s"
  "last_msg_time (uds_internal_log cfg l m s) = last_msg_time s"
  "p2_timer_start (uds_internal_log cfg l m s) = p2_timer_start s"
  "p2_msg_pending (uds_internal_log cfg l m s) = p2_msg_pending s"
  "p2_star_active (uds_internal_log cfg l m s) = p2_star_active s"
  "response_pending (uds_internal_log cfg l m s) = response_pending s"
  "client_cb (uds_internal_log cfg l m s) = client_cb s"
  "pending_sid (uds_internal_log cfg l m s) = pending_sid s"
  "comm_state (uds_internal_log cfg l m s) = comm_state s"
  "suppress_pos_resp (uds_internal_log cfg l m s) = suppress_pos_resp s"
  "p2_ms (uds_internal_log cfg l m s) = p2_ms s"
  "p2_star_ms (uds_internal_log cfg l m s) = p2_star_ms s"
  "flash_sequence (uds_internal_log cfg l m s) = flash_sequence s"
  "security_delay_end (uds_internal_log cfg l m s) = security_delay_end s"
  "security_attempts (uds_internal_log cfg l m s) = security_attempts s"
  "rcrrp_count (uds_internal_log cfg l m s) = rcrrp_count s"
  "periodic_ids (uds_internal_log cfg l m s) = periodic_ids s"
  "periodic_rates (uds_internal_log cfg l m s) = periodic_rates s"
  "periodic_timers (uds_internal_log cfg l m s) = periodic_timers s"
  "periodic_count (uds_internal_log cfg l m s) = periodic_count s"
  "ctx_null (uds_internal_log cfg l m s) = ctx_null s"
  "tx_buf (uds_internal_log cfg l m s) = tx_buf s"
  "rx_buf (uds_internal_log cfg l m s) = rx_buf s"
  "did_store (uds_internal_log cfg l m s) = did_store s"
  by (simp_all add: uds_internal_log_def emit_def split: option.splits)

lemma lock_fields [simp]:
  "config_set (mutex_lock cfg s) = config_set s"
  "state_byte (mutex_lock cfg s) = state_byte s"
  "active_session (mutex_lock cfg s) = active_session s"
  "security_level (mutex_lock cfg s) = security_level s"
  "last_msg_time (mutex_lock cfg s) = last_msg_time s"
  "p2_timer_start (mutex_lock cfg s) = p2_timer_start s"
  "p2_msg_pending (mutex_lock cfg s) = p2_msg_pending s"
  "p2_star_active (mutex_lock cfg s) = p2_star_active s"
  "response_pending (mutex_lock cfg s) = response_pending s"
  "client_cb (mutex_lock cfg s) = client_cb s"
  "pending_sid (mutex_lock cfg s) = pending_sid s"
  "comm_state (mutex_lock cfg s) = comm_state s"
  "suppress_pos_resp (mutex_lock cfg s) = suppress_pos_resp s"
  "p2_ms (mutex_lock cfg s) = p2_ms s"
  "p2_star_ms (mutex_lock cfg s) = p2_star_ms s"
  "flash_sequence (mutex_lock cfg s) = flash_sequence s"
  "security_delay_end (mutex_lock cfg s) = security_delay_end s"
  "security_attempts (mutex_lock cfg s) = security_attempts s"
  "rcrrp_count (mutex_lock cfg s) = rcrrp_count s"
  "periodic_ids (mutex_lock cfg s) = periodic_ids s"
  "periodic_rates (mutex_lock cfg s) = periodic_rates s"
  "periodic_timers (mutex_lock cfg s) = periodic_timers s"
  "periodic_count (mutex_lock cfg s) = periodic_count s"
  "ctx_null (mutex_lock cfg s) = ctx_null s"
  "tx_buf (mutex_lock cfg s) = tx_buf s"
  "rx_buf (mutex_lock cfg s) = rx_buf s"
  "did_store (mutex_lock cfg s) = did_store s"
  by (simp_all add: mutex_lock_def emit_def split: option.splits)

lemma unlock_fields [simp]:
  "config_set (mutex_unlock cfg s) = config_set s"
  "state_byte (mutex_unlock cfg s) = state_byte s"
  "active_session (mutex_unlock cfg s) = active_session s"
  "security_level (mutex_unlock cfg s) = security_level s"
  "last_msg_time (mutex_unlock cfg s) = last_msg_time s"
  "p2_timer_start (mutex_unlock cfg s) = p2_timer_start s"
  "p2_msg_pending (mutex_unlock cfg s) = p2_msg_pending s"
  "p2_star_active (mutex_unlock cfg s) = p2_star_active s"
  "response_pending (mutex_unlock cfg s) = response_pending s"
  "client_cb (mutex_unlock cfg s) = client_cb s"
  "pending_sid (mutex_unlock cfg s) = pending_sid s"
  "comm_state (mutex_unlock cfg s) = comm_state s"
  "suppress_pos_resp (mutex_unlock cfg s) = suppress_pos_resp s"
  "p2_ms (mutex_unlock cfg s) = p2_ms s"
  "p2_star_ms (mutex_unlock cfg s) = p2_star_ms s"
  "flash_sequence (mutex_unlock cfg s) = flash_sequence s"
  "security_delay_end (mutex_unlock cfg s) = security_delay_end s"
  "security_attempts (mutex_unlock cfg s) = security_attempts s"
  "rcrrp_count (mutex_unlock cfg s) = rcrrp_count s"
  "periodic_ids (mutex_unlock cfg s) = periodic_ids s"
  "periodic_rates (mutex_unlock cfg s) = periodic_rates s"
  "periodic_timers (mutex_unlock cfg s) = periodic_timers s"
  "periodic_count (mutex_unlock cfg s) = periodic_count s"
  "ctx_null (mutex_unlock cfg s) = ctx_null s"
  "tx_buf (mutex_unlock cfg s) = tx_buf s"
  "rx_buf (mutex_unlock cfg s) = rx_buf s"
  "did_store (mutex_unlock cfg s) = did_store s"
  by (simp_all add: mutex_unlock_def emit_def split: option.splits)

lemma called_fields [simp]:
  "config_set (snd (called h rw s)) = config_set s"
  "state_byte (snd (called h rw s)) = state_byte s"
  "active_session (snd (called h rw s)) = active_session s"
  "security_level (snd (called h rw s)) = security_level s"
  "last_msg_time (snd (called h rw s)) = last_msg_time s"
  "p2_timer_start (snd (called h rw s)) = p2_timer_start s"
  "p2_msg_pending (snd (called h rw s)) = p2_msg_pending s"
  "p2_star_active (snd (called h rw s)) = p2_star_active s"
  "response_pending (snd (called h rw s)) = response_pending s"
  "client_cb (snd (called h rw s)) = client_cb s"
  "pending_sid (snd (called h rw s)) = pending_sid s"
  "comm_state (snd (called h rw s)) = comm_state s"
  "suppress_pos_resp (snd (called h rw s)) = suppress_pos_resp s"
  "p2_ms (snd (called h rw s)) = p2_ms s"
  "p2_star_ms (snd (called h rw s)) = p2_star_ms s"
  "flash_sequence (snd (called h rw s)) = flash_sequence s"
  "security_delay_end (snd (called h rw s)) = security_delay_end s"
  "security_attempts (snd (called h rw s)) = security_attempts s"
  "rcrrp_count (snd (called h rw s)) = rcrrp_count s"
  "periodic_ids (snd (called h rw s)) = periodic_ids s"
  "periodic_rates (snd (called h rw s)) = periodic_rates s"
  "periodic_timers (snd (called h rw s)) = periodic_timers s"
  "periodic_count (snd (called h rw s)) = periodic_count s"
  "ctx_null (snd (called h rw s)) = ctx_null s"
  "tx_buf (snd (called h rw s)) = tx_buf s"
  "rx_buf (snd (called h rw s)) = rx_buf s"
  "did_store (snd (called h rw s)) = did_store s"
  "app (snd (called h rw s)) = snd rw"
  "tr (snd (called h rw s)) = tr s @ [EHook h]"
  by (simp_all add: called_def emit_def)

lemma compliant_basic:
  assumes "compliant cfg"
  shows "tx_buffer cfg" "10 \<le> unat (tx_buffer_size cfg)" "\<not> tx_buffer_size cfg < 3"
    "get_time_ms cfg \<noteq> None" "fn_tp_send cfg \<noteq> None"
  using assms by (auto simp: compliant_def word_less_nat_alt)

lemma wfm_basic:
  assumes "wfm cfg s"
  shows "\<not> ctx_null s" "config_set s" "length (tx_buf s) = unat (tx_buffer_size cfg)"
    "length (periodic_ids s) = 8" "length (periodic_rates s) = 8" "length (periodic_timers s) = 8"
  using assms by (auto simp: wfm_def)

text \<open>
  Assignments that leave \<open>wf\<close> alone: the trace, the application state and every member
  that no clause of it mentions; and the buffer, when its length is kept.
\<close>

lemma wfm_frame [simp]:
  "wfm cfg (emit e s) = wfm cfg s"
  "wfm cfg (s\<lparr>app := w\<rparr>) = wfm cfg s"
  "wfm cfg (s\<lparr>tr := evs\<rparr>) = wfm cfg s"
  "wfm cfg (s\<lparr>last_msg_time := t\<rparr>) = wfm cfg s"
  "wfm cfg (s\<lparr>p2_timer_start := t\<rparr>) = wfm cfg s"
  "wfm cfg (s\<lparr>p2_msg_pending := b\<rparr>) = wfm cfg s"
  "wfm cfg (s\<lparr>p2_star_active := b\<rparr>) = wfm cfg s"
  "wfm cfg (s\<lparr>client_cb := cb\<rparr>) = wfm cfg s"
  "wfm cfg (s\<lparr>pending_sid := sid\<rparr>) = wfm cfg s"
  "wfm cfg (s\<lparr>comm_state := x\<rparr>) = wfm cfg s"
  "wfm cfg (s\<lparr>suppress_pos_resp := b\<rparr>) = wfm cfg s"
  "wfm cfg (s\<lparr>flash_sequence := x\<rparr>) = wfm cfg s"
  "wfm cfg (s\<lparr>security_delay_end := t\<rparr>) = wfm cfg s"
  "wfm cfg (s\<lparr>security_attempts := x\<rparr>) = wfm cfg s"
  "wfm cfg (s\<lparr>rcrrp_count := n\<rparr>) = wfm cfg s"
  "wfm cfg (s\<lparr>periodic_count := x\<rparr>) = wfm cfg s"
  by (simp_all add: wfm_def emit_def)

lemma wfm_tx_buf [simp]: "wfm cfg s \<Longrightarrow> length b = length (tx_buf s) \<Longrightarrow> wfm cfg (s\<lparr>tx_buf := b\<rparr>)"
  by (simp add: wfm_def)

lemma working_frame [simp]:
  "working cfg s0 (s\<lparr>app := w\<rparr>) = working cfg s0 s"
  "working cfg s0 (s\<lparr>comm_state := x\<rparr>) = working cfg s0 s"
  "working cfg s0 (s\<lparr>suppress_pos_resp := b\<rparr>) = working cfg s0 s"
  "working cfg s0 (s\<lparr>flash_sequence := x\<rparr>) = working cfg s0 s"
  "working cfg s0 (s\<lparr>security_delay_end := t\<rparr>) = working cfg s0 s"
  "working cfg s0 (s\<lparr>security_attempts := x\<rparr>) = working cfg s0 s"
  "working cfg s0 (s\<lparr>rcrrp_count := n\<rparr>) = working cfg s0 s"
  "working cfg s0 (s\<lparr>periodic_count := x\<rparr>) = working cfg s0 s"
  by (simp_all add: working_def keyed_def)

lemma working_served [simp]: "working cfg s0 s \<Longrightarrow> working cfg s0 (s\<lparr>p2_msg_pending := False\<rparr>)"
  by (simp add: working_def keyed_def)

lemma working_tx_buf [simp]:
  "working cfg s0 s \<Longrightarrow> length b = length (tx_buf s) \<Longrightarrow> working cfg s0 (s\<lparr>tx_buf := b\<rparr>)"
  by (simp add: working_def keyed_def)

lemma working_emit [simp]:
  "working cfg s0 s \<Longrightarrow> working cfg s0 (emit (EHook h) s)"
  "working cfg s0 s \<Longrightarrow> working cfg s0 (emit (ELog l m) s)"
  by (auto simp: working_def emit_def keyed_def)

lemma working_refl [simp]: "working cfg s s = wfm cfg s"
  by (simp add: working_def keyed_def)

lemma working_wfm: "working cfg s0 s \<Longrightarrow> wfm cfg s"
  by (simp add: working_def)

lemma working_called [simp]:
  "working cfg s0 s \<Longrightarrow> working cfg s0 (snd (called h rw s))"
  by (simp add: called_def)

lemma working_log [simp]:
  "working cfg s0 s \<Longrightarrow> working cfg s0 (uds_internal_log cfg l m s)"
  by (auto simp: uds_internal_log_def split: option.splits)

lemma fst_called [simp]: "fst (called h rw s) = fst rw"
  by (simp add: called_def)

lemma tx_write_eq: "i < length (tx_buf s) \<Longrightarrow> tx_write i v s = Some (s\<lparr>tx_buf := (tx_buf s)[i := v]\<rparr>)"
  by (simp add: tx_write_def)

lemma tx_fill_eq: "i + length xs \<le> length (tx_buf s) \<Longrightarrow> tx_fill i xs s =
    Some (s\<lparr>tx_buf := take i (tx_buf s) @ xs @ drop (i + length xs) (tx_buf s)\<rparr>)"
  by (simp add: tx_fill_def blit_Some)

lemma ok_tp_send:
  assumes "compliant cfg" "working cfg s0 s" "n \<le> length (tx_buf s)"
    "is_answer sid (take n (tx_buf s))"
  shows "ok (tp_send cfg n s) (replied cfg sid s0)"
proof -
  from assms(1) obtain f where f: "fn_tp_send cfg = Some f" "sdu_transport f"
    by (auto simp: compliant_def)
  have "fst (f c w bs) \<le> 0" for c w bs using f(2) by (rule sdu_transport.status)
  moreover from this have "fst (f c w bs) \<noteq> 1" for c w bs by (metis not_one_le_zero)
  ultimately show ?thesis using assms(2-4) f(1)
    by (auto simp: tp_send_def Let_def replied_def answered_def working_def) (auto simp: emit_def keyed_def)
qed

lemma ok_send_nrc:
  assumes c: "compliant cfg" and w: "working cfg s0 s"
  shows "ok (uds_send_nrc cfg sid nrc s) (replied cfg sid s0)"
proof -
  note b = wfm_basic [OF working_wfm [OF w]] and cb = compliant_basic [OF c]
  have "is_answer sid (take 3 ((tx_buf s)[0 := x7, Suc 0 := sid, 2 := nrc]))" if "x7 = 0x7F" for x7
    using b(3) cb(2) that
    by (cases "tx_buf s" rule: list.exhaust; cases "tl (tx_buf s)"; cases "tl (tl (tx_buf s))")
       (auto simp: is_answer_def numeral_2_eq_2 numeral_3_eq_3)
  then show ?thesis using w b cb
    by (simp add: uds_send_nrc_def Let_def tx_write_eq)
       (rule conjI impI ok_tp_send [OF c] | simp)+
qed

lemma replied_quiet:
  "working cfg s0 s \<Longrightarrow> r \<le> 0 \<Longrightarrow> replied cfg sid s0 (r, s)"
  by (auto simp: working_def answered_def replied_def)

lemma ok_send_response:
  assumes c: "compliant cfg" and w: "working cfg s0 s"
    and h: "0 < len" "tx_buf s ! 0 = sid + UDS_RESPONSE_OFFSET"
  shows "ok (uds_send_response cfg len s) (replied cfg sid s0)"
proof -
  note b = wfm_basic [OF working_wfm [OF w]] and cb = compliant_basic [OF c]
  have "is_answer sid (take (unat len) (tx_buf s))"
    if "\<not> len > tx_buffer_size cfg"
    using h that b(3) cb(2) by (cases "tx_buf s"; cases "unat len") (auto simp: is_answer_def word_less_nat_alt)
  then show ?thesis using w b cb
    by (auto simp: uds_send_response_def Let_def word_less_nat_alt not_less
        intro!: ok_tp_send [OF c] replied_quiet)
qed

lemma case_called [simp]:
  "(case called h rw s of (r, t) \<Rightarrow> g r t) = g (fst rw) (snd (called h rw s))"
  by (simp add: called_def)

section \<open>Rules for the proofs about handlers\<close>

lemma working_session [simp]:
  "working cfg s0 s \<Longrightarrow> x = 1 \<or> x = 2 \<or> x = 3 \<Longrightarrow> working cfg s0 (s\<lparr>active_session := x\<rparr>)"
  by (auto simp: working_def wfm_def keyed_def)

lemma working_relock [simp]: "working cfg s0 s \<Longrightarrow> working cfg s0 (s\<lparr>security_level := 0\<rparr>)"
  by (auto simp: working_def wfm_def keyed_def)

lemma working_key:
  "working cfg s0 s \<Longrightarrow> fst rw = 0 \<Longrightarrow> (did_secured cfg \<longrightarrow> unat l < 32) \<Longrightarrow>
   working cfg s0 ((snd (called (HKey l k 0) rw s))\<lparr>security_attempts := n, security_level := l\<rparr>)"
  by (auto simp: working_def wfm_def keyed_def)

lemma working_periodic [simp]:
  "working cfg s0 s \<Longrightarrow> length xs = 8 \<Longrightarrow> working cfg s0 (s\<lparr>periodic_ids := xs\<rparr>)"
  "working cfg s0 s \<Longrightarrow> length xs = 8 \<Longrightarrow> working cfg s0 (s\<lparr>periodic_rates := xs\<rparr>)"
  "working cfg s0 s \<Longrightarrow> length ts = 8 \<Longrightarrow> working cfg s0 (s\<lparr>periodic_timers := ts\<rparr>)"
  by (simp_all add: working_def wfm_def keyed_def)

lemma working_store [simp]:
  "working cfg s0 s \<Longrightarrow> length m = length (did_store s a) \<Longrightarrow>
   working cfg s0 (s\<lparr>did_store := (did_store s)(a := m)\<rparr>)"
  by (auto simp: working_def wfm_def keyed_def)

lemma working_lengths:
  assumes "working cfg s0 s"
  shows "length (periodic_ids s) = 8" "length (periodic_rates s) = 8"
    "length (periodic_timers s) = 8" "length (tx_buf s) = unat (tx_buffer_size cfg)"
  using assms by (simp_all add: working_def wfm_def)

text \<open>In a well-formed machine the access checks do not shift too far.\<close>

lemma ok_did_session_denied:
  "working cfg s0 s \<Longrightarrow> (\<And>b. P b) \<Longrightarrow> ok (did_session_denied e s) P"
  by (auto simp: did_session_denied_def working_def wfm_def shl1_def)

lemma find_did_in_table: "uds_internal_find_did cfg i s = Some e \<Longrightarrow> e \<in> set (did_table cfg)"
  by (auto simp: uds_internal_find_did_def find_Some_iff split: if_splits)

lemma ok_did_security_denied:
  "working cfg s0 s \<Longrightarrow> uds_internal_find_did cfg i t = Some e \<Longrightarrow> (\<And>b. P b) \<Longrightarrow>
   ok (did_security_denied e s) P"
  by (auto simp: did_security_denied_def working_def wfm_def shl1_def did_secured_def
      dest!: find_did_in_table)

lemma working_storage:
  "working cfg s0 s \<Longrightarrow> e \<in> set (did_table cfg) \<Longrightarrow> did_storage e = Some a \<Longrightarrow>
   unat (did_size e) \<le> length (did_store s a)"
  by (auto simp: working_def wfm_def)

lemma ok_tx_write: "i < length (tx_buf s) \<Longrightarrow> P (s\<lparr>tx_buf := (tx_buf s)[i := v]\<rparr>) \<Longrightarrow>
    ok (tx_write i v s) P"
  by (simp add: tx_write_eq)

lemma ok_tx_fill_le:
  assumes "length xs \<le> k" "i + k \<le> length (tx_buf s)"
    and "\<And>b. length b = length (tx_buf s) \<Longrightarrow> P (s\<lparr>tx_buf := b\<rparr>)"
  shows "ok (tx_fill i xs s) P"
  using assms by (simp add: tx_fill_eq)

lemma ok_time_now:
  assumes "compliant cfg" "working cfg s0 s" "\<And>t s'. working cfg s0 s' \<Longrightarrow> P (t, s')"
  shows "ok (time_now cfg s) P"
  using assms by (auto simp: compliant_def time_now_def)

lemmas vc_simps = Let_def uds_exec tx_write_eq tx_fill_eq case_prod_beta

lemmas vc_intros = ok_if ok_case_option ok_send_nrc ok_send_response replied_quiet

text \<open>
  A callback that fills what is left of the buffer behind a header of \<open>k\<close> bytes: its
  bytes fit, and the length of the response does not wrap.
\<close>

lemma compliant_fits:
  assumes "compliant cfg"
  shows "fn_security_seed cfg = Some f1 \<Longrightarrow>
      fits (unat (tx_buffer_size cfg - 2)) (fst (f1 c w l (tx_buffer_size cfg - 2)))"
    and "fn_dtc_read cfg = Some f2 \<Longrightarrow>
      fits (unat (tx_buffer_size cfg - 2)) (fst (f2 c w l (tx_buffer_size cfg - 2)))"
    and "fn_auth cfg = Some f3 \<Longrightarrow>
      fits (unat (tx_buffer_size cfg - 2)) (fst (f3 c w l d (tx_buffer_size cfg - 2)))"
    and "fn_routine_control cfg = Some f4 \<Longrightarrow>
      fits (unat (tx_buffer_size cfg - 4)) (fst (f4 c w l i d (tx_buffer_size cfg - 4)))"
    and "fn_io_control cfg = Some f5 \<Longrightarrow>
      fits (unat (tx_buffer_size cfg - 3)) (fst (f5 c w i l d (tx_buffer_size cfg - 3)))"
    and "e \<in> set (did_table cfg) \<Longrightarrow> did_read e = Some f6 \<Longrightarrow>
      fits (unat (did_size e)) (fst (f6 c w i (did_size e)))"
    and "fn_mem_read cfg = Some f7 \<Longrightarrow> length (snd (fst (f7 c w a n))) \<le> unat n"
  using assms by (auto simp: compliant_def)

lemma compliant_key:
  assumes "compliant cfg" "fn_security_key cfg = Some f" "fst (f c w l k) = 0" "did_secured cfg"
  shows "unat l < 32"
proof -
  from assms(1) have "\<forall>f c w l k. fn_security_key cfg = Some f \<longrightarrow> fst (f c w l k) = 0 \<longrightarrow>
      did_secured cfg \<longrightarrow> unat l < 32"
    unfolding compliant_def by (elim conjE)
  from this [rule_format, OF assms(2-4)] show ?thesis .
qed

lemma unat_minus_le:
  fixes n k :: "'a::len word"
  assumes "unat k \<le> unat n" shows "unat (n - k) = unat n - unat k"
  using assms by (simp add: unat_sub word_le_nat_alt)

lemma fits_room:
  fixes k :: u16
  assumes "fits (unat (tx_buffer_size cfg - k)) r" "unat k \<le> unat (tx_buffer_size cfg)"
  shows "unat k + length (snd r) \<le> unat (tx_buffer_size cfg)"
  using assms by (auto simp: fits_def unat_minus_le)

lemma fits_len:
  fixes k :: u16
  assumes "fits (unat (tx_buffer_size cfg - k)) r" "unat k \<le> unat (tx_buffer_size cfg)"
    "\<not> fst r < 0"
  shows "unat (word_of_int (fst r) + k) = nat (fst r) + unat k"
proof -
  obtain w where w: "fst r = int w" using assms(3) by (metis nonneg_int_cases not_less)
  then have "w + unat k < 65536"
    using assms u16_less [of "tx_buffer_size cfg"]
    by (auto simp: fits_def unat_minus_le simp del: u16_less)
  with w show ?thesis by (simp add: unat_word_ariths unat_of_nat_u16)
qed

lemma fits_len_pos:
  fixes k :: u16
  assumes "fits (unat (tx_buffer_size cfg - k)) r" "unat k \<le> unat (tx_buffer_size cfg)"
    "\<not> fst r < 0" "0 < k"
  shows "0 < word_of_int (fst r) + k"
  using fits_len [OF assms(1-3)] assms(4) by (simp add: word_less_nat_alt)

section \<open>The contract of a service handler\<close>

text \<open>
  The interface between the dispatcher and a handler: on a request of the handler's
  service that is long enough, a handler of a compliant application has no undefined
  behaviour and leaves the machine \<open>answered\<close>.
\<close>

locale uds_service =
  fixes cfg :: "'w config"
    and sid :: u8
    and min_len :: nat
    and handler :: "'w handler_fn"
  assumes serves: "compliant cfg \<Longrightarrow> wfm cfg s \<Longrightarrow> min_len \<le> length data \<Longrightarrow>
    length data < 65536 \<Longrightarrow> data ! 0 = sid \<Longrightarrow> ok (handler data s) (answered cfg sid s)"

text \<open>
  The handlers of the library keep a stronger contract: they never ask for more time.
\<close>

locale immediate_service =
  fixes cfg :: "'w config"
    and sid :: u8
    and min_len :: nat
    and handler :: "'w handler_fn"
  assumes replies: "compliant cfg \<Longrightarrow> wfm cfg s \<Longrightarrow> min_len \<le> length data \<Longrightarrow>
    length data < 65536 \<Longrightarrow> data ! 0 = sid \<Longrightarrow> ok (handler data s) (replied cfg sid s)"

sublocale immediate_service \<subseteq> uds_service
  by unfold_locales (rule ok_mono [OF replies replied_answered])

end
