(* ===== verification/Uds_Example.thy ===== *)
theory Uds_Example
  imports Uds_Support
begin

text \<open>
  A small application to run the properties on: a clock, a transport, buffers of 64 bytes,
  no optional callback, and the machine as \<open>uds_init\<close> leaves it. The witnesses of the
  properties add the callbacks they need by record update.
\<close>

definition base_config :: "('w \<Rightarrow> u32 \<times> 'w) \<Rightarrow> (uds_ctx \<Rightarrow> 'w \<Rightarrow> u8 list \<Rightarrow> int \<times> 'w) \<Rightarrow> 'w config" where
  "base_config clock send = \<lparr>
     ecu_address = 0x10, get_time_ms = Some clock, fn_log = None, fn_tp_send = Some send,
     cfg_p2_ms = 50, cfg_p2_star_ms = 5000, fn_reset = None, fn_comm_control = None,
     fn_security_seed = None, fn_security_key = None, rx_buffer = True, rx_buffer_size = 64,
     tx_buffer = True, tx_buffer_size = 64, strict_compliance = False, log_level = 0,
     security_delay_ms = 0, security_max_attempts = 0, rcrrp_limit = 0,
     transfer_accept_last_block_replay = False, did_table = [], user_services = [],
     fn_is_safe = None, fn_nvm_save = None, fn_nvm_load = None, fn_dtc_read = None,
     fn_dtc_clear = None, fn_auth = None, fn_routine_control = None, fn_request_download = None,
     fn_transfer_data = None, fn_transfer_exit = None, fn_mem_read = None, fn_mem_write = None,
     fn_io_control = None, fn_request_upload = None, fn_periodic_read = None,
     fn_mutex_lock = None, fn_mutex_unlock = None, p2_server_max = 50, p2_star_server_max = 500\<rparr>"

definition base_machine :: "'w \<Rightarrow> 'w machine" where
  "base_machine w = \<lparr>
     config_set = True, state_byte = 0, active_session = 1, security_level = 0,
     last_msg_time = 0, p2_timer_start = 0, p2_msg_pending = False, p2_star_active = False,
     response_pending = False, client_cb = None, pending_sid = 0, comm_state = 0,
     suppress_pos_resp = False, p2_ms = 50, p2_star_ms = 5000, flash_sequence = 0,
     security_delay_end = 0, security_attempts = 0, rcrrp_count = 0,
     periodic_ids = replicate 8 0, periodic_rates = replicate 8 0,
     periodic_timers = replicate 8 0, periodic_count = 0,
     ctx_null = False, tx_buf = replicate 64 0, rx_buf = replicate 64 0,
     did_store = (\<lambda>a. replicate 8 0), app = w, tr = []\<rparr>"

text \<open>An application whose state is the time in milliseconds, with a transport that succeeds.\<close>

definition clock_config :: "u32 config" where
  "clock_config = base_config (\<lambda>w. (w, w)) (\<lambda>c w bs. (0, w))"

lemma base_compliant: "sdu_transport send \<Longrightarrow> compliant (base_config clock send)"
  by (simp add: base_config_def compliant_def)

lemma clock_transport: "sdu_transport (\<lambda>c w bs. (0, w))"
  by unfold_locales simp

lemma clock_compliant: "compliant clock_config"
  unfolding clock_config_def by (rule base_compliant [OF clock_transport])

lemma base_wfm: "wfm (base_config clock send) (base_machine w)"
  by (simp add: base_config_def base_machine_def wfm_def)

lemma clock_wfm: "wfm clock_config (base_machine w)"
  unfolding clock_config_def by (rule base_wfm)

lemma clock_fields:
  "fn_log clock_config = None"
  "fn_reset clock_config = None"
  "fn_comm_control clock_config = None"
  "fn_security_seed clock_config = None"
  "fn_security_key clock_config = None"
  "fn_is_safe clock_config = None"
  "fn_nvm_save clock_config = None"
  "fn_nvm_load clock_config = None"
  "fn_dtc_read clock_config = None"
  "fn_dtc_clear clock_config = None"
  "fn_auth clock_config = None"
  "fn_routine_control clock_config = None"
  "fn_request_download clock_config = None"
  "fn_transfer_data clock_config = None"
  "fn_transfer_exit clock_config = None"
  "fn_mem_read clock_config = None"
  "fn_mem_write clock_config = None"
  "fn_io_control clock_config = None"
  "fn_request_upload clock_config = None"
  "fn_periodic_read clock_config = None"
  "fn_mutex_lock clock_config = None"
  "fn_mutex_unlock clock_config = None"
  "did_table clock_config = []" "user_services clock_config = []"
  "get_time_ms clock_config = Some (\<lambda>w. (w, w))" "fn_tp_send clock_config = Some (\<lambda>c w bs. (0, w))"
  "rcrrp_limit clock_config = 0" "tx_buffer_size clock_config = 64" "tx_buffer clock_config"
  "rx_buffer clock_config" "rx_buffer_size clock_config = 64" "log_level clock_config = 0"
  "security_delay_ms clock_config = 0" "security_max_attempts clock_config = 0"
  "strict_compliance clock_config = False" "transfer_accept_last_block_replay clock_config = False"
  "cfg_p2_ms clock_config = 50" "cfg_p2_star_ms clock_config = 5000"
  "p2_server_max clock_config = 50" "p2_star_server_max clock_config = 500"
  by (simp_all add: clock_config_def base_config_def)

lemma machine_fields:
  "tr (base_machine w) = []" "app (base_machine w) = w" "active_session (base_machine w) = 1"
  "security_level (base_machine w) = 0" "p2_msg_pending (base_machine w) = False"
  "pending_sid (base_machine w) = 0" "flash_sequence (base_machine w) = 0"
  "suppress_pos_resp (base_machine w) = False" "client_cb (base_machine w) = None"
  "ctx_null (base_machine w) = False" "config_set (base_machine w)"
  "tx_buf (base_machine w) = replicate 64 0" "security_delay_end (base_machine w) = 0"
  "security_attempts (base_machine w) = 0" "rcrrp_count (base_machine w) = 0"
  "last_msg_time (base_machine w) = 0" "p2_ms (base_machine w) = 50" "p2_star_ms (base_machine w) = 5000"
  "p2_timer_start (base_machine w) = 0" "p2_star_active (base_machine w) = False"
  "periodic_ids (base_machine w) = replicate 8 0" "periodic_rates (base_machine w) = replicate 8 0"
  "periodic_timers (base_machine w) = replicate 8 0" "periodic_count (base_machine w) = 0"
  "did_store (base_machine w) = (\<lambda>a. replicate 8 0)" "rx_buf (base_machine w) = replicate 64 0"
  by (simp_all add: base_machine_def)

lemma buffer_64: "replicate 64 (0 :: u8) = 0 # 0 # 0 # 0 # 0 # 0 # 0 # 0 # replicate 56 0"
  by (simp add: numeral_eq_Suc)

end
