(* ===== verification/Uds_Session.thy ===== *)
theory Uds_Session
  imports Uds_Example
begin

text \<open>
  \<open>uds_service_session.c\<close>: DiagnosticSessionControl (0x10) and TesterPresent (0x3E).
\<close>

section \<open>Handlers\<close>

definition save_state :: "'w config \<Rightarrow> 'w machine \<Rightarrow> 'w machine" where
  "save_state cfg s = (case fn_nvm_save cfg of None \<Rightarrow> s
     | Some f \<Rightarrow>
         (let bs = [active_session s, security_level s]
          in snd (called (HNvmSave bs) (f (ctx_view s) (app s) bs) s)))"

definition uds_internal_handle_session_control :: "'w config \<Rightarrow> 'w handler_fn" where
  "uds_internal_handle_session_control cfg data s = do {
     d1 \<leftarrow> byte_at data 1;
     let sub = d1 AND UDS_MASK_SUBFUNCTION;
     if sub \<noteq> UDS_SESSION_ID_DEFAULT \<and> sub \<noteq> UDS_SESSION_ID_PROGRAMMING
        \<and> sub \<noteq> UDS_SESSION_ID_EXTENDED
     then uds_send_nrc cfg UDS_SID_SESSION_CONTROL UDS_NRC_SUBFUNCTION_NOT_SUPPORTED s
     else do {
       let s = (if active_session s \<noteq> sub \<or> sub = UDS_SESSION_ID_DEFAULT
                then s\<lparr>security_level := 0\<rparr> else s);
       let s = s\<lparr>active_session := sub\<rparr>;
       s \<leftarrow> tx_write 0 (UDS_SID_SESSION_CONTROL + UDS_RESPONSE_OFFSET) s;
       s \<leftarrow> tx_write 1 sub s;
       let p2 = (if p2_server_max cfg > 0 then p2_server_max cfg else 50);
       let p2_star = (if p2_star_server_max cfg > 0 then p2_star_server_max cfg else 5000);
       let p2_star_val = p2_star div 10;
       s \<leftarrow> tx_write 2 (hi8 p2) s;
       s \<leftarrow> tx_write 3 (lo8 p2) s;
       s \<leftarrow> tx_write 4 (hi8 p2_star_val) s;
       s \<leftarrow> tx_write 5 (lo8 p2_star_val) s;
       (_, s) \<leftarrow> uds_send_response cfg 6 s;
       Some (UDS_OK, save_state cfg s) } }"

definition uds_internal_handle_tester_present :: "'w config \<Rightarrow> 'w handler_fn" where
  "uds_internal_handle_tester_present cfg data s = do {
     d1 \<leftarrow> byte_at data 1;
     let sub = d1 AND UDS_MASK_SUBFUNCTION;
     if sub = 0 then do {
       s \<leftarrow> tx_write 0 (UDS_SID_TESTER_PRESENT + UDS_RESPONSE_OFFSET) s;
       s \<leftarrow> tx_write 1 0 s;
       uds_send_response cfg 2 s }
     else uds_send_nrc cfg UDS_SID_TESTER_PRESENT UDS_NRC_SUBFUNCTION_NOT_SUPPORTED s }"

section \<open>Contract\<close>

lemma working_save_state [simp]: "working cfg s0 s \<Longrightarrow> working cfg s0 (save_state cfg s)"
  by (auto simp: save_state_def Let_def split: option.splits)

lemma tx_buf_save_state [simp]: "tx_buf (save_state cfg s) = tx_buf s"
  by (simp add: save_state_def Let_def split: option.splits)

lemma replied_save_state:
  "replied cfg sid s0 (r, s) \<Longrightarrow> r' \<le> 0 \<Longrightarrow> replied cfg sid s0 (r', save_state cfg s)"
  by (auto simp: replied_def answered_def save_state_def called_def Let_def split: option.splits)
     (auto simp: emit_def keyed_def)

interpretation session_control: immediate_service cfg UDS_SID_SESSION_CONTROL 2 "uds_internal_handle_session_control cfg"
  for cfg :: "'w config"
proof
  fix s :: "'w machine" and data :: "u8 list"
  assume a: "compliant cfg" "wfm cfg s" "2 \<le> length data"
  note b = wfm_basic [OF a(2)] compliant_basic [OF a(1)]
  show "ok (uds_internal_handle_session_control cfg data s) (replied cfg UDS_SID_SESSION_CONTROL s)"
    using a b
    by (auto simp: uds_internal_handle_session_control_def vc_simps split: option.splits
        intro!: ok_send_nrc ok_mono [OF ok_send_response] replied_save_state)
qed

interpretation tester_present: immediate_service cfg UDS_SID_TESTER_PRESENT 2 "uds_internal_handle_tester_present cfg"
  for cfg :: "'w config"
proof
  fix s :: "'w machine" and data :: "u8 list"
  assume a: "compliant cfg" "wfm cfg s" "2 \<le> length data"
  note b = wfm_basic [OF a(2)] compliant_basic [OF a(1)]
  show "ok (uds_internal_handle_tester_present cfg data s) (replied cfg UDS_SID_TESTER_PRESENT s)"
    using a b
    by (auto simp: uds_internal_handle_tester_present_def vc_simps split: option.splits
        intro!: vc_intros)
qed

end
