(* ===== verification/Uds_Security.thy ===== *)
theory Uds_Security
  imports Uds_Session
begin

text \<open>
  \<open>uds_service_security.c\<close>: SecurityAccess (0x27) with its delay timer and attempt
  counter, and Authentication (0x29).
\<close>

section \<open>Handlers\<close>

definition max_attempts :: "'w config \<Rightarrow> u8" where
  "max_attempts cfg = (if security_max_attempts cfg \<noteq> 0 then security_max_attempts cfg else 3)"

definition lockout_delay :: "'w config \<Rightarrow> u32" where
  "lockout_delay cfg = (if security_delay_ms cfg \<noteq> 0 then security_delay_ms cfg else 10000)"

text \<open>The branch for an odd subfunction, RequestSeed.\<close>

definition request_seed :: "'w config \<Rightarrow> u8 \<Rightarrow> u8 \<Rightarrow> 'w machine \<Rightarrow> (int \<times> 'w machine) option" where
  "request_seed cfg sub_raw sub s = (case fn_security_seed cfg of
       None \<Rightarrow> uds_send_nrc cfg UDS_SID_SECURITY_ACCESS UDS_NRC_CONDITIONS_NOT_CORRECT s
     | Some f \<Rightarrow> do {
         s \<leftarrow> tx_write 0 (UDS_SID_SECURITY_ACCESS + UDS_RESPONSE_OFFSET) s;
         s \<leftarrow> tx_write 1 sub_raw s;
         let level = ucast ((ucast sub + 1 :: u16) div 2);
         let ((seed_len, out), s) = called (HSeed level)
           (f (ctx_view s) (app s) level (tx_buffer_size cfg - 2)) s;
         s \<leftarrow> tx_fill 2 out s;
         if seed_len < 0
         then uds_send_nrc cfg UDS_SID_SECURITY_ACCESS (nrc_of_int seed_len) s
         else uds_send_response cfg (word_of_int seed_len + 2) s })"

text \<open>The branch for an even subfunction, SendKey.\<close>

definition send_key :: "'w config \<Rightarrow> u32 \<Rightarrow> u8 \<Rightarrow> u8 \<Rightarrow> u8 list \<Rightarrow> 'w machine
    \<Rightarrow> (int \<times> 'w machine) option" where
  "send_key cfg now sub_raw sub key s = (case fn_security_key cfg of
       None \<Rightarrow> uds_send_nrc cfg UDS_SID_SECURITY_ACCESS UDS_NRC_CONDITIONS_NOT_CORRECT s
     | Some f \<Rightarrow> do {
         let level = sub div 2;
         let rw = f (ctx_view s) (app s) level key;
         let (res, s) = called (HKey level key (fst rw)) rw s;
         if res = 0 then do {
           let s = s\<lparr>security_attempts := 0, security_level := level\<rparr>;
           let s = save_state cfg s;
           s \<leftarrow> tx_write 0 (UDS_SID_SECURITY_ACCESS + UDS_RESPONSE_OFFSET) s;
           s \<leftarrow> tx_write 1 sub_raw s;
           uds_send_response cfg 2 s }
         else do {
           let s = s\<lparr>security_attempts := security_attempts s + 1\<rparr>;
           if security_attempts s \<ge> max_attempts cfg then
             uds_send_nrc cfg UDS_SID_SECURITY_ACCESS UDS_NRC_EXCEEDED_ATTEMPTS
               (s\<lparr>security_delay_end := now + lockout_delay cfg\<rparr>)
           else
             uds_send_nrc cfg UDS_SID_SECURITY_ACCESS
               (if res < 0 then nrc_of_int res else UDS_NRC_INVALID_KEY) s } })"

definition uds_internal_handle_security_access :: "'w config \<Rightarrow> 'w handler_fn" where
  "uds_internal_handle_security_access cfg data s =
     (if length data < 2
      then uds_send_nrc cfg UDS_SID_SECURITY_ACCESS UDS_NRC_INCORRECT_LENGTH s
      else do {
        (now, s) \<leftarrow> time_now cfg s;
        if security_delay_end s \<noteq> 0 \<and> now < security_delay_end s
        then uds_send_nrc cfg UDS_SID_SECURITY_ACCESS UDS_NRC_REQUIRED_TIME_DELAY s
        else do {
          let s = (if security_delay_end s \<noteq> 0 then s\<lparr>security_delay_end := 0\<rparr> else s);
          sub_raw \<leftarrow> byte_at data 1;
          let sub = sub_raw AND 0x7F;
          if sub mod 2 \<noteq> 0 then request_seed cfg sub_raw sub s
          else send_key cfg now sub_raw sub (drop 2 data) s } })"

definition uds_internal_handle_authentication :: "'w config \<Rightarrow> 'w handler_fn" where
  "uds_internal_handle_authentication cfg data s =
     (if length data < 2
      then uds_send_nrc cfg UDS_SID_AUTHENTICATION UDS_NRC_INCORRECT_LENGTH s
      else do {
        d1 \<leftarrow> byte_at data 1;
        let sub = d1 AND 0x7F;
        case fn_auth cfg of
          None \<Rightarrow> uds_send_nrc cfg UDS_SID_AUTHENTICATION UDS_NRC_CONDITIONS_NOT_CORRECT s
        | Some f \<Rightarrow> do {
            let ((written, out), s) = called (HAuth sub (drop 2 data))
              (f (ctx_view s) (app s) sub (drop 2 data) (tx_buffer_size cfg - 2)) s;
            s \<leftarrow> tx_fill 2 out s;
            if written < 0
            then uds_send_nrc cfg UDS_SID_AUTHENTICATION (nrc_of_int written) s
            else do {
              s \<leftarrow> tx_write 0 (UDS_SID_AUTHENTICATION + UDS_RESPONSE_OFFSET) s;
              s \<leftarrow> tx_write 1 d1 s;
              uds_send_response cfg (word_of_int written + 2) s } } })"

section \<open>Contract\<close>

lemma ok_request_seed:
  assumes a: "compliant cfg" "working cfg s0 s"
  shows "ok (request_seed cfg r sub s) (replied cfg UDS_SID_SECURITY_ACCESS s0)"
proof -
  note b = wfm_basic [OF working_wfm [OF a(2)]] compliant_basic [OF a(1)]
  { fix f c w l
    assume "fn_security_seed cfg = Some f"
    note fit = compliant_fits(1) [OF a(1) this, of c w l]
    note fits_room [OF fit] fits_len_pos [OF fit] }
  note fit = this
  show ?thesis using a b fit
    by (auto simp: request_seed_def vc_simps nth_append split: option.splits intro!: vc_intros)
qed

lemma ok_send_key:
  assumes a: "compliant cfg" "working cfg s0 s"
  shows "ok (send_key cfg now r sub key s) (replied cfg UDS_SID_SECURITY_ACCESS s0)"
proof -
  note b = wfm_basic [OF working_wfm [OF a(2)]] compliant_basic [OF a(1)]
  show ?thesis using a b
    by (auto simp: send_key_def vc_simps simp del: working_tx_buf working_save_state split: option.splits
        intro!: vc_intros working_tx_buf working_save_state working_key intro: compliant_key [OF a(1)])
qed

interpretation security_access: immediate_service cfg UDS_SID_SECURITY_ACCESS 2 "uds_internal_handle_security_access cfg"
  for cfg :: "'w config"
proof
  fix s :: "'w machine" and data :: "u8 list"
  assume a: "compliant cfg" "wfm cfg s" "2 \<le> length data"
  note b = wfm_basic [OF a(2)] compliant_basic [OF a(1)]
  show "ok (uds_internal_handle_security_access cfg data s) (replied cfg UDS_SID_SECURITY_ACCESS s)"
    using a b
    by (auto simp: uds_internal_handle_security_access_def vc_simps split: option.splits
        intro!: ok_time_now ok_send_nrc ok_request_seed ok_send_key)
qed

interpretation authentication: immediate_service cfg UDS_SID_AUTHENTICATION 2 "uds_internal_handle_authentication cfg"
  for cfg :: "'w config"
proof
  fix s :: "'w machine" and data :: "u8 list"
  assume a: "compliant cfg" "wfm cfg s" "2 \<le> length data"
  note b = wfm_basic [OF a(2)] compliant_basic [OF a(1)]
  { fix f c w l d
    assume "fn_auth cfg = Some f"
    note fit = compliant_fits(3) [OF a(1) this, of c w l d]
    note fits_room [OF fit] fits_len_pos [OF fit] }
  note fit = this
  show "ok (uds_internal_handle_authentication cfg data s) (replied cfg UDS_SID_AUTHENTICATION s)"
    using a b fit
    by (auto simp: uds_internal_handle_authentication_def vc_simps split: option.splits
        intro!: vc_intros)
qed

end
