(* ===== verification/Uds_Maintenance.thy ===== *)
theory Uds_Maintenance
  imports Uds_Example
begin

text \<open>
  \<open>uds_service_maintenance.c\<close>: ECUReset (0x11), CommunicationControl (0x28),
  ClearDiagnosticInformation (0x14), ReadDTCInformation (0x19), ControlDTCSetting (0x85).
\<close>

section \<open>Handlers\<close>

definition uds_internal_handle_ecu_reset :: "'w config \<Rightarrow> 'w handler_fn" where
  "uds_internal_handle_ecu_reset cfg data s =
     (if length data < 2
      then uds_send_nrc cfg UDS_SID_ECU_RESET UDS_NRC_INCORRECT_LENGTH s
      else do {
        sub_raw \<leftarrow> byte_at data 1;
        let sub = sub_raw AND 0x7F;
        let suppress = (sub_raw AND 0x80 \<noteq> 0);
        if sub < 1 \<or> sub > 5
        then uds_send_nrc cfg UDS_SID_ECU_RESET UDS_NRC_SUBFUNCTION_NOT_SUPPORTED s
        else do {
          let s = (if suppress then s\<lparr>suppress_pos_resp := True\<rparr> else s);
          let s = (case fn_reset cfg of None \<Rightarrow> s
                   | Some f \<Rightarrow> snd (called (HReset sub) ((), f (ctx_view s) (app s) sub) s));
          if suppress then Some (UDS_OK, s)
          else do {
            s \<leftarrow> tx_write 0 (UDS_SID_ECU_RESET + UDS_RESPONSE_OFFSET) s;
            s \<leftarrow> tx_write 1 sub s;
            uds_send_response cfg 2 s } } })"

definition uds_internal_handle_comm_control :: "'w config \<Rightarrow> 'w handler_fn" where
  "uds_internal_handle_comm_control cfg data s =
     (if length data < 3
      then uds_send_nrc cfg UDS_SID_COMM_CONTROL UDS_NRC_INCORRECT_LENGTH s
      else do {
        sub_raw \<leftarrow> byte_at data 1;
        let ctrl_type = sub_raw AND 0x7F;
        let suppress = (sub_raw AND 0x80 \<noteq> 0);
        comm_type \<leftarrow> byte_at data 2;
        if ctrl_type > 5
        then uds_send_nrc cfg UDS_SID_COMM_CONTROL UDS_NRC_SUBFUNCTION_NOT_SUPPORTED s
        else do {
          let type_nibble = comm_type AND 0x0F;
          if type_nibble = 0 \<or> type_nibble > 3
          then uds_send_nrc cfg UDS_SID_COMM_CONTROL UDS_NRC_REQUEST_OUT_OF_RANGE s
          else do {
            let s = (if suppress then s\<lparr>suppress_pos_resp := True\<rparr> else s);
            let (ret, s) = (case fn_comm_control cfg of None \<Rightarrow> (UDS_OK, s)
              | Some f \<Rightarrow> called (HCommControl ctrl_type comm_type)
                  (f (ctx_view s) (app s) ctrl_type comm_type) s);
            if ret \<noteq> UDS_OK
            then uds_send_nrc cfg UDS_SID_COMM_CONTROL (nrc_of_int ret) s
            else do {
              let s = s\<lparr>comm_state := ctrl_type\<rparr>;
              let s = uds_internal_log cfg UDS_LOG_INFO ''Communication state changed'' s;
              if suppress then Some (UDS_OK, s)
              else do {
                s \<leftarrow> tx_write 0 (UDS_SID_COMM_CONTROL + UDS_RESPONSE_OFFSET) s;
                s \<leftarrow> tx_write 1 ctrl_type s;
                uds_send_response cfg 2 s } } } } })"

definition uds_internal_handle_clear_dtc :: "'w config \<Rightarrow> 'w handler_fn" where
  "uds_internal_handle_clear_dtc cfg data s =
     (if length data < 4
      then uds_send_nrc cfg UDS_SID_CLEAR_DTC UDS_NRC_INCORRECT_LENGTH s
      else case fn_dtc_clear cfg of
        None \<Rightarrow> uds_send_nrc cfg UDS_SID_CLEAR_DTC UDS_NRC_CONDITIONS_NOT_CORRECT s
      | Some f \<Rightarrow> do {
          d1 \<leftarrow> byte_at data 1;
          d2 \<leftarrow> byte_at data 2;
          d3 \<leftarrow> byte_at data 3;
          let group = push_bit 16 (ucast d1) OR push_bit 8 (ucast d2) OR ucast d3;
          let (res, s) = called (HDtcClear group) (f (ctx_view s) (app s) group) s;
          if res \<noteq> UDS_OK
          then uds_send_nrc cfg UDS_SID_CLEAR_DTC (nrc_of_int res) s
          else do {
            s \<leftarrow> tx_write 0 (UDS_SID_CLEAR_DTC + UDS_RESPONSE_OFFSET) s;
            uds_send_response cfg 1 s } })"

definition dtc_mask_required :: "u8 \<Rightarrow> bool" where
  "dtc_mask_required sub \<longleftrightarrow> sub = 0x01 \<or> sub = 0x02 \<or> sub = 0x07 \<or> sub = 0x08
     \<or> sub = 0x0F \<or> sub = 0x11 \<or> sub = 0x12 \<or> sub = 0x13"

definition uds_internal_handle_read_dtc_info :: "'w config \<Rightarrow> 'w handler_fn" where
  "uds_internal_handle_read_dtc_info cfg data s =
     (if length data < 2
      then uds_send_nrc cfg UDS_SID_READ_DTC_INFO UDS_NRC_INCORRECT_LENGTH s
      else do {
        sub_raw \<leftarrow> byte_at data 1;
        let sub = sub_raw AND 0x7F;
        let suppress = (sub_raw AND 0x80 \<noteq> 0);
        if dtc_mask_required sub \<and> length data < 3
        then uds_send_nrc cfg UDS_SID_READ_DTC_INFO UDS_NRC_INCORRECT_LENGTH s
        else case fn_dtc_read cfg of
          None \<Rightarrow> uds_send_nrc cfg UDS_SID_READ_DTC_INFO UDS_NRC_CONDITIONS_NOT_CORRECT s
        | Some f \<Rightarrow> do {
            let s = (if suppress then s\<lparr>suppress_pos_resp := True\<rparr> else s);
            let ((written, out), s) = called (HDtcRead sub)
              (f (ctx_view s) (app s) sub (tx_buffer_size cfg - 2)) s;
            s \<leftarrow> tx_fill 2 out s;
            if written < 0
            then uds_send_nrc cfg UDS_SID_READ_DTC_INFO (nrc_of_int written) s
            else if suppress then Some (UDS_OK, s)
            else do {
              s \<leftarrow> tx_write 0 (UDS_SID_READ_DTC_INFO + UDS_RESPONSE_OFFSET) s;
              s \<leftarrow> tx_write 1 sub s;
              uds_send_response cfg (word_of_int written + 2) s } } })"

definition uds_internal_handle_control_dtc_setting :: "'w config \<Rightarrow> 'w handler_fn" where
  "uds_internal_handle_control_dtc_setting cfg data s =
     (if length data < 2
      then uds_send_nrc cfg UDS_SID_CONTROL_DTC_SETTING UDS_NRC_INCORRECT_LENGTH s
      else do {
        sub_raw \<leftarrow> byte_at data 1;
        let sub = sub_raw AND 0x7F;
        let suppress = (sub_raw AND 0x80 \<noteq> 0);
        if sub \<noteq> 0x01 \<and> sub \<noteq> 0x02
        then uds_send_nrc cfg UDS_SID_CONTROL_DTC_SETTING UDS_NRC_SUBFUNCTION_NOT_SUPPORTED s
        else do {
          let s = (if suppress then s\<lparr>suppress_pos_resp := True\<rparr> else s);
          s \<leftarrow> tx_write 0 (UDS_SID_CONTROL_DTC_SETTING + UDS_RESPONSE_OFFSET) s;
          s \<leftarrow> tx_write 1 sub s;
          uds_send_response cfg 2 s } })"

section \<open>Contract\<close>

interpretation ecu_reset: immediate_service cfg UDS_SID_ECU_RESET 2 "uds_internal_handle_ecu_reset cfg"
  for cfg :: "'w config"
proof
  fix s :: "'w machine" and data :: "u8 list"
  assume a: "compliant cfg" "wfm cfg s" "2 \<le> length data"
  note b = wfm_basic [OF a(2)] compliant_basic [OF a(1)]
  show "ok (uds_internal_handle_ecu_reset cfg data s) (replied cfg UDS_SID_ECU_RESET s)"
    using a b
    by (auto simp: uds_internal_handle_ecu_reset_def vc_simps split: option.splits
        intro!: vc_intros)
qed

interpretation comm_control: immediate_service cfg UDS_SID_COMM_CONTROL 2 "uds_internal_handle_comm_control cfg"
  for cfg :: "'w config"
proof
  fix s :: "'w machine" and data :: "u8 list"
  assume a: "compliant cfg" "wfm cfg s" "2 \<le> length data"
  note b = wfm_basic [OF a(2)] compliant_basic [OF a(1)]
  show "ok (uds_internal_handle_comm_control cfg data s) (replied cfg UDS_SID_COMM_CONTROL s)"
    using a b
    by (auto simp: uds_internal_handle_comm_control_def vc_simps split: option.splits
        intro!: vc_intros)
qed

interpretation clear_dtc: immediate_service cfg UDS_SID_CLEAR_DTC 4 "uds_internal_handle_clear_dtc cfg"
  for cfg :: "'w config"
proof
  fix s :: "'w machine" and data :: "u8 list"
  assume a: "compliant cfg" "wfm cfg s" "4 \<le> length data"
  note b = wfm_basic [OF a(2)] compliant_basic [OF a(1)]
  show "ok (uds_internal_handle_clear_dtc cfg data s) (replied cfg UDS_SID_CLEAR_DTC s)"
    using a b
    by (auto simp: uds_internal_handle_clear_dtc_def vc_simps split: option.splits
        intro!: vc_intros)
qed

interpretation read_dtc_info: immediate_service cfg UDS_SID_READ_DTC_INFO 2 "uds_internal_handle_read_dtc_info cfg"
  for cfg :: "'w config"
proof
  fix s :: "'w machine" and data :: "u8 list"
  assume a: "compliant cfg" "wfm cfg s" "2 \<le> length data"
  note b = wfm_basic [OF a(2)] compliant_basic [OF a(1)]
  { fix f c w l
    assume "fn_dtc_read cfg = Some f"
    note fit = compliant_fits(2) [OF a(1) this, of c w l]
    note fits_room [OF fit] fits_len_pos [OF fit] }
  note fit = this
  show "ok (uds_internal_handle_read_dtc_info cfg data s) (replied cfg UDS_SID_READ_DTC_INFO s)"
    using a b fit
    by (auto simp: uds_internal_handle_read_dtc_info_def vc_simps split: option.splits
        intro!: vc_intros)
qed

interpretation control_dtc_setting: immediate_service cfg UDS_SID_CONTROL_DTC_SETTING 2 "uds_internal_handle_control_dtc_setting cfg"
  for cfg :: "'w config"
proof
  fix s :: "'w machine" and data :: "u8 list"
  assume a: "compliant cfg" "wfm cfg s" "2 \<le> length data"
  note b = wfm_basic [OF a(2)] compliant_basic [OF a(1)]
  show "ok (uds_internal_handle_control_dtc_setting cfg data s) (replied cfg UDS_SID_CONTROL_DTC_SETTING s)"
    using a b
    by (auto simp: uds_internal_handle_control_dtc_setting_def vc_simps split: option.splits
        intro!: vc_intros)
qed

end
