(* ===== verification/Uds_Data.thy ===== *)
theory Uds_Data
  imports Uds_Example
begin

text \<open>
  \<open>uds_service_data.c\<close>, the data identifiers: ReadDataByIdentifier (0x22) and
  WriteDataByIdentifier (0x2E).
\<close>

section \<open>Handlers\<close>

text \<open>
  How the loop of 0x22 ends: all identifiers read (\<open>RdbiDone\<close> with the length so far), a
  \<open>break\<close> with an error code, or a \<open>return\<close> from inside the loop.
\<close>

datatype 'w rdbi_out =
    RdbiDone nat "'w machine"
  | RdbiError u8 "'w machine"
  | RdbiReturn int "'w machine"

definition rdbi_return :: "'w config \<Rightarrow> u8 \<Rightarrow> 'w machine \<Rightarrow> 'w rdbi_out option" where
  "rdbi_return cfg nrc s = do {
     (r, s) \<leftarrow> uds_send_nrc cfg UDS_SID_READ_DATA_BY_ID nrc s;
     Some (RdbiReturn r s) }"

fun rdbi_loop :: "'w config \<Rightarrow> u8 list \<Rightarrow> nat \<Rightarrow> 'w machine \<Rightarrow> 'w rdbi_out option" where
  "rdbi_loop cfg (h # l # rest) tx_len s = (let did = be16 h l in
     case uds_internal_find_did cfg did s of
       None \<Rightarrow> Some (RdbiError UDS_NRC_REQUEST_OUT_OF_RANGE s)
     | Some entry \<Rightarrow> do {
         sess \<leftarrow> did_session_denied entry s;
         if sess then Some (RdbiError UDS_NRC_REQUEST_OUT_OF_RANGE s)
         else do {
           sec \<leftarrow> did_security_denied entry s;
           if sec then Some (RdbiError UDS_NRC_SECURITY_ACCESS_DENIED s)
           else if tx_len + unat (did_size entry) + 2 > unat (tx_buffer_size cfg)
           then rdbi_return cfg UDS_NRC_RESPONSE_TOO_LONG s
           else do {
             s \<leftarrow> tx_write tx_len (hi8 did) s;
             s \<leftarrow> tx_write (tx_len + 1) (lo8 did) s;
             case did_read entry of
               Some f \<Rightarrow> do {
                 let ((res, out), s) = called (HDidRead did)
                   (f (ctx_view s) (app s) did (did_size entry)) s;
                 s \<leftarrow> tx_fill (tx_len + 2) out s;
                 if res \<ge> 0 then rdbi_loop cfg rest (tx_len + 2 + unat (did_size entry)) s
                 else rdbi_return cfg (nrc_of_int res) s }
             | None \<Rightarrow> (case did_storage entry of
                 Some a \<Rightarrow> do {
                   bs \<leftarrow> bytes_at (did_store s a) 0 (unat (did_size entry));
                   s \<leftarrow> tx_fill (tx_len + 2) bs s;
                   rdbi_loop cfg rest (tx_len + 2 + unat (did_size entry)) s }
               | None \<Rightarrow> Some (RdbiError UDS_NRC_CONDITIONS_NOT_CORRECT s)) } } })"
| "rdbi_loop cfg _ tx_len s = Some (RdbiDone tx_len s)"

definition uds_internal_handle_read_data_by_id :: "'w config \<Rightarrow> 'w handler_fn" where
  "uds_internal_handle_read_data_by_id cfg data s = do {
     out \<leftarrow> rdbi_loop cfg (drop 1 data) 1 s;
     case out of
       RdbiReturn r s \<Rightarrow> Some (r, s)
     | RdbiError nrc s \<Rightarrow> uds_send_nrc cfg UDS_SID_READ_DATA_BY_ID nrc s
     | RdbiDone tx_len s \<Rightarrow> do {
         s \<leftarrow> tx_write 0 (UDS_SID_READ_DATA_BY_ID + UDS_RESPONSE_OFFSET) s;
         uds_send_response cfg (of_nat tx_len) s } }"

text \<open>
  The length test compares 16-bit values: \<open>3 + size\<close> wraps for a size of 65533 or more,
  and then no request passes it.
\<close>

definition uds_internal_handle_write_data_by_id :: "'w config \<Rightarrow> 'w handler_fn" where
  "uds_internal_handle_write_data_by_id cfg data s =
     (if length data < 3
      then uds_send_nrc cfg UDS_SID_WRITE_DATA_BY_ID UDS_NRC_INCORRECT_LENGTH s
      else do {
        d1 \<leftarrow> byte_at data 1;
        d2 \<leftarrow> byte_at data 2;
        let did = be16 d1 d2;
        case uds_internal_find_did cfg did s of
          None \<Rightarrow> uds_send_nrc cfg UDS_SID_WRITE_DATA_BY_ID UDS_NRC_REQUEST_OUT_OF_RANGE s
        | Some entry \<Rightarrow> do {
            sess \<leftarrow> did_session_denied entry s;
            if sess
            then uds_send_nrc cfg UDS_SID_WRITE_DATA_BY_ID UDS_NRC_REQUEST_OUT_OF_RANGE s
            else do {
              sec \<leftarrow> did_security_denied entry s;
              if sec
              then uds_send_nrc cfg UDS_SID_WRITE_DATA_BY_ID UDS_NRC_SECURITY_ACCESS_DENIED s
              else if (of_nat (length data) :: u16) \<noteq> 3 + did_size entry
              then uds_send_nrc cfg UDS_SID_WRITE_DATA_BY_ID UDS_NRC_INCORRECT_LENGTH s
              else do {
                bs \<leftarrow> bytes_at data 3 (unat (did_size entry));
                (write_ok, s) \<leftarrow> (case did_write entry of
                    Some f \<Rightarrow>
                      (let (res, s) = called (HDidWrite did bs) (f (ctx_view s) (app s) did bs) s
                       in Some (res = 0, s))
                  | None \<Rightarrow> (case did_storage entry of
                      Some a \<Rightarrow> do {
                        m \<leftarrow> blit 0 bs (did_store s a);
                        Some (True, s\<lparr>did_store := (did_store s)(a := m)\<rparr>) }
                    | None \<Rightarrow> Some (False, s)));
                if write_ok then do {
                  s \<leftarrow> tx_write 0 (UDS_SID_WRITE_DATA_BY_ID + UDS_RESPONSE_OFFSET) s;
                  s \<leftarrow> tx_write 1 d1 s;
                  s \<leftarrow> tx_write 2 d2 s;
                  uds_send_response cfg 3 s }
                else uds_send_nrc cfg UDS_SID_WRITE_DATA_BY_ID
                       UDS_NRC_CONDITIONS_NOT_CORRECT s } } } })"

section \<open>Contract\<close>

fun rdbi_post :: "'w config \<Rightarrow> 'w machine \<Rightarrow> 'w rdbi_out \<Rightarrow> bool" where
  "rdbi_post cfg s0 (RdbiDone n s) \<longleftrightarrow> working cfg s0 s \<and> 1 \<le> n \<and> n < 65536"
| "rdbi_post cfg s0 (RdbiError nrc s) \<longleftrightarrow> working cfg s0 s"
| "rdbi_post cfg s0 (RdbiReturn r s) \<longleftrightarrow> replied cfg UDS_SID_READ_DATA_BY_ID s0 (r, s)"

lemma ok_rdbi_return:
  "compliant cfg \<Longrightarrow> working cfg s0 s \<Longrightarrow> ok (rdbi_return cfg nrc s) (rdbi_post cfg s0)"
  by (auto simp: rdbi_return_def case_prod_beta intro!: ok_mono [OF ok_send_nrc])

lemma ok_rdbi_loop:
  assumes c: "compliant cfg"
  shows "working cfg s0 s \<Longrightarrow> 1 \<le> n \<Longrightarrow> n \<le> unat (tx_buffer_size cfg) \<Longrightarrow>
    ok (rdbi_loop cfg data n s) (rdbi_post cfg s0)"
proof (induction data arbitrary: n s rule: induct_list012)
  case (3 h l rest)
  let ?did = "be16 h l"
  show ?case
  proof (cases "uds_internal_find_did cfg ?did s")
    case None
    with 3 show ?thesis by simp
  next
    case (Some e)
    note w = 3(3) and IH = 3(1) and n = 3(4,5)
    have e: "e \<in> set (did_table cfg)" using Some by (rule find_did_in_table)
    note l = working_lengths(4) [OF w]
    { fix f c w assume "did_read e = Some f"
      from compliant_fits(6) [OF c e this, of c w ?did]
      have "length (snd (fst (f c w ?did (did_size e)))) \<le> unat (did_size e)" by (simp add: fits_def) }
    note fit = this
    have st: "unat (did_size e) \<le> length (did_store s a)" if "did_storage e = Some a" for a
      using working_storage [OF w e that] .
    show ?thesis using w n l Some fit st
      by (auto simp: vc_simps split: option.splits
          intro!: ok_did_session_denied [OF w] ok_did_security_denied [OF w Some] ok_if ok_rdbi_return [OF c]
            ok_tx_fill_le [where k = "unat (did_size e)"] IH)
  qed
qed (auto intro: le_less_trans [OF _ u16_less [of "tx_buffer_size cfg"]])

interpretation read_data_by_id: immediate_service cfg UDS_SID_READ_DATA_BY_ID 3 "uds_internal_handle_read_data_by_id cfg"
  for cfg :: "'w config"
proof
  fix s :: "'w machine" and data :: "u8 list"
  assume a: "compliant cfg" "wfm cfg s" "3 \<le> length data"
  note b = wfm_basic [OF a(2)] compliant_basic [OF a(1)]
  have "ok (rdbi_loop cfg (drop 1 data) 1 s) (rdbi_post cfg s)"
    using a b by (intro ok_rdbi_loop) auto
  then show "ok (uds_internal_handle_read_data_by_id cfg data s) (replied cfg UDS_SID_READ_DATA_BY_ID s)"
    unfolding uds_internal_handle_read_data_by_id_def ok_bind
  proof (rule ok_mono)
    fix out assume "rdbi_post cfg s out"
    then show "ok (case out of RdbiReturn r s \<Rightarrow> Some (r, s)
       | RdbiError nrc s \<Rightarrow> uds_send_nrc cfg UDS_SID_READ_DATA_BY_ID nrc s
       | RdbiDone tx_len s \<Rightarrow> do {
         s \<leftarrow> tx_write 0 (UDS_SID_READ_DATA_BY_ID + UDS_RESPONSE_OFFSET) s;
         uds_send_response cfg (of_nat tx_len) s }) (replied cfg UDS_SID_READ_DATA_BY_ID s)"
      using a(1) b(8) working_lengths(4) [of cfg s]
      by (cases out)
         (fastforce simp: word_less_nat_alt unat_of_nat_u16
            intro!: ok_send_nrc ok_tx_write ok_send_response)+
  qed
qed

interpretation write_data_by_id: immediate_service cfg UDS_SID_WRITE_DATA_BY_ID 3 "uds_internal_handle_write_data_by_id cfg"
  for cfg :: "'w config"
proof
  fix s :: "'w machine" and data :: "u8 list"
  assume a: "compliant cfg" "wfm cfg s" "3 \<le> length data" "length data < 65536"
  note b = wfm_basic [OF a(2)] compliant_basic [OF a(1)]
  have w: "working cfg s s" using a(2) by simp
  { fix e assume "uds_internal_find_did cfg (be16 (data ! 1) (data ! 2)) s = Some e"
    note find_did_in_table [OF this]
    note working_storage [OF w this] }
  note st = this
  { fix n :: u16 assume "of_nat (length data) = 3 + n"
    then have "unat (of_nat (length data) :: u16) = unat (3 + n)" by simp
    then have "length data = (3 + unat n) mod 65536" using a(4) by (simp add: unat_of_nat_u16 unat_word_ariths)
    moreover have "\<not> 65536 \<le> 3 + unat n"
    proof
      assume "65536 \<le> 3 + unat n"
      then have "(3 + unat n) mod 65536 = 3 + unat n - 65536" using u16_less [of n]
         by (simp add: mod_if del: u16_less)
      with calculation a(3) show False using u16_less [of n] by (simp del: u16_less)
    qed
    ultimately have "length data = 3 + unat n" by simp }
  note len = this
  show "ok (uds_internal_handle_write_data_by_id cfg data s) (replied cfg UDS_SID_WRITE_DATA_BY_ID s)"
    using a b st len
    by (auto simp: uds_internal_handle_write_data_by_id_def vc_simps blit_Some split: option.splits
        intro!: vc_intros ok_did_session_denied [OF w] ok_did_security_denied [OF w])
qed

end
