(* ===== verification/Uds_Periodic.thy ===== *)
theory Uds_Periodic
  imports Uds_Example
begin

text \<open>
  ReadDataByPeriodicIdentifier (0x2A): the handler of \<open>uds_service_data.c\<close>, which keeps
  the table of eight periodic identifiers, and the scheduler of \<open>uds_process\<close>, which
  sends them. A slot whose identifier is 0 is free.
\<close>

section \<open>Handler\<close>

definition stop_slot :: "u8 \<Rightarrow> nat \<Rightarrow> 'w machine \<Rightarrow> 'w machine" where
  "stop_slot i j s =
     (if periodic_ids s ! j = i
      then s\<lparr>periodic_ids := (periodic_ids s)[j := 0], periodic_count := periodic_count s - 1\<rparr>
      else s)"

definition stop_id :: "u8 \<Rightarrow> 'w machine \<Rightarrow> 'w machine" where
  "stop_id i s = fold (stop_slot i) [0..<8] s"

definition find_slot :: "u8 \<Rightarrow> 'w machine \<Rightarrow> nat option" where
  "find_slot i s = List.find (\<lambda>j. periodic_ids s ! j = i) [0..<8]"

text \<open>One identifier of an add or update request; the boolean tells that the table is full.\<close>

definition add_id :: "'w config \<Rightarrow> u8 \<Rightarrow> u8 \<Rightarrow> 'w machine \<Rightarrow> (bool \<times> 'w machine) option" where
  "add_id cfg mode i s = (case find_slot i s of
       Some j \<Rightarrow> Some (False, s\<lparr>periodic_rates := (periodic_rates s)[j := mode]\<rparr>)
     | None \<Rightarrow>
         if periodic_count s \<ge> 8 then Some (True, s)
         else (case find_slot 0 s of
             None \<Rightarrow> Some (False, s)
           | Some j \<Rightarrow> do {
               let s = s\<lparr>periodic_ids := (periodic_ids s)[j := i],
                         periodic_rates := (periodic_rates s)[j := mode]\<rparr>;
               (now, s) \<leftarrow> time_now cfg s;
               Some (False, s\<lparr>periodic_timers := (periodic_timers s)[j := now],
                              periodic_count := periodic_count s + 1\<rparr>) }))"

fun add_ids :: "'w config \<Rightarrow> u8 \<Rightarrow> u8 list \<Rightarrow> 'w machine \<Rightarrow> (bool \<times> 'w machine) option" where
  "add_ids cfg mode [] s = Some (False, s)"
| "add_ids cfg mode (i # ids) s = do {
     (full, s) \<leftarrow> add_id cfg mode i s;
     if full then Some (True, s) else add_ids cfg mode ids s }"

definition uds_internal_handle_periodic_read :: "'w config \<Rightarrow> 'w handler_fn" where
  "uds_internal_handle_periodic_read cfg data s =
     (if length data < 2
      then uds_send_nrc cfg UDS_SID_READ_BY_PER_ID UDS_NRC_INCORRECT_LENGTH s
      else do {
        d1 \<leftarrow> byte_at data 1;
        let mode = d1 AND 0x0F;
        if mode = 0x04 then do {
          let s = (if length data = 2
                   then s\<lparr>periodic_ids := replicate 8 0, periodic_count := 0\<rparr>
                   else fold stop_id (drop 2 data) s);
          s \<leftarrow> tx_write 0 (UDS_SID_READ_BY_PER_ID + UDS_RESPONSE_OFFSET) s;
          uds_send_response cfg 1 s }
        else if mode < 0x01 \<or> mode > 0x03
        then uds_send_nrc cfg UDS_SID_READ_BY_PER_ID UDS_NRC_REQUEST_OUT_OF_RANGE s
        else do {
          (full, s) \<leftarrow> add_ids cfg mode (drop 2 data) s;
          if full then uds_send_nrc cfg UDS_SID_READ_BY_PER_ID UDS_NRC_RESPONSE_TOO_LONG s
          else do {
            s \<leftarrow> tx_write 0 (UDS_SID_READ_BY_PER_ID + UDS_RESPONSE_OFFSET) s;
            uds_send_response cfg 1 s } } })"

section \<open>Scheduler\<close>

definition periodic_interval :: "u8 \<Rightarrow> u32" where
  "periodic_interval rate =
     (if rate = UDS_PERIODIC_RATE_FAST then UDS_PERIODIC_FAST_INTERVAL_MS
      else if rate = UDS_PERIODIC_RATE_MEDIUM then UDS_PERIODIC_MEDIUM_INTERVAL_MS
      else UDS_PERIODIC_SLOW_INTERVAL_MS)"

text \<open>
  One slot of the loop. \<open>fn_periodic_read\<close> is called without a null test and fills a local
  buffer of 8 bytes; \<open>memcpy\<close> then reads as many bytes as the callback reported.
\<close>

definition periodic_slot :: "'w config \<Rightarrow> u32 \<Rightarrow> nat \<Rightarrow> 'w machine \<Rightarrow> 'w machine option" where
  "periodic_slot cfg now i s =
     (if periodic_ids s ! i = 0 \<or> \<not> now \<ge> periodic_timers s ! i then Some s
      else (case fn_periodic_read cfg of
          None \<Rightarrow> None
        | Some f \<Rightarrow> do {
            let pid = periodic_ids s ! i;
            let ((written, out), s) = called (HPeriodicRead pid)
              (f (ctx_view s) (app s) pid UDS_MAX_PERIODIC_MSG_LEN) s;
            s \<leftarrow> (if length out > 8 then None
                  else if written > 0 then do {
                    s \<leftarrow> tx_write 0 pid s;
                    bs \<leftarrow> bytes_at out 0 (nat written);
                    s \<leftarrow> tx_fill 1 bs s;
                    (_, s) \<leftarrow> tp_send cfg (nat written + 1) s;
                    Some s }
                  else Some s);
            Some (s\<lparr>periodic_timers :=
              (periodic_timers s)[i := now + periodic_interval (periodic_rates s ! i)]\<rparr>) }))"

fun periodic_scan :: "'w config \<Rightarrow> u32 \<Rightarrow> nat list \<Rightarrow> 'w machine \<Rightarrow> 'w machine option" where
  "periodic_scan cfg now [] s = Some s"
| "periodic_scan cfg now (i # is) s = do {
     s \<leftarrow> periodic_slot cfg now i s;
     periodic_scan cfg now is s }"

definition periodic_scheduler :: "'w config \<Rightarrow> u32 \<Rightarrow> 'w machine \<Rightarrow> 'w machine option" where
  "periodic_scheduler cfg now s =
     (if periodic_count s > 0 then periodic_scan cfg now [0..<8] s else Some s)"

section \<open>Contract\<close>

lemma working_stop_slot [simp]: "working cfg s0 s \<Longrightarrow> working cfg s0 (stop_slot i j s)"
  by (simp add: stop_slot_def working_lengths)

lemma working_stop_id [simp]: "working cfg s0 s \<Longrightarrow> working cfg s0 (stop_id i s)"
proof -
  have "working cfg s0 s \<Longrightarrow> working cfg s0 (fold (stop_slot i) js s)" for js
    by (induction js arbitrary: s) simp_all
  then show "working cfg s0 s \<Longrightarrow> working cfg s0 (stop_id i s)" by (simp add: stop_id_def)
qed

lemma working_stop_ids [simp]: "working cfg s0 s \<Longrightarrow> working cfg s0 (fold stop_id ids s)"
  by (induction ids arbitrary: s) simp_all

lemma ok_add_id:
  assumes "compliant cfg" "working cfg s0 s" "\<And>b s'. working cfg s0 s' \<Longrightarrow> P (b, s')"
  shows "ok (add_id cfg mode i s) P"
  using assms(2) working_lengths [OF assms(2)]
  by (auto simp: add_id_def Let_def working_lengths split: option.splits
      intro!: assms(3) ok_time_now [OF assms(1), of s0])

lemma ok_add_ids:
  assumes "compliant cfg" "\<And>b s'. working cfg s0 s' \<Longrightarrow> P (b, s')"
  shows "working cfg s0 s \<Longrightarrow> ok (add_ids cfg mode ids s) P"
  by (induction ids arbitrary: s) (auto intro!: assms(2) ok_add_id [OF assms(1)])

interpretation periodic_read: immediate_service cfg UDS_SID_READ_BY_PER_ID 2 "uds_internal_handle_periodic_read cfg"
  for cfg :: "'w config"
proof
  fix s :: "'w machine" and data :: "u8 list"
  assume a: "compliant cfg" "wfm cfg s" "2 \<le> length data"
  have t: "0 < length (tx_buf x)" if "working cfg s x" for x
    using working_lengths(4) [OF that] compliant_basic(2) [OF a(1)] by simp
  show "ok (uds_internal_handle_periodic_read cfg data s) (replied cfg UDS_SID_READ_BY_PER_ID s)"
    using a t [OF working_stop_ids] t
    by (auto simp: uds_internal_handle_periodic_read_def Let_def uds_exec
      intro!: vc_intros ok_tx_write ok_add_ids [OF a(1), of s] working_stop_ids)
qed

end
