(* ===== verification/Uds_Flash.thy ===== *)
theory Uds_Flash
  imports Uds_Example
begin

text \<open>
  \<open>uds_service_flash.c\<close>: RoutineControl (0x31), RequestDownload (0x34), RequestUpload
  (0x35), TransferData (0x36) and RequestTransferExit (0x37).
\<close>

section \<open>Handlers\<close>

definition uds_internal_handle_routine_control :: "'w config \<Rightarrow> 'w handler_fn" where
  "uds_internal_handle_routine_control cfg data s =
     (if length data < 4
      then uds_send_nrc cfg UDS_SID_ROUTINE_CONTROL UDS_NRC_INCORRECT_LENGTH s
      else do {
        rtype \<leftarrow> byte_at data 1;
        d2 \<leftarrow> byte_at data 2;
        d3 \<leftarrow> byte_at data 3;
        let rid = be16 d2 d3;
        case fn_routine_control cfg of
          None \<Rightarrow> uds_send_nrc cfg UDS_SID_ROUTINE_CONTROL UDS_NRC_CONDITIONS_NOT_CORRECT s
        | Some f \<Rightarrow> do {
            let ((written, out), s) = called (HRoutine rtype rid (drop 4 data))
              (f (ctx_view s) (app s) rtype rid (drop 4 data) (tx_buffer_size cfg - 4)) s;
            s \<leftarrow> tx_fill 4 out s;
            if written < 0
            then uds_send_nrc cfg UDS_SID_ROUTINE_CONTROL (nrc_of_int written) s
            else do {
              s \<leftarrow> tx_write 0 (UDS_SID_ROUTINE_CONTROL + UDS_RESPONSE_OFFSET) s;
              s \<leftarrow> tx_write 1 rtype s;
              s \<leftarrow> tx_write 2 d2 s;
              s \<leftarrow> tx_write 3 d3 s;
              uds_send_response cfg (word_of_int written + 4) s } } })"

text \<open>The fixed six bytes with which 0x34 and 0x35 answer.\<close>

definition transfer_response :: "'w config \<Rightarrow> u8 \<Rightarrow> 'w machine \<Rightarrow> (int \<times> 'w machine) option" where
  "transfer_response cfg sid s = do {
     s \<leftarrow> tx_write 0 (sid + UDS_RESPONSE_OFFSET) s;
     s \<leftarrow> tx_write 1 0x20 s;
     s \<leftarrow> tx_write 2 0x00 s;
     s \<leftarrow> tx_write 3 0x00 s;
     s \<leftarrow> tx_write 4 0x04 s;
     s \<leftarrow> tx_write 5 0x00 s;
     uds_send_response cfg 6 s }"

definition uds_internal_handle_request_download :: "'w config \<Rightarrow> 'w handler_fn" where
  "uds_internal_handle_request_download cfg data s =
     (if length data < 4
      then uds_send_nrc cfg UDS_SID_REQUEST_DOWNLOAD UDS_NRC_INCORRECT_LENGTH s
      else do {
        format \<leftarrow> byte_at data 2;
        if alfid_bad format
        then uds_send_nrc cfg UDS_SID_REQUEST_DOWNLOAD UDS_NRC_REQUEST_OUT_OF_RANGE s
        else (case uds_internal_parse_addr_len (drop 3 data) format of
            None \<Rightarrow> uds_send_nrc cfg UDS_SID_REQUEST_DOWNLOAD UDS_NRC_INCORRECT_LENGTH s
          | Some (addr, sz) \<Rightarrow> (case fn_request_download cfg of
                None \<Rightarrow> uds_send_nrc cfg UDS_SID_REQUEST_DOWNLOAD UDS_NRC_CONDITIONS_NOT_CORRECT s
              | Some f \<Rightarrow> do {
                  let (res, s) = called (HDownload addr sz) (f (ctx_view s) (app s) addr sz) s;
                  if res < 0
                  then uds_send_nrc cfg UDS_SID_REQUEST_DOWNLOAD (nrc_of_int res) s
                  else transfer_response cfg UDS_SID_REQUEST_DOWNLOAD
                         (s\<lparr>flash_sequence := 0\<rparr>) })) })"

definition uds_internal_handle_transfer_data :: "'w config \<Rightarrow> 'w handler_fn" where
  "uds_internal_handle_transfer_data cfg data s =
     (if length data < 2
      then uds_send_nrc cfg UDS_SID_TRANSFER_DATA UDS_NRC_INCORRECT_LENGTH s
      else case fn_transfer_data cfg of
        None \<Rightarrow> uds_send_nrc cfg UDS_SID_TRANSFER_DATA UDS_NRC_CONDITIONS_NOT_CORRECT s
      | Some f \<Rightarrow> do {
          sequence \<leftarrow> byte_at data 1;
          let expected = (if flash_sequence s = 0 then 0x01
                          else if flash_sequence s = 0xFF then 0x00 else flash_sequence s + 1);
          if sequence \<noteq> expected then
            (if flash_sequence s \<noteq> 0 \<and> transfer_accept_last_block_replay cfg
                \<and> sequence = flash_sequence s
             then do {
               s \<leftarrow> tx_write 0 (UDS_SID_TRANSFER_DATA + UDS_RESPONSE_OFFSET) s;
               s \<leftarrow> tx_write 1 sequence s;
               uds_send_response cfg 2 s }
             else uds_send_nrc cfg UDS_SID_TRANSFER_DATA UDS_NRC_REQUEST_SEQUENCE_ERROR s)
          else do {
            let (res, s) = called (HTransferData sequence (drop 2 data))
              (f (ctx_view s) (app s) sequence (drop 2 data)) s;
            if res < 0
            then uds_send_nrc cfg UDS_SID_TRANSFER_DATA (nrc_of_int res) s
            else do {
              let s = s\<lparr>flash_sequence := sequence\<rparr>;
              s \<leftarrow> tx_write 0 (UDS_SID_TRANSFER_DATA + UDS_RESPONSE_OFFSET) s;
              s \<leftarrow> tx_write 1 sequence s;
              uds_send_response cfg 2 s } } })"

definition uds_internal_handle_request_transfer_exit :: "'w config \<Rightarrow> 'w handler_fn" where
  "uds_internal_handle_request_transfer_exit cfg data s = (case fn_transfer_exit cfg of
       None \<Rightarrow> uds_send_nrc cfg UDS_SID_TRANSFER_EXIT UDS_NRC_CONDITIONS_NOT_CORRECT s
     | Some f \<Rightarrow> do {
         let (res, s) = called HTransferExit (f (ctx_view s) (app s)) s;
         if res < 0
         then uds_send_nrc cfg UDS_SID_TRANSFER_EXIT (nrc_of_int res) s
         else do {
           s \<leftarrow> tx_write 0 (UDS_SID_TRANSFER_EXIT + UDS_RESPONSE_OFFSET) s;
           uds_send_response cfg 1 s } })"

definition uds_internal_handle_request_upload :: "'w config \<Rightarrow> 'w handler_fn" where
  "uds_internal_handle_request_upload cfg data s =
     (if length data < 4
      then uds_send_nrc cfg UDS_SID_REQUEST_UPLOAD UDS_NRC_INCORRECT_LENGTH s
      else do {
        format \<leftarrow> byte_at data 2;
        case uds_internal_parse_addr_len (drop 3 data) format of
          None \<Rightarrow> uds_send_nrc cfg UDS_SID_REQUEST_UPLOAD UDS_NRC_INCORRECT_LENGTH s
        | Some (addr, sz) \<Rightarrow> (case fn_request_upload cfg of
              None \<Rightarrow> uds_send_nrc cfg UDS_SID_REQUEST_UPLOAD UDS_NRC_CONDITIONS_NOT_CORRECT s
            | Some f \<Rightarrow> do {
                let (res, s) = called (HUpload addr sz) (f (ctx_view s) (app s) addr sz) s;
                if res < 0
                then uds_send_nrc cfg UDS_SID_REQUEST_UPLOAD (nrc_of_int res) s
                else transfer_response cfg UDS_SID_REQUEST_UPLOAD
                       (s\<lparr>flash_sequence := 0\<rparr>) }) })"

section \<open>Contract\<close>

lemma ok_transfer_response:
  assumes a: "compliant cfg" "working cfg s0 s"
  shows "ok (transfer_response cfg sid s) (replied cfg sid s0)"
proof -
  note b = wfm_basic [OF working_wfm [OF a(2)]] compliant_basic [OF a(1)]
  show ?thesis using a b by (auto simp: transfer_response_def vc_simps intro!: vc_intros)
qed

interpretation routine_control: immediate_service cfg UDS_SID_ROUTINE_CONTROL 4 "uds_internal_handle_routine_control cfg"
  for cfg :: "'w config"
proof
  fix s :: "'w machine" and data :: "u8 list"
  assume a: "compliant cfg" "wfm cfg s" "4 \<le> length data"
  note b = wfm_basic [OF a(2)] compliant_basic [OF a(1)]
  { fix f c w l i d
    assume "fn_routine_control cfg = Some f"
    note fit = compliant_fits(4) [OF a(1) this, of c w l i d]
    note fits_room [OF fit] fits_len_pos [OF fit] }
  note fit = this
  show "ok (uds_internal_handle_routine_control cfg data s) (replied cfg UDS_SID_ROUTINE_CONTROL s)"
    using a b fit
    by (auto simp: uds_internal_handle_routine_control_def vc_simps split: option.splits
        intro!: vc_intros)
qed

interpretation request_download: immediate_service cfg UDS_SID_REQUEST_DOWNLOAD 4 "uds_internal_handle_request_download cfg"
  for cfg :: "'w config"
proof
  fix s :: "'w machine" and data :: "u8 list"
  assume a: "compliant cfg" "wfm cfg s" "4 \<le> length data"
  note b = wfm_basic [OF a(2)] compliant_basic [OF a(1)]
  show "ok (uds_internal_handle_request_download cfg data s) (replied cfg UDS_SID_REQUEST_DOWNLOAD s)"
    using a b
    by (auto simp: uds_internal_handle_request_download_def vc_simps split: option.splits
        intro!: vc_intros ok_transfer_response)
qed

interpretation transfer_data: immediate_service cfg UDS_SID_TRANSFER_DATA 2 "uds_internal_handle_transfer_data cfg"
  for cfg :: "'w config"
proof
  fix s :: "'w machine" and data :: "u8 list"
  assume a: "compliant cfg" "wfm cfg s" "2 \<le> length data"
  note b = wfm_basic [OF a(2)] compliant_basic [OF a(1)]
  show "ok (uds_internal_handle_transfer_data cfg data s) (replied cfg UDS_SID_TRANSFER_DATA s)"
    using a b
    by (auto simp: uds_internal_handle_transfer_data_def vc_simps split: option.splits
        intro!: vc_intros)
qed

interpretation request_transfer_exit: immediate_service cfg UDS_SID_TRANSFER_EXIT 1 "uds_internal_handle_request_transfer_exit cfg"
  for cfg :: "'w config"
proof
  fix s :: "'w machine" and data :: "u8 list"
  assume a: "compliant cfg" "wfm cfg s" "1 \<le> length data"
  note b = wfm_basic [OF a(2)] compliant_basic [OF a(1)]
  show "ok (uds_internal_handle_request_transfer_exit cfg data s) (replied cfg UDS_SID_TRANSFER_EXIT s)"
    using a b
    by (auto simp: uds_internal_handle_request_transfer_exit_def vc_simps split: option.splits
        intro!: vc_intros)
qed

interpretation request_upload: immediate_service cfg UDS_SID_REQUEST_UPLOAD 4 "uds_internal_handle_request_upload cfg"
  for cfg :: "'w config"
proof
  fix s :: "'w machine" and data :: "u8 list"
  assume a: "compliant cfg" "wfm cfg s" "4 \<le> length data"
  note b = wfm_basic [OF a(2)] compliant_basic [OF a(1)]
  show "ok (uds_internal_handle_request_upload cfg data s) (replied cfg UDS_SID_REQUEST_UPLOAD s)"
    using a b
    by (auto simp: uds_internal_handle_request_upload_def vc_simps split: option.splits
        intro!: vc_intros ok_transfer_response)
qed

end
