(* ===== verification/Uds_Memory.thy ===== *)
theory Uds_Memory
  imports Uds_Example
begin

text \<open>
  \<open>uds_service_mem.c\<close>: ReadMemoryByAddress (0x23) and WriteMemoryByAddress (0x3D); and
  \<open>uds_service_io.c\<close>: InputOutputControlByIdentifier (0x2F).
\<close>

section \<open>Handlers\<close>

definition uds_internal_handle_read_memory_by_addr :: "'w config \<Rightarrow> 'w handler_fn" where
  "uds_internal_handle_read_memory_by_addr cfg data s =
     (if length data < 3
      then uds_send_nrc cfg UDS_SID_READ_MEM_BY_ADDR UDS_NRC_INCORRECT_LENGTH s
      else do {
        format \<leftarrow> byte_at data 1;
        if alfid_bad format
        then uds_send_nrc cfg UDS_SID_READ_MEM_BY_ADDR UDS_NRC_REQUEST_OUT_OF_RANGE s
        else (case uds_internal_parse_addr_len (drop 2 data) format of
            None \<Rightarrow> uds_send_nrc cfg UDS_SID_READ_MEM_BY_ADDR UDS_NRC_INCORRECT_LENGTH s
          | Some (addr, sz) \<Rightarrow> (case fn_mem_read cfg of
                None \<Rightarrow> uds_send_nrc cfg UDS_SID_READ_MEM_BY_ADDR UDS_NRC_CONDITIONS_NOT_CORRECT s
              | Some f \<Rightarrow>
                  if sz > ucast (tx_buffer_size cfg) - 1
                  then uds_send_nrc cfg UDS_SID_READ_MEM_BY_ADDR UDS_NRC_RESPONSE_TOO_LONG s
                  else do {
                    let ((res, out), s) = called (HMemRead addr sz)
                      (f (ctx_view s) (app s) addr sz) s;
                    s \<leftarrow> tx_fill 1 out s;
                    if res < 0
                    then uds_send_nrc cfg UDS_SID_READ_MEM_BY_ADDR (nrc_of_int res) s
                    else do {
                      s \<leftarrow> tx_write 0 (UDS_SID_READ_MEM_BY_ADDR + UDS_RESPONSE_OFFSET) s;
                      uds_send_response cfg (ucast (sz + 1)) s } })) })"

text \<open>The loop that echoes address and size: \<open>tx_buffer[2 + i] = data[2 + i]\<close>.\<close>

fun echo_bytes :: "u8 list \<Rightarrow> nat list \<Rightarrow> 'w machine \<Rightarrow> 'w machine option" where
  "echo_bytes data [] s = Some s"
| "echo_bytes data (i # is) s = do {
     b \<leftarrow> byte_at data (2 + i);
     s \<leftarrow> tx_write (2 + i) b s;
     echo_bytes data is s }"

text \<open>
  The write callback gets a pointer into the request, here the bytes of the request from
  there on, and the 32-bit size.
\<close>

definition uds_internal_handle_write_memory_by_addr :: "'w config \<Rightarrow> 'w handler_fn" where
  "uds_internal_handle_write_memory_by_addr cfg data s =
     (if length data < 3
      then uds_send_nrc cfg UDS_SID_WRITE_MEM_BY_ADDR UDS_NRC_INCORRECT_LENGTH s
      else do {
        format \<leftarrow> byte_at data 1;
        if alfid_bad format
        then uds_send_nrc cfg UDS_SID_WRITE_MEM_BY_ADDR UDS_NRC_REQUEST_OUT_OF_RANGE s
        else do {
          let echo = alfid_addr_len format + alfid_size_len format;
          let consumed = 2 + echo;
          case uds_internal_parse_addr_len (drop 2 data) format of
            None \<Rightarrow> uds_send_nrc cfg UDS_SID_WRITE_MEM_BY_ADDR UDS_NRC_INCORRECT_LENGTH s
          | Some (addr, sz) \<Rightarrow>
              if (of_nat (length data) :: u16) \<noteq> of_nat consumed + ucast sz
              then uds_send_nrc cfg UDS_SID_WRITE_MEM_BY_ADDR UDS_NRC_INCORRECT_LENGTH s
              else (case fn_mem_write cfg of
                  None \<Rightarrow> uds_send_nrc cfg UDS_SID_WRITE_MEM_BY_ADDR UDS_NRC_CONDITIONS_NOT_CORRECT s
                | Some f \<Rightarrow> do {
                    let (safe, s) = (case fn_is_safe cfg of None \<Rightarrow> (True, s)
                      | Some g \<Rightarrow> called (HSafe UDS_SID_WRITE_MEM_BY_ADDR data)
                          (g (ctx_view s) (app s) UDS_SID_WRITE_MEM_BY_ADDR data) s);
                    if \<not> safe
                    then uds_send_nrc cfg UDS_SID_WRITE_MEM_BY_ADDR UDS_NRC_CONDITIONS_NOT_CORRECT s
                    else do {
                      let (res, s) = called (HMemWrite addr sz (drop consumed data))
                        (f (ctx_view s) (app s) addr sz (drop consumed data)) s;
                      if res < 0
                      then uds_send_nrc cfg UDS_SID_WRITE_MEM_BY_ADDR (nrc_of_int res) s
                      else do {
                        s \<leftarrow> tx_write 0 (UDS_SID_WRITE_MEM_BY_ADDR + UDS_RESPONSE_OFFSET) s;
                        s \<leftarrow> tx_write 1 format s;
                        s \<leftarrow> echo_bytes data [0..<echo] s;
                        uds_send_response cfg (2 + of_nat echo) s } } }) } })"

definition uds_internal_handle_io_control :: "'w config \<Rightarrow> 'w handler_fn" where
  "uds_internal_handle_io_control cfg data s =
     (if length data < 4
      then uds_send_nrc cfg UDS_SID_IO_CONTROL_BY_ID UDS_NRC_INCORRECT_LENGTH s
      else do {
        d1 \<leftarrow> byte_at data 1;
        d2 \<leftarrow> byte_at data 2;
        let did = be16 d1 d2;
        ctrl_type \<leftarrow> byte_at data 3;
        case fn_io_control cfg of
          None \<Rightarrow> uds_send_nrc cfg UDS_SID_IO_CONTROL_BY_ID UDS_NRC_SERVICE_NOT_SUPPORTED s
        | Some f \<Rightarrow> (case uds_internal_find_did cfg did s of
              None \<Rightarrow> uds_send_nrc cfg UDS_SID_IO_CONTROL_BY_ID UDS_NRC_REQUEST_OUT_OF_RANGE s
            | Some entry \<Rightarrow> do {
                sess \<leftarrow> did_session_denied entry s;
                if sess
                then uds_send_nrc cfg UDS_SID_IO_CONTROL_BY_ID UDS_NRC_SERVICE_NOT_SUPP_IN_SESS s
                else do {
                  sec \<leftarrow> did_security_denied entry s;
                  if sec
                  then uds_send_nrc cfg UDS_SID_IO_CONTROL_BY_ID UDS_NRC_SECURITY_ACCESS_DENIED s
                  else do {
                    let ((written, out), s) = called (HIoControl did ctrl_type (drop 4 data))
                      (f (ctx_view s) (app s) did ctrl_type (drop 4 data)
                        (tx_buffer_size cfg - 3)) s;
                    s \<leftarrow> tx_fill 3 out s;
                    if written < 0
                    then uds_send_nrc cfg UDS_SID_IO_CONTROL_BY_ID (nrc_of_int written) s
                    else do {
                      s \<leftarrow> tx_write 0 (UDS_SID_IO_CONTROL_BY_ID + UDS_RESPONSE_OFFSET) s;
                      s \<leftarrow> tx_write 1 d1 s;
                      s \<leftarrow> tx_write 2 d2 s;
                      uds_send_response cfg (word_of_int written + 3) s } } } }) })"

section \<open>Contract\<close>

lemma ok_echo_bytes:
  assumes "2 + n \<le> length data" "2 + n \<le> unat (tx_buffer_size cfg)"
    and P: "\<And>s'. working cfg s0 s' \<Longrightarrow> tx_buf s' ! 0 = h \<Longrightarrow> P s'"
  shows "working cfg s0 s \<Longrightarrow> tx_buf s ! 0 = h \<Longrightarrow> set is \<subseteq> {..<n} \<Longrightarrow> ok (echo_bytes data is s) P"
proof (induction "is" arbitrary: s)
  case Nil then show ?case by (simp add: P)
next
  case (Cons i "is")
  then have "i < n" by simp
  then show ?case using Cons assms(1,2) working_lengths(4) [OF Cons.prems(1)]
    by (simp add: uds_exec tx_write_eq)
qed

lemma parse_addr_len_Some:
  assumes "uds_internal_parse_addr_len data format = Some (addr, sz)"
  shows "alfid_addr_len format \<le> 4" "alfid_size_len format \<le> 4"
    "alfid_addr_len format + alfid_size_len format \<le> length data"
  using assms by (auto simp: uds_internal_parse_addr_len_def Let_def split: if_splits)

lemma ok_echo_response:
  assumes c: "compliant cfg" and n: "2 + n \<le> length data" "n \<le> 8"
    and w: "working cfg s0 s" "tx_buf s ! 0 = sid + UDS_RESPONSE_OFFSET"
  shows "ok (echo_bytes data [0..<n] s)
    (\<lambda>s. ok (uds_send_response cfg (2 + of_nat n) s) (replied cfg sid s0))"
proof -
  have u: "0 < (2 + of_nat n :: u16)"
    using n(2) by (simp add: word_less_nat_alt unat_word_ariths unat_of_nat_u16)
  show ?thesis
  proof (rule ok_echo_bytes [where n = n and cfg = cfg])
    show "2 + n \<le> unat (tx_buffer_size cfg)" using n(2) compliant_basic(2) [OF c] by simp
  qed (use n u w in \<open>auto intro: ok_send_response [OF c]\<close>)
qed

interpretation write_memory_by_addr: immediate_service cfg UDS_SID_WRITE_MEM_BY_ADDR 3 "uds_internal_handle_write_memory_by_addr cfg"
  for cfg :: "'w config"
proof
  fix s :: "'w machine" and data :: "u8 list"
  assume a: "compliant cfg" "wfm cfg s" "3 \<le> length data"
  note b = wfm_basic [OF a(2)] compliant_basic [OF a(1)]
  have p: "alfid_addr_len format + alfid_size_len format \<le> length data - 2 \<and>
      alfid_addr_len format + alfid_size_len format \<le> 8"
    if "uds_internal_parse_addr_len (drop 2 data) format = Some (addr, sz)" for format addr sz
    using parse_addr_len_Some [OF that] by simp
  show "ok (uds_internal_handle_write_memory_by_addr cfg data s) (replied cfg UDS_SID_WRITE_MEM_BY_ADDR s)"
    using a b
    by (auto simp: uds_internal_handle_write_memory_by_addr_def vc_simps simp del: of_nat_add upt_Suc split: option.splits dest!: p
        intro!: ok_if ok_send_nrc ok_echo_response)
qed

interpretation read_memory_by_addr: immediate_service cfg UDS_SID_READ_MEM_BY_ADDR 3 "uds_internal_handle_read_memory_by_addr cfg"
  for cfg :: "'w config"
proof
  fix s :: "'w machine" and data :: "u8 list"
  assume a: "compliant cfg" "wfm cfg s" "3 \<le> length data"
  note b = wfm_basic [OF a(2)] compliant_basic [OF a(1)]
  have room: "unat sz + 1 \<le> unat (tx_buffer_size cfg)" if "\<not> sz > ucast (tx_buffer_size cfg) - 1" for sz :: u32
    using that b by (simp add: word_less_nat_alt unat_minus_le not_less)
  have pos: "0 < (ucast (sz + 1) :: u16)" if "\<not> sz > ucast (tx_buffer_size cfg) - 1" for sz :: u32
    using room [OF that] u16_less [of "tx_buffer_size cfg"]
    by (simp add: word_less_nat_alt unsigned_ucast_eq take_bit_eq_mod unat_word_ariths del: u16_less)
  have fit: "Suc (length (snd (fst (f c w x sz)))) \<le> unat (tx_buffer_size cfg)"
    if "fn_mem_read cfg = Some f" "\<not> sz > ucast (tx_buffer_size cfg) - 1" for f c w x sz
    using compliant_fits(7) [OF a(1) that(1), of c w x sz] room [OF that(2)] by simp
  show "ok (uds_internal_handle_read_memory_by_addr cfg data s) (replied cfg UDS_SID_READ_MEM_BY_ADDR s)"
    using a b room pos fit
    by (auto simp: uds_internal_handle_read_memory_by_addr_def vc_simps split: option.splits
        intro!: ok_if ok_send_nrc ok_send_response ok_tx_fill_le)
qed

interpretation io_control: immediate_service cfg UDS_SID_IO_CONTROL_BY_ID 4 "uds_internal_handle_io_control cfg"
  for cfg :: "'w config"
proof
  fix s :: "'w machine" and data :: "u8 list"
  assume a: "compliant cfg" "wfm cfg s" "4 \<le> length data"
  note b = wfm_basic [OF a(2)] compliant_basic [OF a(1)]
  have w: "working cfg s s" using a(2) by simp
  { fix f c w l i d assume f: "fn_io_control cfg = Some f"
    have "fits (unat (tx_buffer_size cfg - 3)) (fst (f c w l i d (tx_buffer_size cfg - 3)))"
      by (rule compliant_fits(5) [OF a(1) f])
    from fits_room [OF this] fits_len_pos [OF this] b
    have "3 + length (snd (fst (f c w l i d (tx_buffer_size cfg - 3)))) \<le> unat (tx_buffer_size cfg)"
     "\<not> fst (fst (f c w l i d (tx_buffer_size cfg - 3))) < 0 \<Longrightarrow> 0 < word_of_int (fst (fst (f c w l i d (tx_buffer_size cfg - 3)))) + (3 :: u16)"
      by simp_all }
  note fit = this
  show "ok (uds_internal_handle_io_control cfg data s) (replied cfg UDS_SID_IO_CONTROL_BY_ID s)"
    using a b fit
    by (auto simp: uds_internal_handle_io_control_def vc_simps split: option.splits
        intro!: ok_if ok_send_nrc ok_send_response ok_did_session_denied [OF w] ok_did_security_denied [OF w])
qed

end
