(* ===== verification/Uds_Core.thy ===== *)
theory Uds_Core
  imports Uds_Session Uds_Security Uds_Maintenance Uds_Data Uds_Periodic Uds_Flash Uds_Memory
begin

text \<open>
  \<open>uds_core.c\<close>: the service table and its lookup, the validation of a request in the
  order of ISO 14229-1, and the public functions \<open>uds_init\<close>, \<open>uds_input_sdu\<close>,
  \<open>uds_client_request\<close> and \<open>uds_process\<close>.
\<close>

section \<open>Service table\<close>

definition core_service :: "u8 \<Rightarrow> u16 \<Rightarrow> 'w handler_fn \<Rightarrow> u8 list option \<Rightarrow> 'w service_entry" where
  "core_service sid min_len h subs =
     \<lparr>svc_sid = sid, svc_min_len = min_len, svc_session_mask = UDS_SESSION_ALL,
      svc_security_mask = 0, svc_handler = h, svc_sub_mask = subs\<rparr>"

definition core_services :: "'w config \<Rightarrow> 'w service_entry list" where
  "core_services cfg = [
     core_service UDS_SID_SESSION_CONTROL 2 (uds_internal_handle_session_control cfg)
       (Some UDS_MASK_SUB_10),
     core_service UDS_SID_ECU_RESET 2 (uds_internal_handle_ecu_reset cfg) (Some UDS_MASK_SUB_11),
     core_service UDS_SID_CLEAR_DTC 4 (uds_internal_handle_clear_dtc cfg) None,
     core_service UDS_SID_READ_DTC_INFO 2 (uds_internal_handle_read_dtc_info cfg)
       (Some UDS_MASK_SUB_19),
     core_service UDS_SID_READ_DATA_BY_ID 3 (uds_internal_handle_read_data_by_id cfg) None,
     core_service UDS_SID_READ_MEM_BY_ADDR 3 (uds_internal_handle_read_memory_by_addr cfg) None,
     core_service UDS_SID_SECURITY_ACCESS 2 (uds_internal_handle_security_access cfg)
       (Some UDS_MASK_SUB_27),
     core_service UDS_SID_COMM_CONTROL 2 (uds_internal_handle_comm_control cfg)
       (Some UDS_MASK_SUB_28),
     core_service UDS_SID_AUTHENTICATION 2 (uds_internal_handle_authentication cfg) None,
     core_service UDS_SID_WRITE_DATA_BY_ID 3 (uds_internal_handle_write_data_by_id cfg) None,
     core_service UDS_SID_ROUTINE_CONTROL 4 (uds_internal_handle_routine_control cfg)
       (Some UDS_MASK_SUB_31),
     core_service UDS_SID_REQUEST_DOWNLOAD 4 (uds_internal_handle_request_download cfg) None,
     core_service UDS_SID_TRANSFER_DATA 2 (uds_internal_handle_transfer_data cfg) None,
     core_service UDS_SID_TRANSFER_EXIT 1 (uds_internal_handle_request_transfer_exit cfg) None,
     core_service UDS_SID_WRITE_MEM_BY_ADDR 3 (uds_internal_handle_write_memory_by_addr cfg) None,
     core_service UDS_SID_TESTER_PRESENT 2 (uds_internal_handle_tester_present cfg)
       (Some UDS_MASK_SUB_3E),
     core_service UDS_SID_CONTROL_DTC_SETTING 2 (uds_internal_handle_control_dtc_setting cfg)
       (Some UDS_MASK_SUB_85),
     core_service UDS_SID_READ_BY_PER_ID 2 (uds_internal_handle_periodic_read cfg)
       (Some UDS_MASK_SUB_2A),
     core_service UDS_SID_IO_CONTROL_BY_ID 4 (uds_internal_handle_io_control cfg) None,
     core_service UDS_SID_REQUEST_UPLOAD 4 (uds_internal_handle_request_upload cfg) None]"

definition find_service :: "'w config \<Rightarrow> u8 \<Rightarrow> 'w service_entry option" where
  "find_service cfg sid =
     (case List.find (\<lambda>e. svc_sid e = sid) (user_services cfg) of
        Some e \<Rightarrow> Some e
      | None \<Rightarrow> List.find (\<lambda>e. svc_sid e = sid) (core_services cfg))"

section \<open>Validation and dispatch\<close>

definition get_session_bit :: "u8 \<Rightarrow> u8" where
  "get_session_bit session =
     (if session = UDS_SESSION_ID_DEFAULT then UDS_SESSION_DEFAULT
      else if session = UDS_SESSION_ID_PROGRAMMING then UDS_SESSION_PROGRAMMING
      else if session = UDS_SESSION_ID_EXTENDED then UDS_SESSION_EXTENDED
      else 0)"

definition is_session_supported :: "'w machine \<Rightarrow> 'w service_entry \<Rightarrow> bool" where
  "is_session_supported s e \<longleftrightarrow> svc_session_mask e AND get_session_bit (active_session s) \<noteq> 0"

definition is_subfunction_supported :: "'w service_entry \<Rightarrow> u8 \<Rightarrow> bool option" where
  "is_subfunction_supported e sub = (case svc_sub_mask e of
       None \<Rightarrow> Some True
     | Some subs \<Rightarrow> do {
         m \<leftarrow> byte_at subs (unat (drop_bit 3 sub));
         Some (m AND push_bit (unat (sub AND 7)) 1 \<noteq> 0) })"

definition execute_handler :: "'w config \<Rightarrow> 'w service_entry \<Rightarrow> 'w handler_fn" where
  "execute_handler cfg e data s = do {
     (res, s) \<leftarrow> svc_handler e data s;
     if res = UDS_PENDING then do {
       d0 \<leftarrow> byte_at data 0;
       (_, s) \<leftarrow> uds_send_nrc cfg d0 UDS_NRC_RESPONSE_PENDING s;
       let s = s\<lparr>p2_msg_pending := True, p2_star_active := True\<rparr>;
       (now, s) \<leftarrow> time_now cfg s;
       Some (res, s\<lparr>p2_timer_start := now, pending_sid := d0\<rparr>) }
     else Some (res, s) }"

definition nrc_and_return :: "'w config \<Rightarrow> u8 \<Rightarrow> u8 \<Rightarrow> 'w machine \<Rightarrow> 'w machine option" where
  "nrc_and_return cfg sid nrc s = do { (_, s) \<leftarrow> uds_send_nrc cfg sid nrc s; Some s }"

text \<open>The checks that follow the subfunction check: length, security, safety gate.\<close>

definition check_and_execute :: "'w config \<Rightarrow> 'w service_entry \<Rightarrow> u8 \<Rightarrow> u8 list \<Rightarrow> 'w machine
    \<Rightarrow> 'w machine option" where
  "check_and_execute cfg e sid data s =
     (if length data < unat (svc_min_len e)
      then nrc_and_return cfg sid UDS_NRC_INCORRECT_LENGTH s
      else if unat (svc_security_mask e) > unat (security_level s)
      then nrc_and_return cfg sid UDS_NRC_SECURITY_ACCESS_DENIED s
      else do {
        let (safe, s) = (case fn_is_safe cfg of None \<Rightarrow> (True, s)
          | Some g \<Rightarrow> called (HSafe sid data) (g (ctx_view s) (app s) sid data) s);
        if \<not> safe then nrc_and_return cfg sid UDS_NRC_CONDITIONS_NOT_CORRECT s
        else do { (_, s) \<leftarrow> execute_handler cfg e data s; Some s } })"

definition handle_request :: "'w config \<Rightarrow> u8 list \<Rightarrow> 'w machine \<Rightarrow> 'w machine option" where
  "handle_request cfg data s = do {
     sid \<leftarrow> byte_at data 0;
     case find_service cfg sid of
       None \<Rightarrow> nrc_and_return cfg sid UDS_NRC_SERVICE_NOT_SUPPORTED s
     | Some e \<Rightarrow>
         if \<not> is_session_supported s e
         then nrc_and_return cfg sid UDS_NRC_SERVICE_NOT_SUPP_IN_SESS s
         else if svc_sub_mask e \<noteq> None then
           (if length data < 2 then nrc_and_return cfg sid UDS_NRC_INCORRECT_LENGTH s
            else do {
              d1 \<leftarrow> byte_at data 1;
              supported \<leftarrow> is_subfunction_supported e (d1 AND UDS_MASK_SUBFUNCTION);
              if \<not> supported
              then nrc_and_return cfg sid UDS_NRC_SUBFUNCTION_NOT_SUPPORTED s
              else check_and_execute cfg e sid data
                     (s\<lparr>suppress_pos_resp := (d1 AND UDS_MASK_SUPPRESS_POS_RESP \<noteq> 0)\<rparr>) })
         else check_and_execute cfg e sid data s }"

section \<open>Public functions\<close>

text \<open>The assignments of \<open>uds_init\<close> up to the load of the saved state.\<close>

definition reset_ctx :: "'w config \<Rightarrow> 'w machine \<Rightarrow> 'w machine" where
  "reset_ctx cfg s =
     (let p2 = (if cfg_p2_ms cfg > 0 then cfg_p2_ms cfg else 50);
          p2_star = (if cfg_p2_star_ms cfg > 0 then cfg_p2_star_ms cfg else 5000);
          strict = strict_compliance cfg
      in s\<lparr>config_set := True, state_byte := 0, active_session := UDS_SESSION_ID_DEFAULT,
           security_level := 0, last_msg_time := 0, p2_timer_start := 0,
           p2_msg_pending := False, p2_star_active := False, response_pending := False,
           client_cb := None, pending_sid := 0, comm_state := 0, suppress_pos_resp := False,
           p2_ms := (if strict \<and> p2 < UDS_P2_MIN_SAFE_MS then UDS_P2_MIN_SAFE_MS else p2),
           p2_star_ms := (if strict \<and> p2_star < UDS_P2_STAR_MIN_SAFE_MS
                          then UDS_P2_STAR_MIN_SAFE_MS else p2_star),
           flash_sequence := 0, security_delay_end := 0, security_attempts := 0,
           rcrrp_count := 0, periodic_ids := replicate 8 0, periodic_rates := replicate 8 0,
           periodic_timers := replicate 8 0, periodic_count := 0\<rparr>)"

definition load_state :: "'w config \<Rightarrow> 'w machine \<Rightarrow> 'w machine option" where
  "load_state cfg s = (case fn_nvm_load cfg of None \<Rightarrow> Some s
     | Some f \<Rightarrow> do {
         let ((res, out), s) = called HNvmLoad (f (ctx_view s) (app s) 2) s;
         st \<leftarrow> blit 0 out [0, 0];
         Some (if res = 2
           then uds_internal_log cfg UDS_LOG_INFO ''NVM State Loaded''
                  (s\<lparr>active_session := st ! 0, security_level := st ! 1\<rparr>)
           else s) })"

definition uds_init :: "'w config option \<Rightarrow> 'w machine \<Rightarrow> (int \<times> 'w machine) option" where
  "uds_init config s =
     (if ctx_null s then Some (UDS_ERR_INVALID_ARG, s)
      else case config of
        None \<Rightarrow> Some (UDS_ERR_INVALID_ARG, s)
      | Some cfg \<Rightarrow>
          if get_time_ms cfg = None \<or> fn_tp_send cfg = None \<or> \<not> rx_buffer cfg \<or> \<not> tx_buffer cfg
          then Some (UDS_ERR_INVALID_ARG, s)
          else do {
            let s = reset_ctx cfg s;
            let s = (if strict_compliance cfg
              then uds_internal_log cfg UDS_LOG_INFO
                ''Strict Compliance: Enforcing minimum P2/P2* durations'' s else s);
            let s = uds_internal_log cfg UDS_LOG_INFO ''UDS Stack Initialized'' s;
            s \<leftarrow> load_state cfg s;
            Some (UDS_OK, s) })"

text \<open>The S3 timer and the P2 deadlines of \<open>uds_process\<close>; the boolean is its \<open>return\<close>.\<close>

definition s3_tick :: "'w config \<Rightarrow> u32 \<Rightarrow> 'w machine \<Rightarrow> 'w machine" where
  "s3_tick cfg now s =
     (if active_session s \<noteq> UDS_SESSION_ID_DEFAULT \<and> now - last_msg_time s > UDS_S3_TIMEOUT_MS
      then uds_internal_log cfg UDS_LOG_INFO ''S3 Timeout: Reverted to Default Session''
             (s\<lparr>active_session := UDS_SESSION_ID_DEFAULT, security_level := 0\<rparr>)
      else s)"

definition p2_tick :: "'w config \<Rightarrow> u32 \<Rightarrow> 'w machine \<Rightarrow> (bool \<times> 'w machine) option" where
  "p2_tick cfg now s =
     (if \<not> p2_msg_pending s then Some (False, s)
      else let elapsed = now - p2_timer_start s;
               limit = (if p2_star_active s then p2_star_ms s else ucast (p2_ms s))
        in if \<not> elapsed \<ge> limit then Some (False, s)
           else if rcrrp_limit cfg > 0 \<and> rcrrp_count s \<ge> rcrrp_limit cfg then do {
             (_, s) \<leftarrow> uds_send_nrc cfg (pending_sid s) UDS_NRC_CONDITIONS_NOT_CORRECT s;
             Some (True, s\<lparr>rcrrp_count := 0\<rparr>) }
           else do {
             (_, s) \<leftarrow> uds_send_nrc cfg (pending_sid s) UDS_NRC_RESPONSE_PENDING s;
             Some (False, s\<lparr>rcrrp_count := rcrrp_count s + 1, p2_star_active := True,
                            p2_timer_start := now\<rparr>) })"

definition uds_process :: "'w config \<Rightarrow> 'w machine \<Rightarrow> 'w machine option" where
  "uds_process cfg s =
     (if ctx_null s \<or> \<not> config_set s then Some s
      else do {
        let s = mutex_lock cfg s;
        (now, s) \<leftarrow> time_now cfg s;
        let s = s3_tick cfg now s;
        (returned, s) \<leftarrow> p2_tick cfg now s;
        if returned then Some s
        else do {
          s \<leftarrow> periodic_scheduler cfg now s;
          Some (mutex_unlock cfg s) } })"

definition uds_client_request :: "'w config \<Rightarrow> u8 \<Rightarrow> u8 list option \<Rightarrow> u16 \<Rightarrow> nat option
    \<Rightarrow> 'w machine \<Rightarrow> (int \<times> 'w machine) option" where
  "uds_client_request cfg sid data len callback s =
     (if ctx_null s \<or> \<not> config_set s \<or> \<not> tx_buffer cfg then Some (UDS_ERR_NOT_INIT, s)
      else if len > 0 \<and> data = None then Some (UDS_ERR_INVALID_ARG, s)
      else if unat len + 1 > unat (tx_buffer_size cfg) then Some (UDS_ERR_BUFFER_TOO_SMALL, s)
      else do {
        let s = mutex_lock cfg s;
        let s = s\<lparr>pending_sid := sid, client_cb := callback\<rparr>;
        s \<leftarrow> tx_write 0 sid s;
        s \<leftarrow> (case data of
               None \<Rightarrow> Some s
             | Some d \<Rightarrow> if len > 0
                 then do { bs \<leftarrow> bytes_at d 0 (unat len); tx_fill 1 bs s } else Some s);
        (r, s) \<leftarrow> tp_send cfg (unat len + 1) s;
        Some (r, mutex_unlock cfg s) })"

text \<open>
  The code behind the client callbacks: it gets the context, so it may change the machine.
\<close>

type_synonym 'w callbacks = "nat \<Rightarrow> u8 \<Rightarrow> u8 list \<Rightarrow> 'w machine \<Rightarrow> 'w machine option"

definition is_response_for :: "u8 \<Rightarrow> u8 list \<Rightarrow> bool option" where
  "is_response_for pending data = do {
     sid \<leftarrow> byte_at data 0;
     is_neg \<leftarrow> (if sid = UDS_NRC_SERVICE_NOT_SUPP_IN_SESS \<and> length data \<ge> 2
               then do { d1 \<leftarrow> byte_at data 1; Some (d1 = pending) } else Some False);
     Some (sid = pending OR UDS_RESPONSE_OFFSET \<or> is_neg) }"

definition client_response :: "'w callbacks \<Rightarrow> u8 list \<Rightarrow> 'w machine \<Rightarrow> 'w machine option" where
  "client_response cbs data s = do {
     s \<leftarrow> (case client_cb s of None \<Rightarrow> Some s
       | Some cb \<Rightarrow> do {
           sid \<leftarrow> byte_at data 0;
           s \<leftarrow> cbs cb sid (drop 1 data) s;
           Some (s\<lparr>client_cb := None\<rparr>) });
     Some (s\<lparr>pending_sid := 0\<rparr>) }"

definition busy_response :: "'w config \<Rightarrow> u8 list \<Rightarrow> 'w machine \<Rightarrow> 'w machine option" where
  "busy_response cfg data s = do {
     sid \<leftarrow> byte_at data 0;
     quiet \<leftarrow> (if sid = UDS_SID_TESTER_PRESENT \<and> length data \<ge> 2
              then do { d1 \<leftarrow> byte_at data 1; Some (d1 AND 0x80 \<noteq> 0) } else Some False);
     if quiet then Some s
     else nrc_and_return cfg sid UDS_NRC_BUSY_REPEAT_REQUEST s }"

definition dispatch :: "'w config \<Rightarrow> u8 list \<Rightarrow> 'w machine \<Rightarrow> 'w machine option" where
  "dispatch cfg data s = do {
     (now, s) \<leftarrow> time_now cfg s;
     handle_request cfg data
       (s\<lparr>p2_timer_start := now, p2_msg_pending := False, p2_star_active := False,
          rcrrp_count := 0\<rparr>) }"

definition route :: "'w config \<Rightarrow> 'w callbacks \<Rightarrow> u8 list \<Rightarrow> 'w machine \<Rightarrow> 'w machine option" where
  "route cfg cbs data s =
     (if p2_msg_pending s then busy_response cfg data s
      else do {
        resp \<leftarrow> (if pending_sid s \<noteq> 0 then is_response_for (pending_sid s) data else Some False);
        if resp then client_response cbs data s else dispatch cfg data s })"

definition uds_input_sdu :: "'w config \<Rightarrow> 'w callbacks \<Rightarrow> u8 list option \<Rightarrow> 'w machine
    \<Rightarrow> 'w machine option" where
  "uds_input_sdu cfg cbs sdu s =
     (if ctx_null s \<or> \<not> config_set s then Some s
      else do {
        let s = mutex_lock cfg s;
        case sdu of
          None \<Rightarrow> Some (mutex_unlock cfg s)
        | Some data \<Rightarrow>
            if data = [] then Some (mutex_unlock cfg s)
            else do {
              (now, s) \<leftarrow> time_now cfg s;
              s \<leftarrow> route cfg cbs data (s\<lparr>last_msg_time := now\<rparr>);
              Some (mutex_unlock cfg s) } })"

section \<open>The services keep the contract\<close>

definition served :: "'w config \<Rightarrow> 'w service_entry \<Rightarrow> bool" where
  "served cfg e \<longleftrightarrow> uds_service cfg (svc_sid e) (unat (svc_min_len e)) (svc_handler e)
     \<and> (\<forall>subs. svc_sub_mask e = Some subs \<longrightarrow> length subs = 16)"

lemmas core_contracts =
  session_control.uds_service_axioms tester_present.uds_service_axioms
  security_access.uds_service_axioms authentication.uds_service_axioms
  ecu_reset.uds_service_axioms comm_control.uds_service_axioms clear_dtc.uds_service_axioms
  read_dtc_info.uds_service_axioms control_dtc_setting.uds_service_axioms
  read_data_by_id.uds_service_axioms write_data_by_id.uds_service_axioms
  periodic_read.uds_service_axioms routine_control.uds_service_axioms
  request_download.uds_service_axioms transfer_data.uds_service_axioms
  request_transfer_exit.uds_service_axioms request_upload.uds_service_axioms
  read_memory_by_addr.uds_service_axioms write_memory_by_addr.uds_service_axioms
  io_control.uds_service_axioms

lemma core_served: "e \<in> set (core_services cfg) \<Longrightarrow> served cfg e"
  by (auto simp: core_services_def core_service_def served_def core_contracts
      UDS_MASK_SUB_10_def UDS_MASK_SUB_11_def UDS_MASK_SUB_19_def UDS_MASK_SUB_27_def
      UDS_MASK_SUB_28_def UDS_MASK_SUB_31_def UDS_MASK_SUB_3E_def UDS_MASK_SUB_85_def
      UDS_MASK_SUB_2A_def mask16_def simp del: One_nat_def)

text \<open>
  The whole application: compliant callbacks, and user services that are served.
\<close>

definition app_ok :: "'w config \<Rightarrow> bool" where
  "app_ok cfg \<longleftrightarrow> compliant cfg \<and> (\<forall>e \<in> set (user_services cfg). served cfg e)"

lemma find_service_sid: "find_service cfg sid = Some e \<Longrightarrow> svc_sid e = sid"
  by (auto simp: find_service_def find_Some_iff split: option.splits)

lemma find_service_served: "app_ok cfg \<Longrightarrow> find_service cfg sid = Some e \<Longrightarrow> served cfg e"
  by (auto simp: find_service_def find_Some_iff app_ok_def core_served nth_mem split: option.splits)

text \<open>
  A state some answered request left behind, the result aside.
\<close>

definition finished :: "'w config \<Rightarrow> u8 \<Rightarrow> 'w machine \<Rightarrow> 'w machine \<Rightarrow> bool" where
  "finished cfg sid s0 s \<longleftrightarrow> wfm cfg s \<and>
     (\<exists>evs. tr s = tr s0 @ evs \<and> lock_ops evs = [] \<and> keyed s0 evs s
        \<and> (sent evs = [] \<or> (\<exists>bs. sent evs = [bs] \<and> is_answer sid bs)))"

lemma answered_finished: "answered cfg sid s0 (r, s) \<Longrightarrow> finished cfg sid s0 s"
  by (auto simp: answered_def finished_def)

lemma replied_finished: "replied cfg sid s0 (r, s) \<Longrightarrow> finished cfg sid s0 s"
  by (rule answered_finished [OF replied_answered])

lemma finished_frame [simp]:
  "finished cfg sid s0 (s\<lparr>app := w\<rparr>) = finished cfg sid s0 s"
  "finished cfg sid s0 (s\<lparr>last_msg_time := t\<rparr>) = finished cfg sid s0 s"
  "finished cfg sid s0 (s\<lparr>p2_timer_start := t\<rparr>) = finished cfg sid s0 s"
  "finished cfg sid s0 (s\<lparr>p2_msg_pending := b\<rparr>) = finished cfg sid s0 s"
  "finished cfg sid s0 (s\<lparr>p2_star_active := b\<rparr>) = finished cfg sid s0 s"
  "finished cfg sid s0 (s\<lparr>pending_sid := i\<rparr>) = finished cfg sid s0 s"
  "finished cfg sid s0 (s\<lparr>rcrrp_count := n\<rparr>) = finished cfg sid s0 s"
  by (simp_all add: finished_def keyed_def)

lemma ok_nrc_and_return:
  "compliant cfg \<Longrightarrow> working cfg s0 s \<Longrightarrow> ok (nrc_and_return cfg sid nrc s) (finished cfg sid s0)"
  by (auto simp: nrc_and_return_def intro!: ok_mono [OF ok_send_nrc] intro: replied_finished)

lemma working_trans: "working cfg s0 s \<Longrightarrow> working cfg s t \<Longrightarrow> working cfg s0 t"
  by (fastforce simp: working_def intro: keyed_trans)

lemma ok_time_frame:
  assumes "compliant cfg" "\<And>t w. P (t, s\<lparr>app := w\<rparr>)"
  shows "ok (time_now cfg s) P"
  using assms by (auto simp: compliant_def time_now_def)

text \<open>
  The client side of the contract: \<open>execute_handler\<close> adds the response pending of a handler
  that asked for time, and the request still gets at most one answer.
\<close>

context uds_service
begin

lemma execute_finished:
  assumes "compliant cfg" "working cfg s0 s" "min_len \<le> length data" "length data < 65536"
    "data \<noteq> []" "data ! 0 = sid" "svc_handler e = handler"
  shows "ok (execute_handler cfg e data s) (\<lambda>r. finished cfg sid s0 (snd r))"
proof -
  have 1: "ok (handler data s) (answered cfg sid s)"
    using assms by (intro serves working_wfm [of cfg s0])
  { fix res t assume t: "answered cfg sid s (res, t)"
    have "finished cfg sid s0 t" using t assms(2)
      by (fastforce simp: answered_def finished_def working_def intro: keyed_trans)
    moreover have "working cfg s0 t" if "res = 1"
      using t assms(2) that by (fastforce simp: answered_def working_def intro: keyed_trans)
    ultimately have "ok (if res = UDS_PENDING then do {
         d0 \<leftarrow> byte_at data 0;
         (_, s) \<leftarrow> uds_send_nrc cfg d0 UDS_NRC_RESPONSE_PENDING t;
         let s = s\<lparr>p2_msg_pending := True, p2_star_active := True\<rparr>;
         (now, s) \<leftarrow> time_now cfg s;
         Some (res, s\<lparr>p2_timer_start := now, pending_sid := d0\<rparr>) }
       else Some (res, t)) (\<lambda>r. finished cfg sid s0 (snd r))"
      using assms
      by (auto simp: uds_exec Let_def intro!: ok_mono [OF ok_send_nrc] ok_time_frame)
        (frule replied_finished, simp) }
  with 1 show ?thesis
    by (auto simp: execute_handler_def assms(7) intro!: ok_mono [OF 1])
qed

end

lemma is_subfunction_supported_ok:
  assumes "served cfg e"
  shows "\<exists>b. is_subfunction_supported e (x AND UDS_MASK_SUBFUNCTION) = Some b"
proof -
  have "drop_bit 3 (x AND 0x7F) = drop_bit 3 x AND (drop_bit 3 0x7F :: u8)" by (rule drop_bit_and)
  moreover have "(drop_bit 3 0x7F :: u8) = 0xF" by simp
  moreover have "drop_bit 3 x AND 0xF \<le> (0xF :: u8)" by (rule word_and_le1)
  ultimately have "unat (drop_bit 3 (x AND 0x7F)) \<le> 15" by (simp add: word_le_nat_alt)
  with assms show ?thesis
    by (auto simp: is_subfunction_supported_def served_def byte_at_def split: option.splits)
qed

lemma ok_check_and_execute:
  assumes "app_ok cfg" "working cfg s0 s" "length data < 65536" "data \<noteq> []"
    "find_service cfg sid = Some e" "data ! 0 = sid"
  shows "ok (check_and_execute cfg e sid data s) (finished cfg sid s0)"
proof -
  have c: "compliant cfg" using assms(1) by (simp add: app_ok_def)
  have e: "svc_sid e = sid" using assms(5) by (rule find_service_sid)
  have u: "uds_service cfg sid (unat (svc_min_len e)) (svc_handler e)"
    using find_service_served [OF assms(1,5)] e by (simp add: served_def)
  show ?thesis using assms c
    by (auto simp: check_and_execute_def Let_def case_prod_beta split: option.splits
        intro!: ok_if ok_nrc_and_return ok_mono [OF uds_service.execute_finished [OF u]])
qed

lemma ok_handle_request:
  assumes "app_ok cfg" "working cfg s0 s" "length data < 65536" "data \<noteq> []"
  shows "ok (handle_request cfg data s) (finished cfg (data ! 0) s0)"
proof -
  have c: "compliant cfg" using assms(1) by (simp add: app_ok_def)
  have sub: "ok (is_subfunction_supported e (x AND UDS_MASK_SUBFUNCTION)) P"
    if "find_service cfg (data ! 0) = Some e" "\<And>b. P b" for e x P
    using is_subfunction_supported_ok [OF find_service_served [OF assms(1) that(1)], of x] that(2)
    by auto
  show ?thesis using assms c
    by (auto simp: handle_request_def uds_exec split: option.splits
        intro!: ok_if ok_nrc_and_return ok_check_and_execute sub)
qed

text \<open>The lock operations around one public call.\<close>

definition locks :: "'w config \<Rightarrow> event list" where
  "locks cfg = (if fn_mutex_lock cfg = None then [] else [ELock])"

definition unlocks :: "'w config \<Rightarrow> event list" where
  "unlocks cfg = (if fn_mutex_unlock cfg = None then [] else [EUnlock])"

lemma tr_mutex_lock: "tr (mutex_lock cfg s) = tr s @ locks cfg"
  by (simp add: mutex_lock_def locks_def emit_def split: option.splits)

lemma tr_mutex_unlock: "tr (mutex_unlock cfg s) = tr s @ unlocks cfg"
  by (simp add: mutex_unlock_def unlocks_def emit_def split: option.splits)

lemma lock_ops_locks [simp]: "lock_ops (locks cfg) = locks cfg" "sent (locks cfg) = []"
  by (simp_all add: locks_def)

lemma lock_ops_unlocks [simp]: "lock_ops (unlocks cfg) = unlocks cfg" "sent (unlocks cfg) = []"
  by (simp_all add: unlocks_def)

lemma wfm_mutex [simp]:
  "wfm cfg (mutex_lock cfg s) = wfm cfg s" "wfm cfg (mutex_unlock cfg s) = wfm cfg s"
  by (simp_all add: mutex_lock_def mutex_unlock_def split: option.splits)

text \<open>
  A client callback that consumes the response: it has no undefined behaviour, and neither
  sends nor locks.
\<close>

definition cbs_ok :: "'w config \<Rightarrow> 'w callbacks \<Rightarrow> bool" where
  "cbs_ok cfg cbs \<longleftrightarrow> (\<forall>i sid d s. wfm cfg s \<longrightarrow> ok (cbs i sid d s) (working cfg s))"

lemma ok_client_response:
  assumes "cbs_ok cfg cbs" "wfm cfg s" "data \<noteq> []"
  shows "ok (client_response cbs data s) (finished cfg sid s)"
proof -
  have "ok (cbs i x d s) (working cfg s)" for i x d
    using assms(1,2) by (simp add: cbs_ok_def)
  then have "ok (cbs i x d s) (\<lambda>t. finished cfg sid s (t\<lparr>client_cb := None, pending_sid := 0\<rparr>))" for i x d
    by (rule ok_mono) (auto simp: finished_def working_def keyed_def)
  then show ?thesis using assms(2,3)
    by (auto simp: client_response_def uds_exec finished_def keyed_def split: option.splits)
qed

lemma ok_busy_response:
  assumes "app_ok cfg" "wfm cfg s" "data \<noteq> []"
  shows "ok (busy_response cfg data s) (finished cfg (data ! 0) s)"
  using assms
  by (auto simp: busy_response_def uds_exec app_ok_def intro!: ok_if ok_nrc_and_return)
     (simp add: finished_def keyed_def)+

lemma ok_dispatch:
  assumes "app_ok cfg" "wfm cfg s" "length data < 65536" "data \<noteq> []"
  shows "ok (dispatch cfg data s) (finished cfg (data ! 0) s)"
  using assms unfolding dispatch_def ok_bind
  by (intro ok_time_frame) (auto simp: app_ok_def intro!: ok_handle_request simp: working_def keyed_def)

lemma is_response_for_ok: "data \<noteq> [] \<Longrightarrow> \<exists>b. is_response_for p data = Some b"
  by (auto simp: is_response_for_def uds_exec)

text \<open>A call that locks, answers at most once, and unlocks.\<close>

definition served_once :: "'w config \<Rightarrow> u8 \<Rightarrow> 'w machine \<Rightarrow> 'w machine \<Rightarrow> bool" where
  "served_once cfg sid s0 s \<longleftrightarrow> wfm cfg s \<and>
     (\<exists>evs. tr s = tr s0 @ evs \<and> lock_ops evs = locks cfg @ unlocks cfg \<and> keyed s0 evs s
        \<and> (sent evs = [] \<or> (\<exists>bs. sent evs = [bs] \<and> is_answer sid bs)))"

lemma finished_served_once:
  "finished cfg sid (mutex_lock cfg s0) s \<Longrightarrow> served_once cfg sid s0 (mutex_unlock cfg s)"
  by (auto simp: finished_def served_once_def tr_mutex_lock tr_mutex_unlock keyed_def)

lemma finished_app:
  "finished cfg sid (s0\<lparr>app := w\<rparr>) s = finished cfg sid s0 s"
  "finished cfg sid (s0\<lparr>last_msg_time := t\<rparr>) s = finished cfg sid s0 s"
  by (simp_all add: finished_def keyed_def)

lemma ok_route:
  assumes "app_ok cfg" "cbs_ok cfg cbs" "wfm cfg s" "length data < 65536" "data \<noteq> []"
  shows "ok (route cfg cbs data s) (finished cfg (data ! 0) s)"
  using assms is_response_for_ok [of data "pending_sid s"]
  by (auto simp: route_def intro!: ok_busy_response ok_client_response ok_dispatch)

lemma ok_input_sdu:
  assumes a: "app_ok cfg" "cbs_ok cfg cbs" "wfm cfg s" "length data < 65536" "data \<noteq> []"
  shows "ok (uds_input_sdu cfg cbs (Some data) s) (served_once cfg (data ! 0) s)"
proof -
  let ?s = "mutex_lock cfg s"
  have c: "compliant cfg" using a(1) by (simp add: app_ok_def)
  have 1: "ok (route cfg cbs data (?s\<lparr>app := w, last_msg_time := t\<rparr>))
      (\<lambda>x. served_once cfg (data ! 0) s (mutex_unlock cfg x))" for t w
    by (rule ok_mono [OF ok_route [OF a(1,2) _ a(4,5)]])
       (use a(3) in \<open>auto simp: finished_app intro: finished_served_once\<close>)
  show ?thesis using a(5) wfm_basic [OF a(3)]
    by (auto simp: uds_input_sdu_def case_prod_beta Let_def intro!: ok_time_frame [OF c] 1)
qed

text \<open>A step that keeps the machine and the locks, and may send.\<close>

definition kept :: "'w config \<Rightarrow> 'w machine \<Rightarrow> 'w machine \<Rightarrow> bool" where
  "kept cfg s0 s \<longleftrightarrow> wfm cfg s \<and> (\<exists>evs. tr s = tr s0 @ evs \<and> lock_ops evs = [] \<and> keyed s0 evs s)"

lemma working_kept: "working cfg s0 s \<Longrightarrow> kept cfg s0 s"
  by (auto simp: working_def kept_def)

lemma replied_kept: "replied cfg sid s0 r \<Longrightarrow> kept cfg s0 (snd r)"
  by (auto simp: replied_def answered_def kept_def)

lemma kept_trans: "kept cfg s0 s \<Longrightarrow> kept cfg s t \<Longrightarrow> kept cfg s0 t"
  by (fastforce simp: kept_def intro: keyed_trans)

lemma kept_refl: "kept cfg s s = wfm cfg s"
  by (simp add: kept_def keyed_def)

lemma kept_frame [simp]:
  "kept cfg s0 (s\<lparr>app := w\<rparr>) = kept cfg s0 s"
  "kept cfg s0 (s\<lparr>p2_timer_start := t\<rparr>) = kept cfg s0 s"
  "kept cfg s0 (s\<lparr>p2_star_active := b\<rparr>) = kept cfg s0 s"
  "kept cfg s0 (s\<lparr>rcrrp_count := n\<rparr>) = kept cfg s0 s"
  "length xs = length (tx_buf s) \<Longrightarrow> kept cfg s0 s \<Longrightarrow> kept cfg s0 (s\<lparr>tx_buf := xs\<rparr>)"
  "length ts = 8 \<Longrightarrow> kept cfg s0 s \<Longrightarrow> kept cfg s0 (s\<lparr>periodic_timers := ts\<rparr>)"
  "kept cfg s0 s \<Longrightarrow> kept cfg s0 (snd (called h rw s))"
  by (auto simp: kept_def wfm_def called_def emit_def keyed_def)

lemma ok_tp_send_kept:
  assumes "compliant cfg" "kept cfg s0 s" "n \<le> length (tx_buf s)"
  shows "ok (tp_send cfg n s) (\<lambda>r. kept cfg s0 (snd r))"
  using assms compliant_basic(5) [OF assms(1)]
  by (auto simp: tp_send_def Let_def kept_def emit_def keyed_def)

text \<open>
  The contract of the periodic read callback, which \<open>uds_process\<close> calls without a null
  test: it is set, and reports no more bytes than it wrote and no more than its limit.
\<close>

definition periodic_ok :: "'w config \<Rightarrow> bool" where
  "periodic_ok cfg \<longleftrightarrow> (\<exists>f. fn_periodic_read cfg = Some f \<and>
     (\<forall>c w i. length (snd (fst (f c w i UDS_MAX_PERIODIC_MSG_LEN))) \<le> 8
        \<and> nat (fst (fst (f c w i UDS_MAX_PERIODIC_MSG_LEN))) \<le> length (snd (fst (f c w i UDS_MAX_PERIODIC_MSG_LEN)))))"

lemma ok_periodic_slot:
  assumes "compliant cfg" "periodic_ok cfg" "kept cfg s0 s"
  shows "ok (periodic_slot cfg now i s) (kept cfg s0)"
proof -
  have w: "wfm cfg s" using assms(3) by (simp add: kept_def)
  note b = wfm_basic [OF w] compliant_basic [OF assms(1)]
  obtain f where f: "fn_periodic_read cfg = Some f"
    and le: "\<And>c w i. length (snd (fst (f c w i 8))) \<le> 8"
    and nle: "\<And>c w i. nat (fst (fst (f c w i 8))) \<le> length (snd (fst (f c w i 8)))"
    using assms(2) unfolding periodic_ok_def by blast
  obtain written out w where r: "f (ctx_view s) (app s) (periodic_ids s ! i) 8 = ((written, out), w)"
    by (metis surj_pair)
  have l: "length out \<le> 8" "nat written \<le> length out" "nat written \<le> 8"
    using le [of "ctx_view s" "app s" "periodic_ids s ! i"]
      nle [of "ctx_view s" "app s" "periodic_ids s ! i"] by (auto simp: r)
  have "length (periodic_timers (snd r)) = 8" if "kept cfg s0 (snd r)" for r :: "int \<times> 'a machine"
    using that by (simp add: kept_def wfm_def)
  moreover have "length (periodic_timers (snd (called h r s))) = 8" for h r
    using b by (simp add: called_def emit_def)
  ultimately show ?thesis using assms(3) b l
    by (auto simp: periodic_slot_def f r Let_def case_prod_beta tx_write_eq bytes_at_ok min_def
        intro!: ok_tx_fill_le [where k = "nat written"]
          ok_mono [OF ok_tp_send_kept [OF assms(1), of s0]])
qed

lemma ok_periodic_scan:
  assumes "compliant cfg" "periodic_ok cfg"
  shows "kept cfg s0 s \<Longrightarrow> ok (periodic_scan cfg now is s) (kept cfg s0)"
  by (induction "is" arbitrary: s) (auto intro!: ok_mono [OF ok_periodic_slot [OF assms]])

lemma ok_periodic_scheduler:
  "compliant cfg \<Longrightarrow> periodic_ok cfg \<Longrightarrow> kept cfg s0 s \<Longrightarrow>
   ok (periodic_scheduler cfg now s) (kept cfg s0)"
  by (auto simp: periodic_scheduler_def intro!: ok_periodic_scan simp del: upt_Suc)

lemma working_s3_tick: "working cfg s0 s \<Longrightarrow> working cfg s0 (s3_tick cfg now s)"
  by (simp add: s3_tick_def)

text \<open>Whether \<open>uds_process\<close> is about to give up on a pending request.\<close>

definition p2_expired :: "u32 \<Rightarrow> 'w machine \<Rightarrow> bool" where
  "p2_expired now s \<longleftrightarrow> p2_msg_pending s \<and>
     now - p2_timer_start s \<ge> (if p2_star_active s then p2_star_ms s else ucast (p2_ms s))"

definition gives_up :: "'w config \<Rightarrow> u32 \<Rightarrow> 'w machine \<Rightarrow> bool" where
  "gives_up cfg now s \<longleftrightarrow> p2_expired now s \<and> rcrrp_limit cfg > 0 \<and> rcrrp_count s \<ge> rcrrp_limit cfg"

lemma ok_p2_tick:
  assumes "compliant cfg" "working cfg s0 s"
  shows "ok (p2_tick cfg now s) (\<lambda>r. fst r = gives_up cfg now s \<and> kept cfg s0 (snd r))"
  using assms
  by (auto simp: p2_tick_def Let_def gives_up_def p2_expired_def working_kept
      intro!: ok_mono [OF ok_send_nrc] dest: replied_kept)

lemma ok_process:
  assumes "compliant cfg" "periodic_ok cfg" "wfm cfg s" "get_time_ms cfg = Some clock"
    "clock (app (mutex_lock cfg s)) = (now, w)"
  shows "ok (uds_process cfg s) (\<lambda>s'. wfm cfg s' \<and> (\<exists>evs. tr s' = tr s @ evs \<and> keyed s evs s'
     \<and> lock_ops evs = locks cfg @ (if gives_up cfg now s then [] else unlocks cfg)))"
proof -
  let ?s = "s3_tick cfg now ((mutex_lock cfg s)\<lparr>app := w\<rparr>)"
  have tn: "time_now cfg (mutex_lock cfg s) = Some (now, (mutex_lock cfg s)\<lparr>app := w\<rparr>)"
    by (simp add: time_now_def assms(4,5))
  have g: "gives_up cfg now ?s = gives_up cfg now s"
    by (auto simp: gives_up_def p2_expired_def s3_tick_def uds_internal_log_def mutex_lock_def emit_def
        split: option.splits)
  have "working cfg (mutex_lock cfg s) ?s" using assms(3)
    by (intro working_s3_tick) simp
  note p2 = ok_p2_tick [OF assms(1) this, of now, unfolded g]
  let ?Q = "\<lambda>s'. wfm cfg s' \<and> (\<exists>evs. tr s' = tr s @ evs \<and> keyed s evs s'
     \<and> lock_ops evs = locks cfg @ (if gives_up cfg now s then [] else unlocks cfg))"
  have "ok (p2_tick cfg now ?s) (\<lambda>r. ok (if fst r then Some (snd r) else do {
          s \<leftarrow> periodic_scheduler cfg now (snd r);
          Some (mutex_unlock cfg s) }) ?Q)"
  proof (rule ok_mono [OF p2])
    fix r assume r: "fst r = gives_up cfg now s \<and> kept cfg (mutex_lock cfg s) (snd r)"
    show "ok (if fst r then Some (snd r) else do {
          s \<leftarrow> periodic_scheduler cfg now (snd r);
          Some (mutex_unlock cfg s) }) ?Q"
      using r by (auto simp: kept_def tr_mutex_lock tr_mutex_unlock keyed_def
          intro!: ok_mono [OF ok_periodic_scheduler [OF assms(1,2), of "mutex_lock cfg s"]])
  qed
  moreover have "uds_process cfg s = Option.bind (p2_tick cfg now ?s) (\<lambda>r.
      if fst r then Some (snd r)
      else do { s \<leftarrow> periodic_scheduler cfg now (snd r); Some (mutex_unlock cfg s) })"
    using wfm_basic [OF assms(3)] by (simp add: uds_process_def Let_def tn) (simp add: case_prod_unfold)
  ultimately show ?thesis by (simp only: ok_bind)
qed

lemma ok_client_request:
  assumes "compliant cfg" "wfm cfg s" "unat len = length d" "len > 0"
  shows "ok (uds_client_request cfg sid (Some d) len cb s) (\<lambda>(r, s').
     if unat len + 1 > unat (tx_buffer_size cfg) then s' = s
     else wfm cfg s' \<and> tr s' = tr s @ locks cfg @ [ESend (sid # d)] @ unlocks cfg
       \<and> pending_sid s' = sid \<and> client_cb s' = cb \<and> p2_msg_pending s' = p2_msg_pending s)"
proof (cases "unat len + 1 > unat (tx_buffer_size cfg)")
  case True
  then show ?thesis using assms(1,2) by (simp add: uds_client_request_def wfm_basic compliant_basic)
next
  case False
  let ?s = "(mutex_lock cfg s)\<lparr>pending_sid := sid, client_cb := cb\<rparr>"
  note b = wfm_basic [OF assms(2)] compliant_basic [OF assms(1)]
  obtain x xs where b': "tx_buf s = x # xs" using b by (cases "tx_buf s") auto
  have "length d \<le> length xs" using b b' False assms(3) by simp
  then show ?thesis using assms False b b'
    by (auto simp: uds_client_request_def Let_def tx_write_eq bytes_at_ok tx_fill_eq tp_send_def
      tr_mutex_lock tr_mutex_unlock emit_def)
qed

end
