(* ===== verification/Uds_Requests.thy ===== *)
theory Uds_Requests
  imports Uds_Core
begin

text \<open>
  What the dispatcher of \<open>uds_core.c\<close> promises about a request: the order in which the
  checks report, the safety gate, the answer while another request is pending, the two ways
  a service ends, and the matching of responses to the client's own requests.
\<close>

section \<open>The order of the checks\<close>

text \<open>The checks a request must pass, in the order in which ISO 14229-1 reports them.\<close>

datatype check = SessionCheck | SubfunctionCheck | LengthCheck | SecurityCheck

fun check_rank :: "check \<Rightarrow> nat" where
  "check_rank SessionCheck = 0"
| "check_rank SubfunctionCheck = 1"
| "check_rank LengthCheck = 2"
| "check_rank SecurityCheck = 3"

lemma check_rank_inj: "check_rank a = check_rank b \<longleftrightarrow> a = b"
  by (cases a; cases b) simp_all

instantiation check :: linorder
begin

definition less_eq_check :: "check \<Rightarrow> check \<Rightarrow> bool" where
  "a \<le> b \<longleftrightarrow> check_rank a \<le> check_rank b"

definition less_check :: "check \<Rightarrow> check \<Rightarrow> bool" where
  "a < b \<longleftrightarrow> check_rank a < check_rank b"

instance
  by standard (auto simp: less_eq_check_def less_check_def check_rank_inj)

end

lemma finite_checks [simp]: "finite (A :: check set)"
proof -
  have "(UNIV :: check set) = {SessionCheck, SubfunctionCheck, LengthCheck, SecurityCheck}"
    by (auto intro: check.exhaust)
  then show ?thesis by (metis finite.simps finite_subset subset_UNIV)
qed

fun check_nrc :: "check \<Rightarrow> u8" where
  "check_nrc SessionCheck = UDS_NRC_SERVICE_NOT_SUPP_IN_SESS"
| "check_nrc SubfunctionCheck = UDS_NRC_SUBFUNCTION_NOT_SUPPORTED"
| "check_nrc LengthCheck = UDS_NRC_INCORRECT_LENGTH"
| "check_nrc SecurityCheck = UDS_NRC_SECURITY_ACCESS_DENIED"

text \<open>Bit \<open>sub\<close> of a subfunction mask.\<close>

definition sub_listed :: "'w service_entry \<Rightarrow> u8 \<Rightarrow> bool" where
  "sub_listed e sub = (case svc_sub_mask e of None \<Rightarrow> True
     | Some m \<Rightarrow> bit (m ! (unat sub div 8)) (unat sub mod 8))"

text \<open>Which checks a request fails, each on its own.\<close>

fun failed :: "'w config \<Rightarrow> 'w service_entry \<Rightarrow> u8 list \<Rightarrow> 'w machine \<Rightarrow> check \<Rightarrow> bool" where
  "failed cfg e data s SessionCheck \<longleftrightarrow> svc_session_mask e AND get_session_bit (active_session s) = 0"
| "failed cfg e data s SubfunctionCheck \<longleftrightarrow> svc_sub_mask e \<noteq> None \<and> 2 \<le> length data
     \<and> \<not> sub_listed e (data ! 1 AND UDS_MASK_SUBFUNCTION)"
| "failed cfg e data s LengthCheck \<longleftrightarrow> svc_sub_mask e \<noteq> None \<and> length data < 2
     \<or> length data < unat (svc_min_len e)"
| "failed cfg e data s SecurityCheck \<longleftrightarrow> unat (svc_security_mask e) > unat (security_level s)"

lemma and_7: "(x :: u8) AND 7 = take_bit 3 x"
  by (simp add: take_bit_eq_mask mask_eq_exp_minus_1)

lemma sub_listed_supported:
  assumes "\<forall>m. svc_sub_mask e = Some m \<longrightarrow> length m = 16"
  shows "is_subfunction_supported e (x AND UDS_MASK_SUBFUNCTION) = Some (sub_listed e (x AND UDS_MASK_SUBFUNCTION))"
proof (cases "svc_sub_mask e")
  case None then show ?thesis by (simp add: is_subfunction_supported_def sub_listed_def)
next
  case (Some m)
  let ?x = "x AND 0x7F"
  have "?x \<le> 0x7F" by (rule word_and_le1)
  then have "unat ?x div 8 < 16" by (simp add: word_le_nat_alt)
  moreover have "unat (drop_bit 3 ?x) = unat ?x div 8"
    by (simp only: unat_drop_bit_eq) (simp add: drop_bit_eq_div)
  moreover have "unat (?x AND 7) = unat ?x mod 8"
    unfolding and_7 by (simp only: unsigned_take_bit_eq) (simp add: take_bit_eq_mod)
  ultimately show ?thesis using Some assms
    by (simp add: is_subfunction_supported_def sub_listed_def byte_at_def and_exp_eq_0_iff_not_bit)
qed

lemma failed_Min:
  assumes "failed cfg e data s c" "\<And>c'. failed cfg e data s c' \<Longrightarrow> c \<le> c'"
  shows "Min {c. failed cfg e data s c} = c"
  using assms by (intro Min_eqI) auto

definition gate :: "'w config \<Rightarrow> u8 \<Rightarrow> u8 list \<Rightarrow> 'w machine \<Rightarrow> bool \<times> 'w machine" where
  "gate cfg sid data s = (case fn_is_safe cfg of None \<Rightarrow> (True, s)
     | Some g \<Rightarrow> called (HSafe sid data) (g (ctx_view s) (app s) sid data) s)"

definition noted :: "u8 list \<Rightarrow> 'w service_entry \<Rightarrow> 'w machine \<Rightarrow> 'w machine" where
  "noted data e s = (if svc_sub_mask e \<noteq> None \<and> 2 \<le> length data
     \<and> sub_listed e (data ! 1 AND UDS_MASK_SUBFUNCTION) \<and> is_session_supported s e
     then s\<lparr>suppress_pos_resp := (data ! 1 AND UDS_MASK_SUPPRESS_POS_RESP \<noteq> 0)\<rparr> else s)"

lemma rank_le [simp]:
  "SessionCheck \<le> c" "SubfunctionCheck \<le> c \<longleftrightarrow> c \<noteq> SessionCheck"
  "LengthCheck \<le> c \<longleftrightarrow> c \<notin> {SessionCheck, SubfunctionCheck}" "SecurityCheck \<le> c \<longleftrightarrow> c = SecurityCheck"
  by (cases c; simp add: less_eq_check_def)+

definition verdict :: "'w config \<Rightarrow> 'w service_entry \<Rightarrow> u8 list \<Rightarrow> 'w machine \<Rightarrow> 'w machine option" where
  "verdict cfg e data s =
    (let F = {c. failed cfg e data s c}; s1 = noted data e s in
     if F \<noteq> {} then nrc_and_return cfg (data ! 0) (check_nrc (Min F)) s1
     else let (safe, s2) = gate cfg (data ! 0) data s1 in
       if \<not> safe then nrc_and_return cfg (data ! 0) UDS_NRC_CONDITIONS_NOT_CORRECT s2
       else do { (_, s) \<leftarrow> execute_handler cfg e data s2; Some s })"

lemma verdict_failed:
  assumes "failed cfg e data s c" "\<And>c'. failed cfg e data s c' \<Longrightarrow> c \<le> c'"
  shows "verdict cfg e data s = nrc_and_return cfg (data ! 0) (check_nrc c) (noted data e s)"
proof -
  have "{c. failed cfg e data s c} \<noteq> {}" using assms(1) by blast
  then show ?thesis by (simp add: verdict_def Let_def failed_Min [OF assms])
qed

lemma verdict_passed:
  assumes "\<And>c. \<not> failed cfg e data s c"
  shows "verdict cfg e data s = (let (safe, s2) = gate cfg (data ! 0) data (noted data e s) in
       if \<not> safe then nrc_and_return cfg (data ! 0) UDS_NRC_CONDITIONS_NOT_CORRECT s2
       else do { (_, s) \<leftarrow> execute_handler cfg e data s2; Some s })"
  using assms by (simp add: verdict_def Let_def)

lemma handle_request_spec:
  assumes "data \<noteq> []" "find_service cfg (data ! 0) = Some e"
    "\<forall>m. svc_sub_mask e = Some m \<longrightarrow> length m = 16"
  shows "handle_request cfg data s = verdict cfg e data s"
proof -
  have b: "byte_at data 0 = Some (data ! 0)" using assms(1) by (simp add: byte_at_def)
  have b1: "byte_at data (Suc 0) = Some (data ! Suc 0)" if "2 \<le> length data" using that by (simp add: byte_at_def)
  note sub = sub_listed_supported [OF assms(3)]
  let ?fail = "failed cfg e data s"
  note simps = handle_request_def b is_session_supported_def Let_def noted_def [unfolded One_nat_def] sub b1 assms(2)
    check_and_execute_def gate_def
  consider "?fail SessionCheck" | "\<not> ?fail SessionCheck" "?fail SubfunctionCheck"
    | "\<not> ?fail SessionCheck" "\<not> ?fail SubfunctionCheck" "?fail LengthCheck"
    | "\<not> ?fail SessionCheck" "\<not> ?fail SubfunctionCheck" "\<not> ?fail LengthCheck" "?fail SecurityCheck"
    | "\<And>c. \<not> ?fail c" by (metis check.exhaust)
  then show ?thesis
  proof cases
    case 1
    then have "verdict cfg e data s = nrc_and_return cfg (data ! 0) (check_nrc SessionCheck) (noted data e s)"
      by (intro verdict_failed) simp_all
    then show ?thesis using 1 by (simp add: simps)
  next
    case 2
    then have "verdict cfg e data s = nrc_and_return cfg (data ! 0) (check_nrc SubfunctionCheck) (noted data e s)"
      by (intro verdict_failed) auto
    then show ?thesis using 2 by (auto simp: simps)
  next
    case 3
    then have "verdict cfg e data s = nrc_and_return cfg (data ! 0) (check_nrc LengthCheck) (noted data e s)"
      by (intro verdict_failed) auto
    then show ?thesis using 3 by (auto simp: simps)
  next
    case 4
    then have "verdict cfg e data s = nrc_and_return cfg (data ! 0) (check_nrc SecurityCheck) (noted data e s)"
      by (intro verdict_failed) (auto simp del: failed.simps, metis check.exhaust)
    then show ?thesis using 4 by (auto simp: simps)
  next
    case 5
    then show ?thesis using 5 [of SessionCheck] 5 [of SubfunctionCheck] 5 [of LengthCheck] 5 [of SecurityCheck]
      by (auto simp: verdict_passed simps)
  qed
qed

section \<open>An application to run the properties on\<close>

definition no_callbacks :: "'w callbacks" where
  "no_callbacks i sid d s = Some s"

lemma no_callbacks_ok: "cbs_ok cfg no_callbacks"
  by (simp add: cbs_ok_def no_callbacks_def)

lemma clock_app_ok: "app_ok clock_config"
  using clock_compliant by (simp add: app_ok_def clock_config_def base_config_def)

section \<open>Properties\<close>

text \<open>
  C1: processing a request is safe and answers at most once. For an application that keeps
  the documented contract, any request of at least one byte in a well-formed machine is
  processed without undefined behaviour, leaves the machine well formed, takes the lock once
  and releases it once around everything else, and sends nothing or exactly one SDU, which
  is an answer to that service: a positive response of it or a negative one naming it.
\<close>

theorem uds_input_sdu_safe:
  assumes "app_ok cfg" "cbs_ok cfg cbs" "wfm cfg s" "length data < 65536" "data \<noteq> []"
  shows "\<exists>s' evs. uds_input_sdu cfg cbs (Some data) s = Some s' \<and> wfm cfg s' \<and> tr s' = tr s @ evs
    \<and> lock_ops evs = locks cfg @ unlocks cfg
    \<and> (sent evs = [] \<or> (\<exists>bs. sent evs = [bs] \<and> is_answer (data ! 0) bs))"
  using ok_input_sdu [OF assms] by (auto simp: ok_iff served_once_def)

theorem uds_input_sdu_safe_witness:
  "\<exists>s' evs. uds_input_sdu clock_config no_callbacks (Some [0x22, 0xF1, 0x90]) (base_machine 5) = Some s'
    \<and> wfm clock_config s' \<and> tr s' = evs
    \<and> (sent evs = [] \<or> (\<exists>bs. sent evs = [bs] \<and> is_answer 0x22 bs))"
  using uds_input_sdu_safe [OF clock_app_ok no_callbacks_ok clock_wfm, of "[0x22, 0xF1, 0x90]" 5]
  by (auto simp: machine_fields)

text \<open>Everything a negative response changes.\<close>

definition nrc_sent :: "u8 \<Rightarrow> u8 \<Rightarrow> 'w machine \<Rightarrow> 'w machine \<Rightarrow> bool" where
  "nrc_sent sid nrc s s' \<longleftrightarrow> (\<exists>w b. length b = length (tx_buf s) \<and> s' = s\<lparr>
     p2_msg_pending := p2_msg_pending s \<and> (nrc = UDS_NRC_RESPONSE_PENDING \<or> sid \<noteq> pending_sid s),
     tx_buf := b, app := w, tr := tr s @ [ESend [UDS_NRC_SERVICE_NOT_SUPP_IN_SESS, sid, nrc]]\<rparr>)"

lemma nrc_sent_fields:
  assumes "nrc_sent sid nrc s s'"
  shows "tr s' = tr s @ [ESend [0x7F, sid, nrc]]" "length (tx_buf s') = length (tx_buf s)"
    "p2_msg_pending s' = (p2_msg_pending s \<and> (nrc = 0x78 \<or> sid \<noteq> pending_sid s))"
    "config_set s' = config_set s"
    "state_byte s' = state_byte s"
    "active_session s' = active_session s"
    "security_level s' = security_level s"
    "last_msg_time s' = last_msg_time s"
    "p2_timer_start s' = p2_timer_start s"
    "p2_star_active s' = p2_star_active s"
    "response_pending s' = response_pending s"
    "client_cb s' = client_cb s"
    "pending_sid s' = pending_sid s"
    "comm_state s' = comm_state s"
    "suppress_pos_resp s' = suppress_pos_resp s"
    "p2_ms s' = p2_ms s"
    "p2_star_ms s' = p2_star_ms s"
    "flash_sequence s' = flash_sequence s"
    "security_delay_end s' = security_delay_end s"
    "security_attempts s' = security_attempts s"
    "rcrrp_count s' = rcrrp_count s"
    "periodic_ids s' = periodic_ids s"
    "periodic_rates s' = periodic_rates s"
    "periodic_timers s' = periodic_timers s"
    "periodic_count s' = periodic_count s"
    "ctx_null s' = ctx_null s"
    "rx_buf s' = rx_buf s"
    "did_store s' = did_store s"
  using assms by (auto simp: nrc_sent_def)

lemma send_nrc_sent:
  assumes "compliant cfg" "wfm cfg s"
  shows "ok (uds_send_nrc cfg sid nrc s) (\<lambda>r. nrc_sent sid nrc s (snd r))"
proof -
  note b = wfm_basic [OF assms(2)] compliant_basic [OF assms(1)]
  obtain f where f: "fn_tp_send cfg = Some f" using b by auto
  obtain x y z xs where t: "tx_buf s = x # y # z # xs"
    using b by (cases "tx_buf s" rule: list.exhaust; cases "tl (tx_buf s)"; cases "tl (tl (tx_buf s))") auto
  define p where "p = (p2_msg_pending s \<and> (nrc = 0x78 \<or> sid \<noteq> pending_sid s))"
  have p: "(if nrc \<noteq> UDS_NRC_RESPONSE_PENDING \<and> sid = pending_sid s then s\<lparr>p2_msg_pending := False\<rparr> else s)
      = s\<lparr>p2_msg_pending := p\<rparr>" by (simp add: p_def)
  have "nrc_sent sid nrc s (s\<lparr>p2_msg_pending := p, tx_buf := c, app := w,
      tr := tr s @ [ESend [0x7F, sid, nrc]]\<rparr>)" if "length c = length (tx_buf s)" for c w
    unfolding nrc_sent_def p_def using that by blast
  then show ?thesis using b f t unfolding uds_send_nrc_def p
    by (simp add: Let_def tx_write_def tp_send_def emit_def numeral_3_eq_3 numeral_2_eq_2)
qed

text \<open>Everything a positive response with the bytes \<open>bs\<close> changes.\<close>

definition responded :: "u8 list \<Rightarrow> 'w machine \<Rightarrow> 'w machine \<Rightarrow> bool" where
  "responded bs s s' \<longleftrightarrow> (\<exists>w b. length b = length (tx_buf s) \<and> s' = s\<lparr>
     p2_msg_pending := False, suppress_pos_resp := False, rcrrp_count := 0, tx_buf := b, app := w,
     tr := tr s @ (if suppress_pos_resp s then [] else [ESend bs])\<rparr>)"

lemma responded_fields:
  assumes "responded bs s s'"
  shows "tr s' = tr s @ (if suppress_pos_resp s then [] else [ESend bs])"
    "length (tx_buf s') = length (tx_buf s)" "\<not> p2_msg_pending s'" "\<not> suppress_pos_resp s'"
    "rcrrp_count s' = 0" "config_set s' = config_set s" "active_session s' = active_session s"
    "security_level s' = security_level s" "last_msg_time s' = last_msg_time s"
    "p2_timer_start s' = p2_timer_start s" "p2_star_active s' = p2_star_active s"
    "client_cb s' = client_cb s" "pending_sid s' = pending_sid s" "comm_state s' = comm_state s"
    "p2_ms s' = p2_ms s" "p2_star_ms s' = p2_star_ms s" "flash_sequence s' = flash_sequence s"
    "security_delay_end s' = security_delay_end s" "security_attempts s' = security_attempts s"
    "periodic_ids s' = periodic_ids s" "periodic_rates s' = periodic_rates s"
    "periodic_timers s' = periodic_timers s" "periodic_count s' = periodic_count s"
    "ctx_null s' = ctx_null s" "rx_buf s' = rx_buf s" "did_store s' = did_store s"
  using assms by (auto simp: responded_def)

lemma send_response_sent:
  assumes "compliant cfg" "wfm cfg s" "unat len \<le> unat (tx_buffer_size cfg)"
  shows "ok (uds_send_response cfg len s) (\<lambda>r. fst r \<le> 0 \<and> responded (take (unat len) (tx_buf s)) s (snd r))"
proof -
  note b = wfm_basic [OF assms(2)] compliant_basic [OF assms(1)]
  obtain f where f: "fn_tp_send cfg = Some f" "sdu_transport f"
    using assms(1) by (auto simp: compliant_def)
  have st: "fst (f c w x) \<le> 0" for c w x using f(2) by (rule sdu_transport.status)
  have l: "\<not> len > tx_buffer_size cfg" using assms(3) by (simp add: word_less_nat_alt not_less)
  show ?thesis
  proof (cases "suppress_pos_resp s")
    case True
    have "responded bs s (s\<lparr>p2_msg_pending := False, suppress_pos_resp := False, rcrrp_count := 0\<rparr>)" for bs
      unfolding responded_def by (rule exI [of _ "app s"], rule exI [of _ "tx_buf s"]) (simp add: True)
    then show ?thesis using True b l by (simp add: uds_send_response_def Let_def)
  next
    case False
    then have s: "s\<lparr>suppress_pos_resp := False\<rparr> = s" by (cases s) simp
    have "s\<lparr>p2_msg_pending := False, suppress_pos_resp := False, rcrrp_count := 0, tx_buf := tx_buf s, app := w, tr := e\<rparr>
        = (s\<lparr>suppress_pos_resp := False\<rparr>)\<lparr>p2_msg_pending := False, rcrrp_count := 0, app := w, tr := e\<rparr>" for w e
      by simp
    then have "responded bs s (s\<lparr>p2_msg_pending := False, rcrrp_count := 0, app := w, tr := tr s @ [ESend bs]\<rparr>)" for bs w
      unfolding responded_def s by (intro exI [of _ w] exI [of _ "tx_buf s"]) (simp add: False)
    then show ?thesis using False b l f st assms(3)
      by (simp add: uds_send_response_def Let_def tp_send_def emit_def)
  qed
qed

lemma nrc_and_return_sent:
  "compliant cfg \<Longrightarrow> wfm cfg s \<Longrightarrow> ok (nrc_and_return cfg sid nrc s) (nrc_sent sid nrc s)"
  by (auto simp: nrc_and_return_def intro!: ok_mono [OF send_nrc_sent])

lemma hooks_of_sent:
  "responded bs s s' \<Longrightarrow> hooks_of (tr s') = hooks_of (tr s)"
  "nrc_sent sid nrc s s' \<Longrightarrow> hooks_of (tr s') = hooks_of (tr s)"
  by (auto simp: responded_def nrc_sent_def)

lemma wfm_sent:
  "responded bs s s' \<Longrightarrow> wfm cfg s \<Longrightarrow> wfm cfg s'"
  "nrc_sent sid nrc s s' \<Longrightarrow> wfm cfg s \<Longrightarrow> wfm cfg s'"
  by (auto simp: responded_def nrc_sent_def)

lemma wfm_noted [simp]: "wfm cfg (noted data e s) = wfm cfg s"
  by (simp add: noted_def)

lemma noted_fields [simp]:
  "tr (noted data e s) = tr s" "active_session (noted data e s) = active_session s"
  "security_level (noted data e s) = security_level s" "flash_sequence (noted data e s) = flash_sequence s"
  "p2_msg_pending (noted data e s) = p2_msg_pending s" "pending_sid (noted data e s) = pending_sid s"
  by (simp_all add: noted_def)


lemma find_tester_present: "find_service clock_config 0x3E = Some
    (core_service 0x3E 2 (uds_internal_handle_tester_present clock_config) (Some UDS_MASK_SUB_3E))"
  by (simp add: find_service_def clock_fields core_services_def core_service_def)


text \<open>
  The safety gate. When \<open>fn_is_safe\<close> refuses a request that passed every check, no
  handler runs: the only call into the application is the gate itself, the answer is
  conditionsNotCorrect, and session, security level and transfer state are as they were.
\<close>

lemma safety_gate_blocks:
  assumes "app_ok cfg" "wfm cfg s" "data \<noteq> []" "find_service cfg (data ! 0) = Some e"
    "\<And>c. \<not> failed cfg e data s c" "fn_is_safe cfg = Some g" "\<And>c w. \<not> fst (g c w (data ! 0) data)"
  shows "\<exists>s'. handle_request cfg data s = Some s'
    \<and> tr s' = tr s @ [EHook (HSafe (data ! 0) data), ESend [0x7F, data ! 0, 0x22]]
    \<and> active_session s' = active_session s \<and> security_level s' = security_level s
    \<and> flash_sequence s' = flash_sequence s"
proof -
  have c: "compliant cfg" using assms(1) by (simp add: app_ok_def)
  have m: "\<forall>m. svc_sub_mask e = Some m \<longrightarrow> length m = 16"
    using find_service_served [OF assms(1,4)] by (simp add: served_def)
  let ?n = "noted data e s"
  let ?s = "snd (called (HSafe (data ! 0) data) (g (ctx_view ?n) (app ?n) (data ! 0) data) ?n)"
  have "handle_request cfg data s = nrc_and_return cfg (data ! 0) UDS_NRC_CONDITIONS_NOT_CORRECT ?s"
    using assms(6,7) unfolding handle_request_spec [OF assms(3,4) m] verdict_passed [OF assms(5)]
    by (simp add: gate_def case_prod_beta)
  moreover have "wfm cfg ?s" using assms(2) by (simp add: called_def)
  ultimately show ?thesis
    using nrc_and_return_sent [OF c, of ?s "data ! 0" UDS_NRC_CONDITIONS_NOT_CORRECT]
    by (auto simp: ok_iff nrc_sent_fields)
qed

lemma safety_gate_blocks_example:
  "\<exists>s'. handle_request (clock_config\<lparr>fn_is_safe := Some (\<lambda>c w sid d. (False, w))\<rparr>) [0x3E, 0] (base_machine 0) = Some s'
    \<and> tr s' = [EHook (HSafe 0x3E [0x3E, 0]), ESend [0x7F, 0x3E, 0x22]]"
proof -
  let ?cfg = "clock_config\<lparr>fn_is_safe := Some (\<lambda>c w sid d. (False, w))\<rparr>"
  let ?e = "core_service 0x3E 2 (uds_internal_handle_tester_present ?cfg) (Some UDS_MASK_SUB_3E)"
  have c: "app_ok ?cfg" using clock_compliant by (simp add: app_ok_def compliant_def did_secured_def clock_fields)
  have w: "wfm ?cfg (base_machine 0)" using clock_wfm by (simp add: wfm_def did_secured_def clock_fields)
  have e: "find_service ?cfg 0x3E = Some ?e"
    by (simp add: find_service_def clock_fields core_services_def core_service_def)
  have f: "\<not> failed ?cfg ?e [0x3E, 0] (base_machine 0) c" for c
    by (cases c) (simp_all add: core_service_def get_session_bit_def machine_fields sub_listed_def
        UDS_MASK_SUB_3E_def mask16_def)
  show ?thesis
    using safety_gate_blocks [OF c w, of "[0x3E, 0]" ?e "\<lambda>c w sid d. (False, w)"] f e
    by (auto simp: machine_fields simp del: failed.simps)
qed

text \<open>
  The two ways a service ends. A positive response is the first \<open>len\<close> bytes of the
  transmit buffer, or nothing when the request asked for suppression, which is then used up;
  a negative response is always sent, and leaves a wish for suppression in place. Both end
  the waiting for the request they answer.
\<close>

lemma response_suppression:
  assumes "compliant cfg" "wfm cfg s" "len \<le> tx_buffer_size cfg"
  shows "(\<exists>r s'. uds_send_response cfg len s = Some (r, s') \<and> \<not> p2_msg_pending s' \<and> rcrrp_count s' = 0
      \<and> \<not> suppress_pos_resp s'
      \<and> tr s' = tr s @ (if suppress_pos_resp s then [] else [ESend (take (unat len) (tx_buf s))]))
    \<and> (\<exists>r s'. uds_send_nrc cfg sid nrc s = Some (r, s') \<and> suppress_pos_resp s' = suppress_pos_resp s
      \<and> tr s' = tr s @ [ESend [0x7F, sid, nrc]]
      \<and> (nrc \<noteq> 0x78 \<and> sid = pending_sid s \<longrightarrow> \<not> p2_msg_pending s'))"
proof
  note b = wfm_basic [OF assms(2)] compliant_basic [OF assms(1)]
  obtain f where f: "fn_tp_send cfg = Some f" using b by auto
  have l: "unat len \<le> length (tx_buf s)" "\<not> tx_buffer_size cfg < len"
    using assms(3) b by (simp_all add: word_le_nat_alt word_less_nat_alt)
  show "\<exists>r s'. uds_send_response cfg len s = Some (r, s') \<and> \<not> p2_msg_pending s' \<and> rcrrp_count s' = 0
      \<and> \<not> suppress_pos_resp s'
      \<and> tr s' = tr s @ (if suppress_pos_resp s then [] else [ESend (take (unat len) (tx_buf s))])"
    using b f l by (simp add: uds_send_response_def Let_def tp_send_def emit_def)
  show "\<exists>r s'. uds_send_nrc cfg sid nrc s = Some (r, s') \<and> suppress_pos_resp s' = suppress_pos_resp s
      \<and> tr s' = tr s @ [ESend [0x7F, sid, nrc]]
      \<and> (nrc \<noteq> 0x78 \<and> sid = pending_sid s \<longrightarrow> \<not> p2_msg_pending s')"
    using send_nrc_sent [OF assms(1,2), of sid nrc] by (auto simp: ok_iff nrc_sent_fields)
qed

lemma response_suppression_example:
  "\<exists>r s'. uds_send_response clock_config 2 ((base_machine 0)\<lparr>suppress_pos_resp := True\<rparr>) = Some (r, s')
    \<and> tr s' = [] \<and> \<not> suppress_pos_resp s'"
proof -
  have "wfm clock_config ((base_machine 0)\<lparr>suppress_pos_resp := True\<rparr>)" using clock_wfm by simp
  from response_suppression [OF clock_compliant this, of 2 0 0] show ?thesis
    by (auto simp: clock_fields machine_fields)
qed

text \<open>
  C24: while a request is pending, every other request is refused with busyRepeatRequest,
  except a TesterPresent that suppresses its response, which passes silently. No callback
  is called. The pending request stays pending, unless the refused one names the same
  service: then the refusal itself ends the waiting.
\<close>

theorem busy_while_pending:
  assumes "app_ok cfg" "wfm cfg s" "data \<noteq> []" "p2_msg_pending s"
  shows "\<exists>s'. uds_input_sdu cfg cbs (Some data) s = Some s'
    \<and> (if data ! 0 = 0x3E \<and> 2 \<le> length data \<and> data ! 1 AND 0x80 \<noteq> 0
       then tr s' = tr s @ locks cfg @ unlocks cfg \<and> p2_msg_pending s'
       else tr s' = tr s @ locks cfg @ [ESend [0x7F, data ! 0, 0x21]] @ unlocks cfg
         \<and> p2_msg_pending s' = (data ! 0 \<noteq> pending_sid s))
    \<and> active_session s' = active_session s \<and> security_level s' = security_level s
    \<and> pending_sid s' = pending_sid s"
proof -
  have c: "compliant cfg" using assms(1) by (simp add: app_ok_def)
  obtain now w where t: "time_now cfg (mutex_lock cfg s) = Some (now, (mutex_lock cfg s)\<lparr>app := w\<rparr>)"
    using compliant_basic(4) [OF c] by (auto simp: time_now_def)
  let ?s = "(mutex_lock cfg s)\<lparr>app := w, last_msg_time := now\<rparr>"
  have w: "wfm cfg ?s" using assms(2) by simp
  have i: "uds_input_sdu cfg cbs (Some data) s = do { s \<leftarrow> busy_response cfg data ?s; Some (mutex_unlock cfg s) }"
    using wfm_basic [OF assms(2)] assms(3,4) by (simp add: uds_input_sdu_def Let_def t route_def)
  have b: "byte_at data 0 = Some (data ! 0)" "2 \<le> length data \<Longrightarrow> byte_at data (Suc 0) = Some (data ! 1)"
    using assms(3) by (simp_all add: byte_at_def)
  show ?thesis
  proof (cases "data ! 0 = 0x3E \<and> 2 \<le> length data \<and> data ! 1 AND 0x80 \<noteq> 0")
    case True
    then have "busy_response cfg data ?s = Some ?s" using b by (simp add: busy_response_def)
    then show ?thesis using True assms(4) by (simp add: i tr_mutex_lock tr_mutex_unlock)
  next
    case False
    then have "busy_response cfg data ?s = nrc_and_return cfg (data ! 0) 0x21 ?s"
      using b by (auto simp: busy_response_def)
    then show ?thesis using False assms(4) nrc_and_return_sent [OF c w, of "data ! 0" "0x21"]
      by (auto simp: i ok_iff nrc_sent_fields tr_mutex_lock tr_mutex_unlock)
  qed
qed

theorem busy_while_pending_witness:
  "\<exists>s'. uds_input_sdu clock_config no_callbacks (Some [0x22, 0xF1, 0x90])
      ((base_machine 0)\<lparr>p2_msg_pending := True, pending_sid := 0x31\<rparr>) = Some s'
    \<and> tr s' = [ESend [0x7F, 0x22, 0x21]] \<and> p2_msg_pending s'"
proof -
  have "wfm clock_config ((base_machine 0)\<lparr>p2_msg_pending := True, pending_sid := 0x31\<rparr>)" using clock_wfm by simp
  from busy_while_pending [OF clock_app_ok this, of "[0x22, 0xF1, 0x90]" no_callbacks] show ?thesis
    by (auto simp: clock_fields machine_fields locks_def unlocks_def)
qed

text \<open>
  C25: the answer to the client's own request. After \<open>uds_client_request\<close> has sent a request,
  an SDU that is its positive response or a negative response naming it goes to the
  registered callback, once, with its first byte and the rest, and ends the request; any
  other SDU is dispatched as a request to this server.
\<close>

theorem client_request_response:
  assumes "compliant cfg" "wfm cfg s" "unat len = length d" "0 < len" "length d < unat (tx_buffer_size cfg)"
    "sid \<noteq> 0" "\<not> p2_msg_pending s" "data \<noteq> []"
  shows "\<exists>r s1 s2. uds_client_request cfg sid (Some d) len (Some cb) s = Some (r, s1)
    \<and> tr s1 = tr s @ locks cfg @ [ESend (sid # d)] @ unlocks cfg
    \<and> uds_input_sdu cfg cbs (Some data) s1 =
       (if data ! 0 = sid OR 0x40 \<or> data ! 0 = 0x7F \<and> 2 \<le> length data \<and> data ! 1 = sid
        then do { t \<leftarrow> cbs cb (data ! 0) (drop 1 data) s2;
                  Some (mutex_unlock cfg (t\<lparr>client_cb := None, pending_sid := 0\<rparr>)) }
        else do { t \<leftarrow> dispatch cfg data s2; Some (mutex_unlock cfg t) })"
proof -
  note b = wfm_basic [OF assms(2)] compliant_basic [OF assms(1)]
  obtain r s1 where s1: "uds_client_request cfg sid (Some d) len (Some cb) s = Some (r, s1)" "wfm cfg s1"
    "tr s1 = tr s @ locks cfg @ [ESend (sid # d)] @ unlocks cfg"
    "pending_sid s1 = sid" "client_cb s1 = Some cb" "p2_msg_pending s1 = p2_msg_pending s"
    using ok_client_request [OF assms(1-4), of sid "Some cb"] assms(3,5) by (auto simp: ok_iff)
  obtain now w where t: "time_now cfg (mutex_lock cfg s1) = Some (now, (mutex_lock cfg s1)\<lparr>app := w\<rparr>)"
    using b(10) by (auto simp: time_now_def)
  let ?s = "(mutex_lock cfg s1)\<lparr>app := w, last_msg_time := now\<rparr>"
  have bt: "byte_at data 0 = Some (data ! 0)" "2 \<le> length data \<Longrightarrow> byte_at data (Suc 0) = Some (data ! 1)"
    using assms(8) by (simp_all add: byte_at_def)
  have "uds_input_sdu cfg cbs (Some data) s1 =
       (if data ! 0 = sid OR 0x40 \<or> data ! 0 = 0x7F \<and> 2 \<le> length data \<and> data ! 1 = sid
        then do { t \<leftarrow> cbs cb (data ! 0) (drop 1 data) ?s;
                  Some (mutex_unlock cfg (t\<lparr>client_cb := None, pending_sid := 0\<rparr>)) }
        else do { t \<leftarrow> dispatch cfg data ?s; Some (mutex_unlock cfg t) })"
    using wfm_basic [OF s1(2)] s1 assms(6-8) bt
    by (auto simp: uds_input_sdu_def Let_def t route_def is_response_for_def client_response_def)
  with s1 show ?thesis by blast
qed

theorem client_request_response_witness:
  "\<exists>r s1 s2. uds_client_request clock_config 0x22 (Some [0xF1, 0x90]) 2 (Some 7) (base_machine 0) = Some (r, s1)
    \<and> tr s1 = [ESend [0x22, 0xF1, 0x90]]
    \<and> uds_input_sdu clock_config (\<lambda>i sid d s. if i = 7 \<and> sid = 0x62 \<and> d = [1, 2] then Some s else None)
         (Some [0x62, 1, 2]) s1 = Some (mutex_unlock clock_config (s2\<lparr>client_cb := None, pending_sid := 0\<rparr>))"
  using client_request_response [OF clock_compliant clock_wfm [of 0], where len = 2 and d = "[0xF1, 0x90]"
      and sid = "0x22" and data = "[0x62, 1, 2]" and cb = 7
      and cbs = "\<lambda>i sid d s. if i = 7 \<and> sid = 0x62 \<and> d = [1, 2] then Some s else None"]
  by (auto simp: clock_fields machine_fields locks_def unlocks_def)


end
