(* ===== verification/Uds_Timing.thy ===== *)
theory Uds_Timing
  imports Uds_Requests
begin

text \<open>
  What \<open>uds_process\<close> promises: the S3 session timeout, the bounded repetition of
  ResponsePending, and the lock around the call.
\<close>


section \<open>What the timers leave alone\<close>

lemma tp_send_fields:
  "tp_send cfg n s = Some (r, s') \<Longrightarrow> active_session s' = active_session s
     \<and> security_level s' = security_level s \<and> p2_msg_pending s' = p2_msg_pending s"
  by (auto simp: tp_send_def Let_def emit_def split: option.splits if_splits)

lemma uds_send_nrc_fields:
  "uds_send_nrc cfg sid nrc s = Some (r, s') \<Longrightarrow>
   active_session s' = active_session s \<and> security_level s' = security_level s"
  by (auto simp: uds_send_nrc_def Let_def bind_eq_Some_conv tx_write_def dest!: tp_send_fields split: if_splits)

lemma p2_tick_fields:
  "p2_tick cfg now s = Some (r, s') \<Longrightarrow> active_session s' = active_session s \<and> security_level s' = security_level s"
  by (auto simp: p2_tick_def Let_def bind_eq_Some_conv dest!: uds_send_nrc_fields split: if_splits)

lemma periodic_slot_fields:
  "periodic_slot cfg now i s = Some s' \<Longrightarrow> active_session s' = active_session s
     \<and> security_level s' = security_level s \<and> p2_msg_pending s' = p2_msg_pending s"
  by (auto simp: periodic_slot_def Let_def bind_eq_Some_conv case_prod_beta tx_write_def tx_fill_def
      dest!: tp_send_fields split: if_splits option.splits)

lemma periodic_scheduler_fields:
  "periodic_scheduler cfg now s = Some s' \<Longrightarrow> active_session s' = active_session s
     \<and> security_level s' = security_level s \<and> p2_msg_pending s' = p2_msg_pending s"
proof -
  have "periodic_scan cfg now is s = Some s' \<Longrightarrow>
    active_session s' = active_session s \<and> security_level s' = security_level s
      \<and> p2_msg_pending s' = p2_msg_pending s" for "is"
    by (induction "is" arbitrary: s) (auto simp: bind_eq_Some_conv dest!: periodic_slot_fields)
  then show "periodic_scheduler cfg now s = Some s' \<Longrightarrow>
    active_session s' = active_session s \<and> security_level s' = security_level s
      \<and> p2_msg_pending s' = p2_msg_pending s"
    by (auto simp: periodic_scheduler_def simp del: upt_Suc split: if_splits)
qed

section \<open>Properties\<close>

text \<open>
  C23: the S3 timer. One call of \<open>uds_process\<close> returns the server to the default session and
  locks it when more than 5000 ms have passed since the last request in another session;
  otherwise it changes neither, whatever else it does in the same call.
\<close>

theorem s3_timeout:
  assumes "compliant cfg" "periodic_ok cfg" "wfm cfg s" "get_time_ms cfg = Some clock"
    "clock (app (mutex_lock cfg s)) = (now, w)"
  shows "\<exists>s'. uds_process cfg s = Some s' \<and> wfm cfg s' \<and>
    (if active_session s \<noteq> 1 \<and> now - last_msg_time s > 5000
     then active_session s' = 1 \<and> security_level s' = 0
     else active_session s' = active_session s \<and> security_level s' = security_level s)"
proof -
  let ?s = "s3_tick cfg now ((mutex_lock cfg s)\<lparr>app := w\<rparr>)"
  obtain s' where s': "uds_process cfg s = Some s'" "wfm cfg s'"
    using ok_process [OF assms] by (auto simp: ok_iff)
  have tn: "time_now cfg (mutex_lock cfg s) = Some (now, (mutex_lock cfg s)\<lparr>app := w\<rparr>)"
    by (simp add: time_now_def assms(4,5))
  have "active_session s' = active_session ?s \<and> security_level s' = security_level ?s"
    using s'(1) wfm_basic [OF assms(3)]
    by (auto simp: uds_process_def Let_def tn bind_eq_Some_conv
        dest!: p2_tick_fields periodic_scheduler_fields split: if_splits)
  then show ?thesis using s' by (auto simp: s3_tick_def)
qed

theorem s3_timeout_witness:
  "\<exists>s'. uds_process (clock_config\<lparr>fn_periodic_read := Some (\<lambda>c w i n. ((0, []), w))\<rparr>)
      ((base_machine 5001)\<lparr>active_session := 3, security_level := 2\<rparr>) = Some s'
    \<and> active_session s' = 1 \<and> security_level s' = 0"
proof -
  let ?cfg = "clock_config\<lparr>fn_periodic_read := Some (\<lambda>c w i n. ((0 :: int, []), w))\<rparr>"
  let ?s = "(base_machine 5001)\<lparr>active_session := 3, security_level := 2\<rparr> :: u32 machine"
  have "compliant ?cfg" using clock_compliant by (simp add: compliant_def did_secured_def clock_fields)
  moreover have "periodic_ok ?cfg" by (simp add: periodic_ok_def)
  moreover have "wfm ?cfg ?s" using clock_wfm [of 5001] by (simp add: wfm_def did_secured_def clock_fields)
  ultimately show ?thesis
    using s3_timeout [of ?cfg ?s "\<lambda>w. (w, w)" 5001 5001]
    by (auto simp: clock_fields machine_fields mutex_lock_def)
qed

text \<open>
  C34: the lock around \<open>uds_process\<close>. Every call takes the lock once, and releases it at its
  end, except for the call that gives up on a pending request: it returns with the lock held.
\<close>

theorem process_locks:
  assumes "compliant cfg" "periodic_ok cfg" "wfm cfg s" "get_time_ms cfg = Some clock"
    "clock (app (mutex_lock cfg s)) = (now, w)"
  shows "\<exists>s' evs. uds_process cfg s = Some s' \<and> wfm cfg s' \<and> tr s' = tr s @ evs
    \<and> lock_ops evs = locks cfg @ (if gives_up cfg now s then [] else unlocks cfg)"
  using ok_process [OF assms] by (auto simp: ok_iff)

theorem process_locks_witness:
  "\<exists>s' evs. uds_process (clock_config\<lparr>fn_periodic_read := Some (\<lambda>c w i n. ((0, []), w)), rcrrp_limit := 1,
        fn_mutex_lock := Some (\<lambda>w. w), fn_mutex_unlock := Some (\<lambda>w. w)\<rparr>)
      ((base_machine 5000)\<lparr>p2_msg_pending := True, p2_star_active := True, rcrrp_count := 1, pending_sid := 0x31\<rparr>) = Some s'
    \<and> tr s' = evs \<and> lock_ops evs = [ELock]"
proof -
  let ?cfg = "clock_config\<lparr>fn_periodic_read := Some (\<lambda>c w i n. ((0 :: int, []), w)), rcrrp_limit := 1,
        fn_mutex_lock := Some (\<lambda>w. w), fn_mutex_unlock := Some (\<lambda>w. w)\<rparr>"
  let ?s = "(base_machine 5000)\<lparr>p2_msg_pending := True, p2_star_active := True, rcrrp_count := 1,
    pending_sid := 0x31\<rparr> :: u32 machine"
  have "compliant ?cfg" using clock_compliant by (simp add: compliant_def did_secured_def clock_fields)
  moreover have "periodic_ok ?cfg" by (simp add: periodic_ok_def)
  moreover have "wfm ?cfg ?s" using clock_wfm [of 5000] by (simp add: wfm_def did_secured_def clock_fields)
  ultimately show ?thesis
    using process_locks [of ?cfg ?s "\<lambda>w. (w, w)" 5000 5000]
    by (auto simp: clock_fields machine_fields mutex_lock_def emit_def locks_def gives_up_def p2_expired_def)
qed

text \<open>The P2 part of \<open>uds_process\<close> at a sequence of times.\<close>

fun p2_run :: "'w config \<Rightarrow> u32 list \<Rightarrow> 'w machine \<Rightarrow> 'w machine option" where
  "p2_run cfg [] s = Some s"
| "p2_run cfg (now # ts) s = do { (_, s) \<leftarrow> p2_tick cfg now s; p2_run cfg ts s }"

lemma p2_run_quiet: "\<not> p2_msg_pending s \<Longrightarrow> p2_run cfg ts s = Some s"
  by (induction ts) (simp_all add: p2_tick_def)

abbreviation pending_nrc :: "u8 \<Rightarrow> event" where
  "pending_nrc sid \<equiv> ESend [0x7F, sid, 0x78]"

lemma p2_tick_pending:
  assumes "compliant cfg" "wfm cfg s" "p2_msg_pending s" "0 < rcrrp_limit cfg" "rcrrp_count s \<le> rcrrp_limit cfg"
  shows "\<exists>r s'. p2_tick cfg now s = Some (r, s') \<and> wfm cfg s' \<and> pending_sid s' = pending_sid s \<and>
    ((s' = s)
     \<or> (rcrrp_count s < rcrrp_limit cfg \<and> p2_msg_pending s' \<and> rcrrp_count s' = rcrrp_count s + 1
        \<and> tr s' = tr s @ [pending_nrc (pending_sid s)])
     \<or> (rcrrp_count s = rcrrp_limit cfg \<and> \<not> p2_msg_pending s'
        \<and> tr s' = tr s @ [ESend [0x7F, pending_sid s, 0x22]]))"
proof -
  have w: "wfm cfg s'" if "nrc_sent sid nrc s s'" for sid nrc s'
    using assms(2) that by (auto simp: nrc_sent_def)
  consider "\<not> p2_expired now s" | "p2_expired now s" "rcrrp_count s = rcrrp_limit cfg"
    | "p2_expired now s" "rcrrp_count s < rcrrp_limit cfg"
    using assms(5) by fastforce
  then show ?thesis
  proof cases
    case 1
    then have "p2_tick cfg now s = Some (False, s)"
      using assms(3) by (simp add: p2_tick_def Let_def p2_expired_def)
    then show ?thesis using assms(2) by blast
  next
    case 2
    obtain r t where t: "uds_send_nrc cfg (pending_sid s) 0x22 s = Some (r, t)"
      "nrc_sent (pending_sid s) 0x22 s t"
      using send_nrc_sent [OF assms(1,2), of "pending_sid s" "0x22"] by (auto simp: ok_iff)
    then have "p2_tick cfg now s = Some (True, t\<lparr>rcrrp_count := 0\<rparr>)"
      using 2 assms(4) by (simp add: p2_tick_def Let_def p2_expired_def)
    then show ?thesis using 2(2) w [OF t(2)] nrc_sent_fields [OF t(2)] by auto
  next
    case 3
    obtain r t where t: "uds_send_nrc cfg (pending_sid s) 0x78 s = Some (r, t)"
      "nrc_sent (pending_sid s) 0x78 s t"
      using send_nrc_sent [OF assms(1,2), of "pending_sid s" "0x78"] by (auto simp: ok_iff)
    then have "p2_tick cfg now s = Some (False, t\<lparr>rcrrp_count := rcrrp_count t + 1, p2_star_active := True,
        p2_timer_start := now\<rparr>)"
      using 3 by (auto simp: p2_tick_def Let_def p2_expired_def)
    then show ?thesis using 3(2) w [OF t(2)] nrc_sent_fields [OF t(2)] assms(3) by auto
  qed
qed

lemma p2_run_count:
  assumes "compliant cfg" "0 < rcrrp_limit cfg"
  shows "wfm cfg s \<Longrightarrow> p2_msg_pending s \<Longrightarrow> rcrrp_count s \<le> rcrrp_limit cfg \<Longrightarrow>
   \<exists>s' k. p2_run cfg ts s = Some s' \<and> k + unat (rcrrp_count s) \<le> unat (rcrrp_limit cfg) \<and>
    (if p2_msg_pending s' then tr s' = tr s @ replicate k (pending_nrc (pending_sid s))
     else k + unat (rcrrp_count s) = unat (rcrrp_limit cfg)
       \<and> tr s' = tr s @ replicate k (pending_nrc (pending_sid s)) @ [ESend [0x7F, pending_sid s, 0x22]])"
proof (induction ts arbitrary: s)
  case Nil
  then show ?case by (auto simp: word_le_nat_alt intro!: exI [of _ 0])
next
  case (Cons now ts)
  obtain r t where t: "p2_tick cfg now s = Some (r, t)" "wfm cfg t" "pending_sid t = pending_sid s" and
    d: "t = s \<or> (rcrrp_count s < rcrrp_limit cfg \<and> p2_msg_pending t \<and> rcrrp_count t = rcrrp_count s + 1
        \<and> tr t = tr s @ [pending_nrc (pending_sid s)])
     \<or> (rcrrp_count s = rcrrp_limit cfg \<and> \<not> p2_msg_pending t
        \<and> tr t = tr s @ [ESend [0x7F, pending_sid s, 0x22]])"
    using p2_tick_pending [OF assms(1) Cons.prems(1,2) assms(2) Cons.prems(3), of now] by auto
  from d show ?case
  proof (elim disjE conjE)
    assume "t = s"
    then show ?thesis using Cons t by simp
  next
    assume a: "rcrrp_count s < rcrrp_limit cfg" "p2_msg_pending t" "rcrrp_count t = rcrrp_count s + 1"
      "tr t = tr s @ [pending_nrc (pending_sid s)]"
    have c: "unat (rcrrp_count t) = Suc (unat (rcrrp_count s))"
      using a(1,3) u16_less [of "rcrrp_limit cfg"]
      by (simp add: word_less_nat_alt unat_word_ariths del: u16_less)
    then have "rcrrp_count t \<le> rcrrp_limit cfg" using a(1) by (simp add: word_le_nat_alt word_less_nat_alt)
    from Cons.IH [OF t(2) a(2) this] obtain s' k where
      "p2_run cfg ts t = Some s'" "k + unat (rcrrp_count t) \<le> unat (rcrrp_limit cfg)"
      "if p2_msg_pending s' then tr s' = tr t @ replicate k (pending_nrc (pending_sid t))
       else k + unat (rcrrp_count t) = unat (rcrrp_limit cfg)
       \<and> tr s' = tr t @ replicate k (pending_nrc (pending_sid t)) @ [ESend [0x7F, pending_sid t, 0x22]]" by blast
    then show ?thesis using t a c by (auto intro!: exI [of _ "Suc k"])
  next
    assume "rcrrp_count s = rcrrp_limit cfg" "\<not> p2_msg_pending t" "tr t = tr s @ [ESend [0x7F, pending_sid s, 0x22]]"
    then show ?thesis using t by (auto simp: p2_run_quiet intro!: exI [of _ 0])
  qed
qed



end
