(* ===== verification/Uds_System.thy ===== *)
theory Uds_System
  imports Uds_Timing
begin

text \<open>
  The stack as a whole: the machine that \<open>uds_init\<close> sets up, and every sequence of calls of
  the public functions that an application can make after that, interleaved with changes of
  the application's own state. The invariants of the single calls become invariants of every
  reachable machine.
\<close>

section \<open>Initialisation\<close>

text \<open>
  The saved state that \<open>fn_nvm_load\<close> may return: nothing, or a session that exists and a
  level the access checks can shift by.
\<close>

definition nvm_ok :: "'w config \<Rightarrow> bool" where
  "nvm_ok cfg \<longleftrightarrow> (\<forall>f c w. fn_nvm_load cfg = Some f \<longrightarrow>
     length (snd (fst (f c w 2))) \<le> 2 \<and>
     (fst (fst (f c w 2)) = 2 \<longrightarrow> (\<exists>a b. snd (fst (f c w 2)) = [a, b]
        \<and> a \<in> {UDS_SESSION_ID_DEFAULT, UDS_SESSION_ID_PROGRAMMING, UDS_SESSION_ID_EXTENDED}
        \<and> (did_secured cfg \<longrightarrow> unat b < 32))))"

text \<open>The memory the application provides: the transmit buffer and the storage of its data.\<close>

definition memory_ok :: "'w config \<Rightarrow> 'w machine \<Rightarrow> bool" where
  "memory_ok cfg s \<longleftrightarrow> \<not> ctx_null s \<and> length (tx_buf s) = unat (tx_buffer_size cfg)
     \<and> (\<forall>e \<in> set (did_table cfg). \<forall>a. did_storage e = Some a \<longrightarrow>
          unat (did_size e) \<le> length (did_store s a))"

lemma wfm_reset_ctx: "memory_ok cfg s \<Longrightarrow> wfm cfg (reset_ctx cfg s)"
  by (simp add: reset_ctx_def Let_def memory_ok_def wfm_def)

lemma reset_ctx_fields:
  "active_session (reset_ctx cfg s) = 1" "security_level (reset_ctx cfg s) = 0"
  "p2_msg_pending (reset_ctx cfg s) = False" "pending_sid (reset_ctx cfg s) = 0"
  "flash_sequence (reset_ctx cfg s) = 0" "security_attempts (reset_ctx cfg s) = 0"
  "security_delay_end (reset_ctx cfg s) = 0" "periodic_count (reset_ctx cfg s) = 0"
  "suppress_pos_resp (reset_ctx cfg s) = False" "tr (reset_ctx cfg s) = tr s"
  "rcrrp_count (reset_ctx cfg s) = 0"
  "p2_ms (reset_ctx cfg s) = (let p2 = (if cfg_p2_ms cfg = 0 then 50 else cfg_p2_ms cfg)
     in if strict_compliance cfg then max 20 p2 else p2)"
  "p2_star_ms (reset_ctx cfg s) = (let p2 = (if cfg_p2_star_ms cfg = 0 then 5000 else cfg_p2_star_ms cfg)
     in if strict_compliance cfg then max 1000 p2 else p2)"
  by (auto simp: reset_ctx_def Let_def max_def not_le word_gt_0)

text \<open>What \<open>uds_init\<close> leaves behind: \<open>session\<close> and \<open>level\<close> are 1 and 0 or the saved ones.\<close>

definition fresh :: "'w config \<Rightarrow> u8 \<Rightarrow> u8 \<Rightarrow> 'w machine \<Rightarrow> 'w machine \<Rightarrow> bool" where
  "fresh cfg session level s0 s \<longleftrightarrow> wfm cfg s \<and> active_session s = session \<and> security_level s = level
     \<and> \<not> p2_msg_pending s \<and> pending_sid s = 0 \<and> flash_sequence s = 0 \<and> security_attempts s = 0
     \<and> security_delay_end s = 0 \<and> periodic_count s = 0 \<and> rcrrp_count s = 0 \<and> \<not> suppress_pos_resp s
     \<and> p2_ms s = p2_ms (reset_ctx cfg s0) \<and> p2_star_ms s = p2_star_ms (reset_ctx cfg s0)
     \<and> (\<exists>evs. tr s = tr s0 @ evs \<and> sent evs = [] \<and> lock_ops evs = [])"

lemma fresh_log [simp]: "fresh cfg a b s0 s \<Longrightarrow> fresh cfg a b s0 (uds_internal_log cfg l m s)"
proof -
  assume a: "fresh cfg a b s0 s"
  have w: "wfm cfg (uds_internal_log cfg l m s)" using a
    by (auto simp: fresh_def uds_internal_log_def split: option.splits)
  have "\<exists>evs. tr (uds_internal_log cfg l m s) = tr s0 @ evs \<and> sent evs = [] \<and> lock_ops evs = []"
    using a by (auto simp: fresh_def uds_internal_log_def emit_def split: option.splits)
  with w a show ?thesis by (simp add: fresh_def)
qed

lemma fresh_reset: "memory_ok cfg s \<Longrightarrow> fresh cfg 1 0 s (reset_ctx cfg s)"
  by (simp add: fresh_def wfm_reset_ctx reset_ctx_fields)

lemma fresh_loaded:
  assumes "fresh cfg 1 0 s0 s" "a \<in> {1, 2, 3}" "did_secured cfg \<longrightarrow> unat b < 32"
  shows "fresh cfg a b s0 ((snd (called HNvmLoad rw s))\<lparr>active_session := a, security_level := b\<rparr>)"
  using assms by (auto simp: fresh_def wfm_def)

lemma fresh_called: "fresh cfg a b s0 s \<Longrightarrow> fresh cfg a b s0 (snd (called h rw s))"
  by (auto simp: fresh_def wfm_def)

lemma ok_load_state:
  assumes "nvm_ok cfg" "fresh cfg 1 0 s0 s"
  shows "ok (load_state cfg s) (\<lambda>s'. \<exists>a b. fresh cfg a b s0 s'
     \<and> (fn_nvm_load cfg = None \<longrightarrow> a = 1 \<and> b = 0))"
proof (cases "fn_nvm_load cfg")
  case None
  then show ?thesis using assms(2) by (auto simp: load_state_def)
next
  case (Some f)
  obtain r out w where f: "f (ctx_view s) (app s) 2 = ((r, out), w)" by (metis surj_pair)
  have l: "length out \<le> 2" using assms(1) Some f unfolding nvm_ok_def
    by (metis fst_conv snd_conv)
  show ?thesis
  proof (cases "r = 2")
    case True
    then obtain a b where ab: "out = [a, b]" "a \<in> {1, 2, 3}" "did_secured cfg \<longrightarrow> unat b < 32"
      using assms(1) Some f unfolding nvm_ok_def by (metis fst_conv snd_conv)
    let ?t = "uds_internal_log cfg UDS_LOG_INFO ''NVM State Loaded''
      ((snd (called HNvmLoad ((r, out), w) s))\<lparr>active_session := a, security_level := b\<rparr>)"
    have "load_state cfg s = Some ?t"
      using Some True ab(1) by (simp add: load_state_def Let_def f blit_Some case_prod_beta)
    moreover have "fresh cfg a b s0 ?t" by (rule fresh_log [OF fresh_loaded [OF assms(2) ab(2,3)]])
    ultimately show ?thesis using Some by auto
  next
    case False
    then have "load_state cfg s = Some (snd (called HNvmLoad ((r, out), w) s))"
      using Some l by (simp add: load_state_def Let_def f blit_Some case_prod_beta)
    moreover have "fresh cfg 1 0 s0 (snd (called HNvmLoad ((r, out), w) s))"
      by (rule fresh_called [OF assms(2)])
    ultimately show ?thesis using Some by (simp only: ok_Some) blast
  qed
qed

lemma ok_init:
  assumes "compliant cfg" "rx_buffer cfg" "nvm_ok cfg" "memory_ok cfg s"
  shows "ok (uds_init (Some cfg) s) (\<lambda>(r, s'). r = 0 \<and> (\<exists>a b. fresh cfg a b s s'
     \<and> (fn_nvm_load cfg = None \<longrightarrow> a = 1 \<and> b = 0)))"
proof -
  note b = compliant_basic [OF assms(1)]
  have "\<not> ctx_null s" using assms(4) by (simp add: memory_ok_def)
  moreover have "fresh cfg 1 0 s (uds_internal_log cfg 1 ''UDS Stack Initialized''
      (if strict_compliance cfg then uds_internal_log cfg 1
        ''Strict Compliance: Enforcing minimum P2/P2* durations'' (reset_ctx cfg s) else reset_ctx cfg s))"
    using fresh_reset [OF assms(4)] by simp
  ultimately show ?thesis using b assms(2)
    by (auto simp: uds_init_def Let_def intro!: ok_mono [OF ok_load_state [OF assms(3)]] split del: if_split)
qed


section \<open>Steps of the application\<close>

text \<open>
  What an application can do with an initialised context: feed a request or nothing, run the
  timers, send a request of its own, answer a pending request by writing the transmit buffer
  and calling one of the two send functions, change its own state and, as the transport does
  when it assembles a request, the receive buffer.
\<close>

inductive uds_step :: "'w config \<Rightarrow> 'w callbacks \<Rightarrow> 'w machine \<Rightarrow> 'w machine \<Rightarrow> bool"
  for cfg cbs where
  input: "length d < 65536 \<Longrightarrow> uds_input_sdu cfg cbs (Some d) s = Some s' \<Longrightarrow> uds_step cfg cbs s s'"
| no_input: "uds_input_sdu cfg cbs None s = Some s' \<Longrightarrow> uds_step cfg cbs s s'"
| process: "uds_process cfg s = Some s' \<Longrightarrow> uds_step cfg cbs s s'"
| request: "length d = unat len \<Longrightarrow> uds_client_request cfg sid (Some d) len cb s = Some (r, s') \<Longrightarrow>
    uds_step cfg cbs s s'"
| respond: "length b = length (tx_buf s) \<Longrightarrow>
    uds_send_response cfg n (s\<lparr>tx_buf := b\<rparr>) = Some (r, s') \<Longrightarrow> uds_step cfg cbs s s'"
| refuse: "uds_send_nrc cfg sid nrc s = Some (r, s') \<Longrightarrow> uds_step cfg cbs s s'"
| world: "uds_step cfg cbs s (s\<lparr>app := w, rx_buf := b\<rparr>)"

inductive_cases uds_stepE: "uds_step cfg cbs s s'"

text \<open>The part of the stack's contract that every step keeps.\<close>

definition stepped :: "'w config \<Rightarrow> 'w machine \<Rightarrow> 'w machine \<Rightarrow> bool" where
  "stepped cfg s0 s \<longleftrightarrow> wfm cfg s \<and> (\<exists>evs. tr s = tr s0 @ evs \<and> keyed s0 evs s
     \<and> (lock_ops evs = [] \<or> lock_ops evs = locks cfg @ unlocks cfg
         \<or> rcrrp_limit cfg \<noteq> 0 \<and> lock_ops evs = locks cfg))"

lemma kept_stepped: "kept cfg s0 s \<Longrightarrow> stepped cfg s0 s"
  by (auto simp: kept_def stepped_def)

lemma served_once_stepped: "served_once cfg sid s0 s \<Longrightarrow> stepped cfg s0 s"
  by (auto simp: served_once_def stepped_def)

lemma kept_unlock: "kept cfg (mutex_lock cfg s0) s \<Longrightarrow> stepped cfg s0 (mutex_unlock cfg s)"
  by (auto simp: kept_def stepped_def tr_mutex_lock tr_mutex_unlock keyed_def)

lemma wfm_receive [simp]: "wfm cfg (s\<lparr>app := w, rx_buf := b\<rparr>) = wfm cfg s"
  by (simp add: wfm_def)

lemma kept_receive: "wfm cfg s \<Longrightarrow> kept cfg s (s\<lparr>app := w, rx_buf := b\<rparr>)"
  by (simp add: kept_def keyed_def)

lemma ok_no_input:
  "wfm cfg s \<Longrightarrow> d = None \<or> d = Some [] \<Longrightarrow> ok (uds_input_sdu cfg cbs d s) (stepped cfg s)"
  using wfm_basic [of cfg s]
  by (auto simp: uds_input_sdu_def Let_def intro!: kept_unlock) (simp_all add: kept_refl)

lemma ok_send_response_kept:
  assumes "compliant cfg" "kept cfg s0 s"
  shows "ok (uds_send_response cfg n s) (\<lambda>r. kept cfg s0 (snd r))"
proof -
  have w: "wfm cfg s" using assms(2) by (simp add: kept_def)
  have f: "kept cfg s0 (s\<lparr>p2_msg_pending := b\<rparr>) = kept cfg s0 s"
    "kept cfg s0 (s\<lparr>suppress_pos_resp := b\<rparr>) = kept cfg s0 s" for s b
    by (simp_all add: kept_def keyed_def)
  show ?thesis using assms wfm_basic [OF w] compliant_basic [OF assms(1)]
    by (auto simp: uds_send_response_def Let_def f word_less_nat_alt not_less
        intro!: ok_tp_send_kept [OF assms(1), of s0])
qed

lemma ok_client_request_stepped:
  assumes "compliant cfg" "wfm cfg s" "length d = unat len"
  shows "ok (uds_client_request cfg sid (Some d) len cb s) (\<lambda>r. stepped cfg s (snd r))"
proof (cases "unat len + 1 > unat (tx_buffer_size cfg)")
  case True
  then show ?thesis using wfm_basic [OF assms(2)] compliant_basic [OF assms(1)]
    by (simp add: uds_client_request_def kept_stepped kept_refl assms(2))
next
  case False
  let ?s = "(mutex_lock cfg s)\<lparr>pending_sid := sid, client_cb := cb\<rparr>"
  note b = wfm_basic [OF assms(2)] compliant_basic [OF assms(1)]
  obtain x xs where t: "tx_buf s = x # xs" using b by (cases "tx_buf s") auto
  have k: "kept cfg (mutex_lock cfg s) (?s\<lparr>tx_buf := bs\<rparr>)" if "length bs = length (tx_buf s)" for bs
    using that assms(2) by (simp add: kept_def keyed_def)
  have "ok (tp_send cfg (unat len + 1) (?s\<lparr>tx_buf := bs\<rparr>)) (\<lambda>r. stepped cfg s (mutex_unlock cfg (snd r)))"
    if "length bs = length (tx_buf s)" for bs
    by (rule ok_mono [OF ok_tp_send_kept [OF assms(1) k [OF that]] kept_unlock])
       (use that b(3) False in simp_all)
  then show ?thesis using False b t assms(3)
    by (auto simp: uds_client_request_def Let_def tx_write_eq bytes_at_ok tx_fill_eq case_prod_beta)
qed

text \<open>
  Everything the invariants of the whole need of the application: compliant callbacks, user
  services with the contract, client callbacks that consume their response, and a periodic
  read.
\<close>

definition system_ok :: "'w config \<Rightarrow> 'w callbacks \<Rightarrow> bool" where
  "system_ok cfg cbs \<longleftrightarrow> app_ok cfg \<and> cbs_ok cfg cbs \<and> periodic_ok cfg"

lemma ok_process_stepped:
  assumes "system_ok cfg cbs" "wfm cfg s"
  shows "ok (uds_process cfg s) (stepped cfg s)"
proof -
  have c: "compliant cfg" "periodic_ok cfg" using assms(1) by (simp_all add: system_ok_def app_ok_def)
  obtain clock where clock: "get_time_ms cfg = Some clock" using compliant_basic(4) [OF c(1)] by auto
  obtain now w where t: "clock (app (mutex_lock cfg s)) = (now, w)" by (metis surj_pair)
  show ?thesis
    by (rule ok_mono [OF ok_process [OF c assms(2) clock t]])
       (auto simp: stepped_def gives_up_def split: if_splits)
qed

lemma step_stepped:
  assumes "system_ok cfg cbs"
  shows "uds_step cfg cbs s s' \<Longrightarrow> wfm cfg s \<Longrightarrow> stepped cfg s s'"
proof (induction rule: uds_step.induct)
  have a: "app_ok cfg" "cbs_ok cfg cbs" and c: "compliant cfg"
    using assms by (simp_all add: system_ok_def app_ok_def)
  case (input d s s')
  then show ?case
    using ok_input_sdu [OF a, of s d] okD [OF ok_no_input [of cfg s "Some d" cbs]]
    by (cases "d = []") (auto intro: served_once_stepped dest: okD)
next
  case (no_input s s')
  then show ?case using okD [OF ok_no_input] by blast
next
  case (process s s')
  then show ?case using okD [OF ok_process_stepped [OF assms]] by blast
next
  case (request d len sid cb s r s')
  have "compliant cfg" using assms by (simp add: system_ok_def app_ok_def)
  with request show ?case using okD [OF ok_client_request_stepped] by fastforce
next
  case (respond b s n r s')
  have c: "compliant cfg" using assms by (simp add: system_ok_def app_ok_def)
  have "kept cfg s (s\<lparr>tx_buf := b\<rparr>)" using respond by (simp add: kept_refl)
  from okD [OF ok_send_response_kept [OF c this] respond(2)] show ?case by (simp add: kept_stepped)
next
  case (refuse sid nrc s r s')
  have c: "compliant cfg" using assms by (simp add: system_ok_def app_ok_def)
  have "working cfg s s" using refuse by simp
  from replied_kept [OF okD [OF ok_send_nrc [OF c this] refuse(1)]] show ?case
    by (simp add: kept_stepped)
next
  case (world s w b)
  then show ?case by (simp add: kept_stepped kept_receive)
qed


section \<open>Reachable machines\<close>

inductive uds_reach :: "'w config \<Rightarrow> 'w callbacks \<Rightarrow> 'w machine \<Rightarrow> 'w machine \<Rightarrow> bool"
  for cfg cbs s0 where
  boot: "uds_init (Some cfg) s0 = Some (UDS_OK, s) \<Longrightarrow> uds_reach cfg cbs s0 s"
| step: "uds_reach cfg cbs s0 s \<Longrightarrow> uds_step cfg cbs s s' \<Longrightarrow> uds_reach cfg cbs s0 s'"

definition platform_ok :: "'w config \<Rightarrow> 'w callbacks \<Rightarrow> 'w machine \<Rightarrow> bool" where
  "platform_ok cfg cbs s0 \<longleftrightarrow> system_ok cfg cbs \<and> rx_buffer cfg \<and> nvm_ok cfg \<and> memory_ok cfg s0"

lemma platform_compliant: "platform_ok cfg cbs s0 \<Longrightarrow> compliant cfg"
  by (simp add: platform_ok_def system_ok_def app_ok_def)

lemma boot_fresh:
  assumes "platform_ok cfg cbs s0" "uds_init (Some cfg) s0 = Some (UDS_OK, s)"
  shows "\<exists>a b. fresh cfg a b s0 s \<and> (fn_nvm_load cfg = None \<longrightarrow> a = 1 \<and> b = 0)"
  using okD [OF ok_init assms(2)] assms(1) platform_compliant [OF assms(1)]
  by (auto simp: platform_ok_def)

lemma reach_wfm:
  assumes "platform_ok cfg cbs s0"
  shows "uds_reach cfg cbs s0 s \<Longrightarrow> wfm cfg s"
proof (induction rule: uds_reach.induct)
  case (boot s)
  then show ?case using boot_fresh [OF assms] by (auto simp: fresh_def)
next
  case (step s s')
  then show ?case using step_stepped [of cfg cbs s s'] assms by (auto simp: platform_ok_def stepped_def)
qed

lemma reach_stepped:
  assumes "platform_ok cfg cbs s0" "uds_reach cfg cbs s0 s" "uds_step cfg cbs s s'"
  shows "stepped cfg s s'"
  using step_stepped [OF _ assms(3)] reach_wfm [OF assms(1,2)] assms(1) by (auto simp: platform_ok_def)

text \<open>The level of the server is 0 or one for which a key was accepted.\<close>

definition level_earned :: "'w machine \<Rightarrow> bool" where
  "level_earned s \<longleftrightarrow> security_level s = 0 \<or> (\<exists>k. EHook (HKey (security_level s) k 0) \<in> set (tr s))"

lemma level_earned_step: "stepped cfg s s' \<Longrightarrow> level_earned s \<Longrightarrow> level_earned s'"
  by (auto simp: stepped_def level_earned_def keyed_def)

definition balanced :: "'w config \<Rightarrow> event list \<Rightarrow> bool" where
  "balanced cfg evs \<longleftrightarrow> (\<exists>n. lock_ops evs = concat (replicate n (locks cfg @ unlocks cfg)))"

lemma balanced_append: "balanced cfg es \<Longrightarrow> balanced cfg fs \<Longrightarrow> balanced cfg (es @ fs)"
  unfolding balanced_def by (metis lock_ops_append replicate_add concat_append)

lemma balanced_step: "rcrrp_limit cfg = 0 \<Longrightarrow> stepped cfg s s' \<Longrightarrow> \<exists>evs. tr s' = tr s @ evs \<and> balanced cfg evs"
proof -
  assume "rcrrp_limit cfg = 0" "stepped cfg s s'"
  then obtain evs where "tr s' = tr s @ evs" "lock_ops evs = [] \<or> lock_ops evs = locks cfg @ unlocks cfg"
    by (auto simp: stepped_def)
  moreover from this have "lock_ops evs = concat (replicate 0 (locks cfg @ unlocks cfg))
      \<or> lock_ops evs = concat (replicate 1 (locks cfg @ unlocks cfg))" by simp
  ultimately show ?thesis unfolding balanced_def by blast
qed

section \<open>Without services that ask for time nothing is ever pending\<close>

context immediate_service
begin

lemma execute_settles:
  assumes "compliant cfg" "working cfg s0 s" "min_len \<le> length data" "length data < 65536"
    "data ! 0 = sid" "svc_handler e = handler"
  shows "ok (execute_handler cfg e data s) (\<lambda>r. p2_msg_pending (snd r) \<longrightarrow> p2_msg_pending s0)"
proof -
  have "ok (handler data s) (replied cfg sid s)"
    using assms by (intro replies working_wfm [of cfg s0])
  then show ?thesis using assms(2)
    by (auto simp: execute_handler_def assms(6) working_def replied_def answered_def ok_iff)
qed

end

definition immediate :: "'w config \<Rightarrow> 'w service_entry \<Rightarrow> bool" where
  "immediate cfg e \<longleftrightarrow> immediate_service cfg (svc_sid e) (unat (svc_min_len e)) (svc_handler e)"

lemmas immediate_contracts =
  session_control.immediate_service_axioms tester_present.immediate_service_axioms
  security_access.immediate_service_axioms authentication.immediate_service_axioms
  ecu_reset.immediate_service_axioms comm_control.immediate_service_axioms
  clear_dtc.immediate_service_axioms read_dtc_info.immediate_service_axioms
  control_dtc_setting.immediate_service_axioms read_data_by_id.immediate_service_axioms
  write_data_by_id.immediate_service_axioms periodic_read.immediate_service_axioms
  routine_control.immediate_service_axioms request_download.immediate_service_axioms
  transfer_data.immediate_service_axioms request_transfer_exit.immediate_service_axioms
  request_upload.immediate_service_axioms read_memory_by_addr.immediate_service_axioms
  write_memory_by_addr.immediate_service_axioms io_control.immediate_service_axioms

lemma core_immediate: "e \<in> set (core_services cfg) \<Longrightarrow> immediate cfg e"
  by (auto simp: core_services_def core_service_def immediate_def immediate_contracts simp del: One_nat_def)

lemma find_service_immediate:
  assumes "\<forall>e \<in> set (user_services cfg). immediate cfg e" "find_service cfg sid = Some e"
  shows "immediate cfg e"
  using assms by (auto simp: find_service_def find_Some_iff core_immediate nth_mem split: option.splits)

lemma nrc_settles:
  "compliant cfg \<Longrightarrow> working cfg s0 s \<Longrightarrow>
   ok (nrc_and_return cfg sid nrc s) (\<lambda>s'. p2_msg_pending s' \<longrightarrow> p2_msg_pending s0)"
  by (auto simp: nrc_and_return_def replied_def answered_def intro!: ok_mono [OF ok_send_nrc])

lemma handle_request_settles:
  assumes "app_ok cfg" "\<forall>e \<in> set (user_services cfg). immediate cfg e"
    and w: "working cfg s0 s" "length data < 65536" "data \<noteq> []"
  shows "ok (handle_request cfg data s) (\<lambda>s'. p2_msg_pending s' \<longrightarrow> p2_msg_pending s0)"
proof -
  have c: "compliant cfg" using assms(1) by (simp add: app_ok_def)
  have sub: "ok (is_subfunction_supported e (x AND UDS_MASK_SUBFUNCTION)) P"
    if "find_service cfg (data ! 0) = Some e" "\<And>b. P b" for e x P
    using is_subfunction_supported_ok [OF find_service_served [OF assms(1) that(1)], of x] that(2)
    by auto
  have ex: "ok (check_and_execute cfg e (data ! 0) data t) (\<lambda>s'. p2_msg_pending s' \<longrightarrow> p2_msg_pending s0)"
    if e: "find_service cfg (data ! 0) = Some e" and t: "working cfg s0 t" for e t
  proof -
    have i: "immediate_service cfg (data ! 0) (unat (svc_min_len e)) (svc_handler e)"
      using find_service_immediate [OF assms(2) e] find_service_sid [OF e] by (simp add: immediate_def)
    show ?thesis using t c w
      by (auto simp: check_and_execute_def Let_def case_prod_beta split: option.splits
          intro!: ok_if nrc_settles ok_mono [OF immediate_service.execute_settles [OF i]])
  qed
  show ?thesis using w c
    by (auto simp: handle_request_def uds_exec split: option.splits
        intro!: ok_if nrc_settles ex sub)
qed


lemma working_time: "working cfg s0 s \<Longrightarrow> time_now cfg s = Some (t, s') \<Longrightarrow> working cfg s0 s'"
  by (auto simp: time_now_def split: option.splits)

lemma input_settles:
  assumes a: "app_ok cfg" "cbs_ok cfg cbs" "\<forall>e \<in> set (user_services cfg). immediate cfg e"
    and s: "wfm cfg s" "\<not> p2_msg_pending s" "length d < 65536"
    and i: "uds_input_sdu cfg cbs (Some d) s = Some s'"
  shows "\<not> p2_msg_pending s'"
proof (cases "d = []")
  case True
  then show ?thesis using s i wfm_basic [OF s(1)] by (auto simp: uds_input_sdu_def Let_def)
next
  case False
  have "compliant cfg" using a(1) by (simp add: app_ok_def)
  from compliant_basic(4) [OF this] obtain clock where clock: "get_time_ms cfg = Some clock" by auto
  obtain now t where t: "time_now cfg (mutex_lock cfg s) = Some (now, t)"
    by (simp add: time_now_def clock)
  let ?t = "t\<lparr>last_msg_time := now\<rparr>"
  have wt: "wfm cfg ?t" "\<not> p2_msg_pending ?t"
    using t s by (auto simp: time_now_def split: option.splits)
  have d: "\<not> p2_msg_pending t'" if "dispatch cfg d ?t = Some t'" for t'
  proof -
    obtain n u where u: "time_now cfg ?t = Some (n, u)" by (simp add: time_now_def clock)
    let ?u = "u\<lparr>p2_timer_start := n, p2_msg_pending := False, p2_star_active := False, rcrrp_count := 0\<rparr>"
    have "wfm cfg ?u" using u wt by (auto simp: time_now_def split: option.splits)
    then have "ok (handle_request cfg d ?u) (\<lambda>s'. p2_msg_pending s' \<longrightarrow> p2_msg_pending ?u)"
      by (intro handle_request_settles [OF a(1,3) _ s(3) False]) simp
    then show ?thesis using that u by (auto simp: dispatch_def)
  qed
  have cb: "ok (cbs n x e ?t) (\<lambda>u. \<not> p2_msg_pending u)" for n x e
  proof -
    have "ok (cbs n x e ?t) (working cfg ?t)" using a(2) wt(1) by (simp add: cbs_ok_def)
    then show ?thesis by (rule ok_mono) (use wt in \<open>auto simp: working_def\<close>)
  qed
  have "ok (client_response cbs d ?t) (\<lambda>u. \<not> p2_msg_pending u)"
    using wt False by (auto simp: client_response_def uds_exec split: option.splits intro!: ok_mono [OF cb])
  then have c: "\<not> p2_msg_pending t'" if "client_response cbs d ?t = Some t'" for t'
    using that by simp
  show ?thesis using i t d c wfm_basic [OF s(1)] False wt
    by (auto simp: uds_input_sdu_def Let_def bind_eq_Some_conv route_def split: if_splits)
qed

lemma process_settles:
  assumes "\<not> p2_msg_pending s" "uds_process cfg s = Some s'"
  shows "\<not> p2_msg_pending s'"
  using assms
  by (auto simp: uds_process_def Let_def bind_eq_Some_conv p2_tick_def s3_tick_def time_now_def
      dest!: periodic_scheduler_fields split: if_splits option.splits)

lemma step_settles:
  assumes a: "app_ok cfg" "cbs_ok cfg cbs" "\<forall>e \<in> set (user_services cfg). immediate cfg e"
  shows "uds_step cfg cbs s s' \<Longrightarrow> wfm cfg s \<Longrightarrow> \<not> p2_msg_pending s \<Longrightarrow> \<not> p2_msg_pending s'"
proof (induction rule: uds_step.induct)
  case (input d s s')
  then show ?case using input_settles [OF a] by blast
next
  case (process s s')
  then show ?case using process_settles by blast
qed (auto simp: uds_input_sdu_def uds_client_request_def uds_send_response_def uds_send_nrc_def
       Let_def bind_eq_Some_conv tx_write_def tx_fill_def dest!: tp_send_fields split: if_splits)

lemma reach_settled:
  assumes "platform_ok cfg cbs s0" "\<forall>e \<in> set (user_services cfg). immediate cfg e"
  shows "uds_reach cfg cbs s0 s \<Longrightarrow> \<not> p2_msg_pending s"
proof (induction rule: uds_reach.induct)
  case (boot s)
  then show ?case using boot_fresh [OF assms(1)] by (auto simp: fresh_def)
next
  case (step s s')
  then show ?case using step_settles [of cfg cbs s s'] reach_wfm [OF assms(1)] assms
    by (auto simp: platform_ok_def system_ok_def)
qed

section \<open>An application to run the properties on\<close>

text \<open>The clock application with a periodic read and a key check that accepts every key.\<close>

definition key_config :: "u32 config" where
  "key_config = clock_config\<lparr>fn_periodic_read := Some (\<lambda>c w i n. ((0, []), w)),
     fn_security_key := Some (\<lambda>c w l k. (0, w))\<rparr>"

lemma key_fields:
  "get_time_ms key_config = Some (\<lambda>w. (w, w))" "fn_tp_send key_config = Some (\<lambda>c w bs. (0, w))"
  "tx_buffer key_config" "rx_buffer key_config" "tx_buffer_size key_config = 64"
  "fn_security_key key_config = Some (\<lambda>c w l k. (0, w))" "did_table key_config = []"
  "user_services key_config = []" "fn_nvm_load key_config = None" "fn_nvm_save key_config = None"
  "fn_log key_config = None" "rcrrp_limit key_config = 0" "strict_compliance key_config = False"
  "fn_is_safe key_config = None" "fn_mutex_lock key_config = None" "fn_mutex_unlock key_config = None"
  "cfg_p2_ms key_config = 50" "cfg_p2_star_ms key_config = 5000"
  by (simp_all add: key_config_def clock_fields)

lemma key_platform: "platform_ok key_config no_callbacks (base_machine 0)"
proof -
  have "compliant key_config"
    using clock_compliant by (simp add: key_config_def compliant_def did_secured_def clock_fields)
  then show ?thesis
    by (simp add: platform_ok_def system_ok_def app_ok_def no_callbacks_ok nvm_ok_def memory_ok_def
        key_fields machine_fields) (simp add: periodic_ok_def key_config_def)
qed

definition key_boot :: "u32 machine" where
  "key_boot = reset_ctx key_config (base_machine 0)"

lemma key_boot: "uds_init (Some key_config) (base_machine 0) = Some (UDS_OK, key_boot)"
  by (simp add: uds_init_def key_fields machine_fields key_boot_def load_state_def uds_internal_log_def Let_def)

lemma key_input:
  "\<exists>s. uds_input_sdu key_config no_callbacks (Some [0x27, 0x02, 0xAB]) key_boot = Some s
     \<and> security_level s = 1 \<and> tr s = [EHook (HKey 1 [0xAB] 0), ESend [0x67, 0x02]]"
  by (simp add: uds_input_sdu_def key_boot_def reset_ctx_def Let_def machine_fields key_fields mutex_lock_def
      mutex_unlock_def time_now_def route_def dispatch_def handle_request_def byte_at_def find_service_def
      core_services_def core_service_def is_session_supported_def get_session_bit_def is_subfunction_supported_def
      UDS_MASK_SUB_27_def check_and_execute_def execute_handler_def uds_internal_handle_security_access_def
      send_key_def called_def emit_def save_state_def tx_write_def uds_send_response_def tp_send_def buffer_64)

lemma key_reach:
  "\<exists>s. uds_reach key_config no_callbacks (base_machine 0) s
     \<and> security_level s = 1 \<and> tr s = [EHook (HKey 1 [0xAB] 0), ESend [0x67, 0x02]]"
proof -
  obtain s where "uds_input_sdu key_config no_callbacks (Some [0x27, 0x02, 0xAB]) key_boot = Some s"
    "security_level s = 1" "tr s = [EHook (HKey 1 [0xAB] 0), ESend [0x67, 0x02]]"
    using key_input by blast
  then show ?thesis
    using uds_reach.step [OF uds_reach.boot [OF key_boot] uds_step.input [of "[0x27, 0x02, 0xAB]"]] by auto
qed

lemma reach_earned:
  assumes "platform_ok cfg cbs s0" "fn_nvm_load cfg = None"
  shows "uds_reach cfg cbs s0 s \<Longrightarrow> level_earned s"
proof (induction rule: uds_reach.induct)
  case (boot s)
  then show ?case using boot_fresh [OF assms(1)] assms(2) by (auto simp: fresh_def level_earned_def)
next
  case (step s s')
  then show ?case using level_earned_step [OF reach_stepped [OF assms(1)]] by blast
qed

section \<open>Properties\<close>







text \<open>
  C22: the lock. Without a repetition limit for ResponsePending, every reachable trace takes
  and releases the mutex strictly in turn, as one pair for each call that needs it.
\<close>

theorem locks_balanced:
  assumes "platform_ok cfg cbs s0" "rcrrp_limit cfg = 0" "uds_reach cfg cbs s0 s"
  shows "\<exists>evs n. tr s = tr s0 @ evs \<and> lock_ops evs = concat (replicate n (locks cfg @ unlocks cfg))"
proof -
  have "\<exists>evs. tr s = tr s0 @ evs \<and> balanced cfg evs"
    using assms(3)
  proof (induction rule: uds_reach.induct)
    case (boot s)
    then obtain evs where "tr s = tr s0 @ evs" "lock_ops evs = []"
      using boot_fresh [OF assms(1)] by (auto simp: fresh_def)
    then show ?case by (auto simp: balanced_def intro!: exI [of _ 0])
  next
    case (step s s')
    then show ?case
      using balanced_step [OF assms(2) reach_stepped [OF assms(1) step.hyps]] balanced_append by fastforce
  qed
  then show ?thesis by (auto simp: balanced_def)
qed

theorem locks_balanced_witness:
  "\<exists>s n. uds_reach key_config no_callbacks (base_machine 0) s \<and> security_level s = 1
    \<and> lock_ops (tr s) = concat (replicate n (locks key_config @ unlocks key_config))"
proof -
  obtain s where s: "uds_reach key_config no_callbacks (base_machine 0) s" "security_level s = 1"
    using key_reach by blast
  then show ?thesis using locks_balanced [OF key_platform key_fields(12) s(1)] by (auto simp: machine_fields)
qed

text \<open>
  The library's own services never ask for time. With no user service, or only ones that
  keep the same contract, no reachable machine has a request pending, so the ResponsePending
  machinery is reachable through user services alone.
\<close>

lemma never_pending:
  assumes "platform_ok cfg cbs s0" "\<forall>e \<in> set (user_services cfg). immediate cfg e" "uds_reach cfg cbs s0 s"
  shows "\<not> p2_msg_pending s"
  by (rule reach_settled [OF assms])

lemma never_pending_example:
  "\<exists>s. uds_reach key_config no_callbacks (base_machine 0) s \<and> security_level s = 1 \<and> \<not> p2_msg_pending s"
proof -
  obtain s where s: "uds_reach key_config no_callbacks (base_machine 0) s" "security_level s = 1"
    using key_reach by blast
  then show ?thesis using never_pending [OF key_platform _ s(1)] by (auto simp: key_fields)
qed

end
