(* ===== verification/Uds_Access.thy ===== *)
theory Uds_Access
  imports Uds_System
begin

text \<open>
  Who may do what: the session a client has opened and the security level it has reached.
  What DiagnosticSessionControl changes, the abstract lock behind SecurityAccess with its
  attempt counter and delay, and the bound this lock puts on guessing keys.
\<close>

section \<open>Session control\<close>

lemma buffer_prefix:
  assumes "compliant cfg" "wfm cfg s"
  obtains x0 x1 x2 x3 x4 x5 xs where "tx_buf s = x0 # x1 # x2 # x3 # x4 # x5 # xs"
proof -
  have "10 \<le> length (tx_buf s)" using wfm_basic [OF assms(2)] compliant_basic [OF assms(1)] by simp
  then show ?thesis using that
    by (cases "tx_buf s" rule: list.exhaust; cases "tl (tx_buf s)"; cases "tl (tl (tx_buf s))";
        cases "tl (tl (tl (tx_buf s)))"; cases "tl (tl (tl (tl (tx_buf s))))";
        cases "tl (tl (tl (tl (tl (tx_buf s)))))") auto
qed

text \<open>The two response times a server reports, with the defaults of the code.\<close>

definition reported_p2 :: "'w config \<Rightarrow> u16" where
  "reported_p2 cfg = (if p2_server_max cfg = 0 then 50 else p2_server_max cfg)"

definition reported_p2_star :: "'w config \<Rightarrow> u16" where
  "reported_p2_star cfg = (if p2_star_server_max cfg = 0 then 5000 else p2_star_server_max cfg) div 10"

definition saved :: "'w config \<Rightarrow> u8 \<Rightarrow> u8 \<Rightarrow> hook list" where
  "saved cfg session level = (if fn_nvm_save cfg = None then [] else [HNvmSave [session, level]])"

lemma save_state_fields:
  "active_session (save_state cfg s) = active_session s" "security_level (save_state cfg s) = security_level s"
  "security_attempts (save_state cfg s) = security_attempts s"
  "security_delay_end (save_state cfg s) = security_delay_end s"
  "suppress_pos_resp (save_state cfg s) = suppress_pos_resp s"
  "tr (save_state cfg s) = tr s @ map EHook (saved cfg (active_session s) (security_level s))"
  by (simp_all add: save_state_def saved_def Let_def split: option.splits)

lemma hooks_of_map [simp]: "hooks_of (map EHook hs) = hs" "sent (map EHook hs) = []" "lock_ops (map EHook hs) = []"
  by (induction hs) simp_all

lemma ok_session_control:
  assumes "compliant cfg" "wfm cfg s" "2 \<le> length data" "data ! 1 AND UDS_MASK_SUBFUNCTION = x" "x \<in> {1, 2, 3}"
  shows "ok (uds_internal_handle_session_control cfg data s) (\<lambda>(r, s'). r = UDS_OK \<and> active_session s' = x
    \<and> security_level s' = (if x = active_session s \<and> x \<noteq> 1 then security_level s else 0)
    \<and> tr s' = tr s @ (if suppress_pos_resp s then [] else [ESend [0x50, x, hi8 (reported_p2 cfg),
          lo8 (reported_p2 cfg), hi8 (reported_p2_star cfg), lo8 (reported_p2_star cfg)]])
        @ map EHook (saved cfg x (security_level s')))"
proof -
  obtain x0 x1 x2 x3 x4 x5 xs where t: "tx_buf s = x0 # x1 # x2 # x3 # x4 # x5 # xs"
    by (rule buffer_prefix [OF assms(1,2)])
  define bs where "bs = [0x50, x, hi8 (reported_p2 cfg), lo8 (reported_p2 cfg),
    hi8 (reported_p2_star cfg), lo8 (reported_p2_star cfg)]"
  define l where "l = (if active_session s \<noteq> x \<or> x = 1 then 0 else security_level s)"
  define u where "u = s\<lparr>security_level := l, active_session := x, tx_buf := bs @ xs\<rparr>"
  have w: "wfm cfg u" using assms(2,5) t by (auto simp: u_def wfm_def l_def bs_def)
  have l: "(if active_session s \<noteq> x \<or> x = UDS_SESSION_ID_DEFAULT then s\<lparr>security_level := 0\<rparr> else s)
      = s\<lparr>security_level := l\<rparr>" by (simp add: l_def)
  have "uds_internal_handle_session_control cfg data s =
      do { (_, s) \<leftarrow> uds_send_response cfg 6 u; Some (UDS_OK, save_state cfg s) }"
    using assms(3-5) t unfolding uds_internal_handle_session_control_def Let_def
    by (auto simp: uds_exec tx_write_def u_def bs_def reported_p2_def reported_p2_star_def word_gt_0 l_def
        numeral_eq_Suc)
  moreover have "ok (uds_send_response cfg 6 u) (\<lambda>r. fst r \<le> 0 \<and> responded bs u (snd r))"
    using send_response_sent [OF assms(1) w, of 6] compliant_basic [OF assms(1)] by (simp add: u_def bs_def)
  ultimately show ?thesis
    by (auto simp: ok_iff save_state_fields responded_fields)
       (auto simp: u_def l_def bs_def)
qed


section \<open>The lock behind SecurityAccess\<close>

text \<open>
  The abstract lock: the level reached, the wrong keys so far and the time until which every
  request is refused. \<open>try_key\<close> is one SendKey request at time \<open>now\<close>; the boolean tells
  whether the application accepts the key.
\<close>

record lockout =
  lk_level :: u8
  lk_tries :: u8
  lk_until :: u32

datatype key_result = KeyDelayed | KeyAccepted | KeyLocked | KeyRejected

definition try_key :: "u8 \<Rightarrow> u32 \<Rightarrow> u32 \<Rightarrow> bool \<Rightarrow> u8 \<Rightarrow> lockout \<Rightarrow> key_result \<times> lockout" where
  "try_key limit delay now valid level a =
     (if lk_until a \<noteq> 0 \<and> now < lk_until a then (KeyDelayed, a)
      else if valid then (KeyAccepted, a\<lparr>lk_until := 0, lk_level := level, lk_tries := 0\<rparr>)
      else if lk_tries a + 1 \<ge> limit
      then (KeyLocked, a\<lparr>lk_until := now + delay, lk_tries := lk_tries a + 1\<rparr>)
      else (KeyRejected, a\<lparr>lk_until := 0, lk_tries := lk_tries a + 1\<rparr>))"

definition lock_of :: "'w machine \<Rightarrow> lockout" where
  "lock_of s = \<lparr>lk_level = security_level s, lk_tries = security_attempts s, lk_until = security_delay_end s\<rparr>"

text \<open>The answer to each outcome: \<open>res\<close> is what the key callback returned.\<close>

fun key_reply :: "u8 \<Rightarrow> int \<Rightarrow> key_result \<Rightarrow> u8 list" where
  "key_reply raw res KeyDelayed = [0x7F, 0x27, 0x37]"
| "key_reply raw res KeyAccepted = [0x67, raw]"
| "key_reply raw res KeyLocked = [0x7F, 0x27, 0x36]"
| "key_reply raw res KeyRejected = [0x7F, 0x27, if res < 0 then nrc_of_int res else 0x35]"

lemma send_nrc_reply:
  assumes "compliant cfg" "wfm cfg s"
  shows "ok (uds_send_nrc cfg sid nrc s) (\<lambda>r. wfm cfg (snd r) \<and> active_session (snd r) = active_session s
    \<and> lock_of (snd r) = lock_of s \<and> tr (snd r) = tr s @ [ESend [0x7F, sid, nrc]])"
proof (rule ok_mono [OF send_nrc_sent [OF assms]])
  fix r :: "int \<times> 'a machine" assume "nrc_sent sid nrc s (snd r)"
  moreover from this have "wfm cfg (snd r)" using assms(2) by (auto simp: nrc_sent_def)
  ultimately show "wfm cfg (snd r) \<and> active_session (snd r) = active_session s
      \<and> lock_of (snd r) = lock_of s \<and> tr (snd r) = tr s @ [ESend [0x7F, sid, nrc]]"
    by (simp add: nrc_sent_fields lock_of_def)
qed

definition key_calls :: "u8 \<Rightarrow> u8 list \<Rightarrow> int \<Rightarrow> key_result \<Rightarrow> hook list" where
  "key_calls level key res r = (if r = KeyDelayed then [] else [HKey level key res])"

text \<open>What one SendKey request does, once the time is read.\<close>

definition key_step :: "'w config \<Rightarrow> u32 \<Rightarrow> int \<Rightarrow> u8 \<Rightarrow> u8 list \<Rightarrow> 'w machine \<Rightarrow> 'w machine \<Rightarrow> bool" where
  "key_step cfg now res raw key s s' \<longleftrightarrow>
    (let level = (raw AND 0x7F) div 2;
         (out, a) = try_key (max_attempts cfg) (lockout_delay cfg) now (res = 0) level (lock_of s)
     in lock_of s' = a \<and> wfm cfg s' \<and> active_session s' = active_session s
      \<and> tr s' = tr s @ map EHook (key_calls level key res out)
        @ (if out = KeyAccepted then map EHook (saved cfg (active_session s) level) else [])
        @ (if out = KeyAccepted \<and> suppress_pos_resp s then [] else [ESend (key_reply raw res out)]))"

lemma ok_send_key_step:
  assumes c: "compliant cfg" and w: "wfm cfg s" and f: "fn_security_key cfg = Some f"
    and unlocked: "security_delay_end s = 0 \<or> security_delay_end s \<le> now"
    and res: "fst (f (ctx_view (s\<lparr>security_delay_end := 0\<rparr>)) (app s) ((raw AND 0x7F) div 2) key) = res"
  shows "ok (send_key cfg now raw (raw AND 0x7F) key (s\<lparr>security_delay_end := 0\<rparr>))
    (\<lambda>r. key_step cfg now res raw key s (snd r))"
proof -
  let ?l = "(raw AND 0x7F) div 2" and ?s = "s\<lparr>security_delay_end := 0\<rparr>"
  let ?rw = "f (ctx_view ?s) (app s) ?l key"
  let ?c = "snd (called (HKey ?l key res) ?rw ?s)"
  obtain x0 x1 x2 x3 x4 x5 xs where t: "tx_buf s = x0 # x1 # x2 # x3 # x4 # x5 # xs"
    by (rule buffer_prefix [OF c w])
  have un: "\<not> (security_delay_end s \<noteq> 0 \<and> now < security_delay_end s)" using unlocked by auto
  show ?thesis
  proof (cases "res = 0")
    case True
    define u where "u = (save_state cfg (?c\<lparr>security_attempts := 0, security_level := ?l\<rparr>))\<lparr>tx_buf := 0x67 # raw # x2 # x3 # x4 # x5 # xs\<rparr>"
    have 1: "working cfg s (?c\<lparr>security_attempts := 0, security_level := ?l\<rparr>)"
      unfolding True by (rule working_key) (use w True res compliant_key [OF c f, where l = ?l and k = key] in auto)
    have wu: "wfm cfg u" unfolding u_def
      by (rule wfm_tx_buf [OF working_wfm [OF working_save_state [OF 1]]]) (simp add: t)
    have "send_key cfg now raw (raw AND 0x7F) key ?s = uds_send_response cfg 2 u"
      using True res t by (simp add: send_key_def f tx_write_def u_def Let_def case_prod_beta)
    moreover have "tr u = tr s @ EHook (HKey ?l key res) # map EHook (saved cfg (active_session s) ?l)"
      "take 2 (tx_buf u) = [0x67, raw]" "lock_of u = \<lparr>lk_level = ?l, lk_tries = 0, lk_until = 0\<rparr>"
      "active_session u = active_session s" "suppress_pos_resp u = suppress_pos_resp s"
      by (simp_all add: u_def save_state_fields lock_of_def)
    moreover have "wfm cfg s'" "lock_of s' = lock_of u" if "responded bs u s'" for bs s'
      using that wu by (auto simp: responded_def lock_of_def)
    ultimately show ?thesis
      using send_response_sent [OF c wu, of 2] compliant_basic [OF c] True un
      by (auto simp: key_step_def try_key_def key_calls_def responded_fields lock_of_def ok_iff)
  next
    case False
    let ?u = "?c\<lparr>security_attempts := security_attempts s + 1\<rparr>"
    have wu: "wfm cfg (?u\<lparr>security_delay_end := e\<rparr>)" for e using w by (simp add: wfm_def)
    have e: "?u\<lparr>security_delay_end := 0\<rparr> = ?u"
      by (simp add: called_def emit_def)
    show ?thesis
    proof (cases "max_attempts cfg \<le> security_attempts s + 1")
      case True
      then have eq: "send_key cfg now raw (raw AND 0x7F) key ?s =
          uds_send_nrc cfg UDS_SID_SECURITY_ACCESS UDS_NRC_EXCEEDED_ATTEMPTS (?u\<lparr>security_delay_end := now + lockout_delay cfg\<rparr>)"
        using False res by (simp add: send_key_def f Let_def case_prod_beta)
      show ?thesis unfolding eq
        by (rule ok_mono [OF send_nrc_reply [OF c wu]])
           (use False True un in \<open>simp add: key_step_def try_key_def key_calls_def lock_of_def\<close>)
    next
      case neg: False
      then have eq: "send_key cfg now raw (raw AND 0x7F) key ?s =
          uds_send_nrc cfg UDS_SID_SECURITY_ACCESS (if res < 0 then nrc_of_int res else UDS_NRC_INVALID_KEY) (?u\<lparr>security_delay_end := 0\<rparr>)"
        using False res unfolding e by (simp add: send_key_def f Let_def case_prod_beta)
      show ?thesis unfolding eq
        by (rule ok_mono [OF send_nrc_reply [OF c wu]])
           (use False neg un in \<open>simp add: key_step_def try_key_def key_calls_def lock_of_def\<close>)
    qed
  qed
qed


lemma ok_security_key:
  assumes c: "compliant cfg" and w: "wfm cfg s" and f: "fn_security_key cfg = Some f"
    and clock: "get_time_ms cfg = Some clock" "clock (app s) = (now, w')"
    and even: "(raw AND 0x7F) mod 2 = 0"
    and res: "fst (f (ctx_view (s\<lparr>security_delay_end := 0\<rparr>)) w' ((raw AND 0x7F) div 2) key) = res"
  shows "ok (uds_internal_handle_security_access cfg (UDS_SID_SECURITY_ACCESS # raw # key) s)
    (\<lambda>r. key_step cfg now res raw key s (snd r))"
proof -
  let ?s = "s\<lparr>app := w'\<rparr>"
  have t: "time_now cfg s = Some (now, ?s)" by (simp add: time_now_def clock)
  have wt: "wfm cfg ?s" using w by simp
  have k: "key_step cfg now res raw key ?s s' = key_step cfg now res raw key s s'" for s'
    by (simp add: key_step_def lock_of_def Let_def case_prod_beta)
  have v: "ctx_view (?s\<lparr>security_delay_end := 0\<rparr>) = ctx_view (s\<lparr>security_delay_end := 0\<rparr>)"
    by (simp add: ctx_view_def uds_ctx.truncate_def)
  show ?thesis
  proof (cases "security_delay_end s \<noteq> 0 \<and> now < security_delay_end s")
    case True
    then have eq: "uds_internal_handle_security_access cfg (UDS_SID_SECURITY_ACCESS # raw # key) s =
        uds_send_nrc cfg UDS_SID_SECURITY_ACCESS UDS_NRC_REQUIRED_TIME_DELAY ?s"
      by (simp add: uds_internal_handle_security_access_def t)
    show ?thesis unfolding eq
      by (rule ok_mono [OF send_nrc_reply [OF c wt]])
         (use True in \<open>simp add: key_step_def try_key_def key_calls_def lock_of_def\<close>)
  next
    case False
    have z: "security_delay_end s = 0 \<Longrightarrow> s\<lparr>app := w', security_delay_end := 0\<rparr> = s\<lparr>app := w'\<rparr>"
      by (cases s) simp
    have eq: "uds_internal_handle_security_access cfg (UDS_SID_SECURITY_ACCESS # raw # key) s =
        send_key cfg now raw (raw AND 0x7F) key (?s\<lparr>security_delay_end := 0\<rparr>)"
      using False even unfolding uds_internal_handle_security_access_def
      by (auto simp: t byte_at_def Let_def z)
    show ?thesis unfolding eq k [symmetric]
      by (rule ok_send_key_step [OF c wt f]) (use False res v in auto)
  qed
qed

section \<open>How fast keys can be guessed\<close>

text \<open>Wrong keys at the times \<open>ts\<close>: how many of them were checked, and the lock afterwards.\<close>

fun try_keys :: "u8 \<Rightarrow> u32 \<Rightarrow> u32 list \<Rightarrow> lockout \<Rightarrow> nat \<times> lockout" where
  "try_keys limit delay [] a = (0, a)"
| "try_keys limit delay (t # ts) a =
     (let (out, a) = try_key limit delay t False 0 a; (k, a) = try_keys limit delay ts a
      in (if out = KeyDelayed then k else Suc k, a))"

text \<open>After \<open>c\<close> checks since time \<open>t0\<close>, the last request being at time \<open>t\<close>.\<close>

definition throttled :: "nat \<Rightarrow> nat \<Rightarrow> nat \<Rightarrow> nat \<Rightarrow> nat \<Rightarrow> lockout \<Rightarrow> bool" where
  "throttled lim d c t0 t a \<longleftrightarrow> unat (lk_tries a) = c \<and> t0 + (c - lim) * d \<le> t
     \<and> (if c < lim then lk_until a = 0
        else lk_until a \<noteq> 0 \<and> t0 + (c - lim + 1) * d \<le> unat (lk_until a))"

lemma throttled_step:
  assumes "throttled (unat limit) (unat delay) c t0 t a" "t \<le> unat now" "unat now + unat delay < 2 ^ 32"
    "delay \<noteq> 0" "c < 255" "0 < unat limit" "try_key limit delay now False l a = (out, b)"
  shows "throttled (unat limit) (unat delay) (if out = KeyDelayed then c else Suc c) t0 (unat now) b"
proof -
  let ?lim = "unat limit" and ?d = "unat delay"
  have c: "unat (lk_tries a) = c" and t: "t0 + (c - ?lim) * ?d \<le> t" using assms(1) by (simp_all add: throttled_def)
  have suc: "unat (lk_tries a + 1) = Suc c" using c assms(5) by (simp add: unat_word_ariths)
  have now: "unat (now + delay) = unat now + ?d" using assms(3) by (simp add: unat_word_ariths)
  have d: "0 < ?d" using assms(4) by (simp add: unat_gt_0)
  have ge: "lk_tries a + 1 \<ge> limit \<longleftrightarrow> ?lim \<le> Suc c" by (simp add: word_le_nat_alt suc)
  show ?thesis
  proof (cases "lk_until a \<noteq> 0 \<and> now < lk_until a")
    case True
    then have "out = KeyDelayed" "b = a" using assms(7) by (auto simp: try_key_def)
    then show ?thesis using assms(1,2) by (auto simp: throttled_def)
  next
    case False
    have bd: "t0 + (c - ?lim + 1) * ?d \<le> unat now" if "?lim \<le> c"
      using False assms(1) that by (auto simp: throttled_def word_less_nat_alt not_less)
    show ?thesis
    proof (cases "?lim \<le> Suc c")
      case True
      then have o: "out = KeyLocked" "lk_until b = now + delay" "lk_tries b = lk_tries a + 1"
        using False assms(7) ge by (auto simp: try_key_def)
      have "now + delay \<noteq> 0" using now d by (metis add_is_0 neq0_conv unat_0)
      moreover have "t0 + (Suc c - ?lim) * ?d \<le> unat now"
      proof (cases "?lim \<le> c")
        case True then show ?thesis using bd by (simp add: Suc_diff_le)
      next
        case False
        then have "Suc c - ?lim = 0" "c - ?lim = 0" using \<open>?lim \<le> Suc c\<close> by auto
        then show ?thesis using t assms(2) by simp
      qed
      ultimately show ?thesis using True o suc now by (auto simp: throttled_def)
    next
      case neg: False
      then have o: "out = KeyRejected" "lk_until b = 0" "lk_tries b = lk_tries a + 1"
        using False assms(7) ge by (auto simp: try_key_def)
      then show ?thesis using neg suc t assms(2) by (simp add: throttled_def)
    qed
  qed
qed

lemma try_keys_bound:
  assumes "delay \<noteq> 0" "0 < unat limit"
  shows "throttled (unat limit) (unat delay) c t0 t a \<Longrightarrow> sorted (t # map unat ts) \<Longrightarrow>
    last (t # map unat ts) + unat delay < 2 ^ 32 \<Longrightarrow> c + fst (try_keys limit delay ts a) \<le> 255 \<Longrightarrow>
    t0 + (c + fst (try_keys limit delay ts a) - unat limit) * unat delay \<le> last (t # map unat ts)"
proof (induction ts arbitrary: c t a)
  case Nil
  then show ?case by (simp add: throttled_def)
next
  case (Cons now ts)
  obtain out b where o: "try_key limit delay now False 0 a = (out, b)" by (metis surj_pair)
  obtain k a' where k: "try_keys limit delay ts b = (k, a')" by (metis surj_pair)
  let ?c = "if out = KeyDelayed then c else Suc c"
  have tr: "try_keys limit delay (now # ts) a = (if out = KeyDelayed then k else Suc k, a')"
    by (simp add: o k)
  have le: "unat now \<le> last (unat now # map unat ts)" using Cons.prems(2)
    by (cases ts rule: rev_cases) (auto simp: sorted_append)
  show ?case
  proof (cases "out = KeyDelayed")
    case True
    then have b: "b = a" using o by (auto simp: try_key_def split: if_splits)
    have "throttled (unat limit) (unat delay) c t0 (unat now) a"
      using Cons.prems(1,2) by (auto simp: throttled_def)
    from Cons.IH [OF this] show ?thesis using Cons.prems(2-4) tr True k b by simp
  next
    case False
    have "c < 255" using Cons.prems(4) tr False by simp
    from throttled_step [OF Cons.prems(1) _ _ assms(1) this assms(2) o]
    have "throttled (unat limit) (unat delay) (Suc c) t0 (unat now) b"
      using Cons.prems(2,3) le False by simp
    from Cons.IH [OF this] show ?thesis using Cons.prems(2-4) tr False k by simp
  qed
qed


text \<open>
  A client that sends keys: each request comes with the state \<open>w\<close> the application has by
  then, and with it the time.
\<close>

fun guess_keys :: "'w config \<Rightarrow> ('w \<times> u8 \<times> u8 list) list \<Rightarrow> 'w machine \<Rightarrow> 'w machine option" where
  "guess_keys cfg [] s = Some s"
| "guess_keys cfg ((w, raw, key) # gs) s = do {
     (_, s) \<leftarrow> uds_internal_handle_security_access cfg (UDS_SID_SECURITY_ACCESS # raw # key) (s\<lparr>app := w\<rparr>);
     guess_keys cfg gs s }"

fun is_key :: "hook \<Rightarrow> bool" where
  "is_key (HKey l k r) = True"
| "is_key _ = False"

definition key_checks :: "event list \<Rightarrow> nat" where
  "key_checks evs = length (filter is_key (hooks_of evs))"

lemma key_checks_append [simp]: "key_checks (es @ fs) = key_checks es + key_checks fs"
  by (simp add: key_checks_def)

lemma key_step_wrong:
  assumes "key_step cfg now res raw key s s'" "res \<noteq> 0"
  shows "\<exists>evs out. tr s' = tr s @ evs \<and> wfm cfg s' \<and> security_level s' = security_level s
    \<and> try_key (max_attempts cfg) (lockout_delay cfg) now False 0 (lock_of s) = (out, lock_of s')
    \<and> key_checks evs = (if out = KeyDelayed then 0 else 1)"
proof -
  let ?t = "try_key (max_attempts cfg) (lockout_delay cfg) now False"
  have l: "?t l a = ?t 0 a" "fst (?t l a) \<noteq> KeyAccepted" "lk_level (snd (?t l a)) = lk_level a" for l a
    by (auto simp: try_key_def)
  let ?o = "fst (?t 0 (lock_of s))"
  have "tr s' = tr s @ map EHook (key_calls ((raw AND 0x7F) div 2) key res ?o) @ [ESend (key_reply raw res ?o)]"
    "wfm cfg s'" "lock_of s' = snd (?t 0 (lock_of s))"
    using assms l(2) [of 0] by (auto simp: key_step_def Let_def case_prod_beta l(1) [of "(raw AND 0x7F) div 2"])
  moreover from this(3) have "security_level s' = security_level s"
    using l(3) [of 0 "lock_of s"] by (metis lockout.select_convs(1) lock_of_def)
  moreover have "key_checks (map EHook (key_calls ((raw AND 0x7F) div 2) key res ?o) @ [ESend (key_reply raw res ?o)])
      = (if ?o = KeyDelayed then 0 else 1)"
    by (simp add: key_checks_def key_calls_def)
  ultimately show ?thesis
    by (intro exI [of _ "map EHook (key_calls ((raw AND 0x7F) div 2) key res ?o) @ [ESend (key_reply raw res ?o)]"]
        exI [of _ ?o] conjI) (simp_all add: prod_eq_iff)
qed

lemma ok_guess_keys:
  assumes "compliant cfg" "fn_security_key cfg = Some f" "get_time_ms cfg = Some clock"
    "\<And>c w l k. fst (f c w l k) \<noteq> 0"
  shows "wfm cfg s \<Longrightarrow> \<forall>(w, raw, key) \<in> set gs. (raw AND 0x7F) mod 2 = 0 \<Longrightarrow>
    ok (guess_keys cfg gs s) (\<lambda>s'. \<exists>evs. tr s' = tr s @ evs \<and> security_level s' = security_level s
      \<and> key_checks evs = fst (try_keys (max_attempts cfg) (lockout_delay cfg)
            (map (\<lambda>g. fst (clock (fst g))) gs) (lock_of s)))"
proof (induction gs arbitrary: s)
  case Nil
  then show ?case by (simp add: key_checks_def)
next
  case (Cons g gs)
  obtain w raw key where g: "g = (w, raw, key)" by (metis surj_pair)
  let ?s = "s\<lparr>app := w\<rparr>" and ?res = "fst (f (ctx_view (s\<lparr>app := w, security_delay_end := 0\<rparr>)) (snd (clock w)) ((raw AND 0x7F) div 2) key)"
  have even: "(raw AND 0x7F) mod 2 = 0" using Cons.prems(2) g by simp
  have w: "wfm cfg ?s" using Cons.prems(1) by simp
  have "ok (uds_internal_handle_security_access cfg (0x27 # raw # key) ?s)
      (\<lambda>r. key_step cfg (fst (clock w)) ?res raw key ?s (snd r))"
    by (rule ok_security_key [OF assms(1) w assms(2,3) _ even]) simp_all
  then obtain r t where t: "uds_internal_handle_security_access cfg (0x27 # raw # key) ?s = Some (r, t)"
    "key_step cfg (fst (clock w)) ?res raw key ?s t" by (auto simp: ok_iff)
  from key_step_wrong [OF t(2) assms(4)] obtain evs out where e: "tr t = tr s @ evs" "wfm cfg t"
    "security_level t = security_level s" "key_checks evs = (if out = KeyDelayed then 0 else 1)"
    "try_key (max_attempts cfg) (lockout_delay cfg) (fst (clock w)) False 0 (lock_of s) = (out, lock_of t)"
    by (auto simp: lock_of_def)
  have "ok (guess_keys cfg gs t) (\<lambda>s'. \<exists>evs. tr s' = tr t @ evs \<and> security_level s' = security_level t
      \<and> key_checks evs = fst (try_keys (max_attempts cfg) (lockout_delay cfg)
            (map (\<lambda>g. fst (clock (fst g))) gs) (lock_of t)))"
    using Cons.prems(2) by (intro Cons.IH [OF e(2)]) simp
  then obtain s' es where s': "guess_keys cfg gs t = Some s'" "tr s' = tr t @ es" "security_level s' = security_level t"
    "key_checks es = fst (try_keys (max_attempts cfg) (lockout_delay cfg)
            (map (\<lambda>g. fst (clock (fst g))) gs) (lock_of t))" by (auto simp: ok_iff)
  have "guess_keys cfg (g # gs) s = Some s'" by (simp add: g t(1) s'(1))
  moreover have "tr s' = tr s @ evs @ es" using s' e by simp
  ultimately show ?case using s'(3,4) e
    by (auto simp: ok_iff g e case_prod_beta intro!: exI [of _ "evs @ es"] simp del: guess_keys.simps)
qed

lemma lock_parameters: "lockout_delay cfg \<noteq> 0" "0 < unat (max_attempts cfg)"
  by (auto simp: lockout_delay_def max_attempts_def unat_gt_0)

section \<open>Properties\<close>

text \<open>
  C21: a session change. DiagnosticSessionControl for an existing session opens it, and locks
  the server unless the same non-default session was open already; the response carries the
  session and the two response times, P2* in units of 10 ms, and the new state is saved.
\<close>

theorem session_control_switches:
  assumes "compliant cfg" "wfm cfg s" "2 \<le> length data" "data ! 1 AND UDS_MASK_SUBFUNCTION = x" "x \<in> {1, 2, 3}"
  shows "\<exists>s'. uds_internal_handle_session_control cfg data s = Some (UDS_OK, s') \<and> active_session s' = x
    \<and> security_level s' = (if x = active_session s \<and> x \<noteq> 1 then security_level s else 0)
    \<and> tr s' = tr s @ (if suppress_pos_resp s then [] else [ESend [0x50, x, hi8 (reported_p2 cfg),
          lo8 (reported_p2 cfg), hi8 (reported_p2_star cfg), lo8 (reported_p2_star cfg)]])
        @ map EHook (saved cfg x (security_level s'))"
  using ok_session_control [OF assms] by (auto simp: ok_iff)

theorem session_control_switches_witness:
  "\<exists>s'. uds_internal_handle_session_control clock_config [0x10, 0x03] ((base_machine 0)\<lparr>security_level := 1\<rparr>)
      = Some (UDS_OK, s') \<and> active_session s' = 3 \<and> security_level s' = 0
    \<and> tr s' = [ESend [0x50, 0x03, 0, 50, 0, 50]]"
proof -
  have "wfm clock_config ((base_machine 0)\<lparr>security_level := 1\<rparr>)"
    using clock_wfm [of 0] by (simp add: wfm_def did_secured_def clock_fields)
  from session_control_switches [OF clock_compliant this, of "[0x10, 0x03]" 3] show ?thesis
    by (auto simp: machine_fields clock_fields reported_p2_def reported_p2_star_def saved_def hi8_def lo8_def)
qed

text \<open>
  C7: SecurityAccess implements the abstract lock. For a SendKey request (an even subfunction)
  level, attempt counter and delay change as in \<open>try_key\<close>; the application is asked about the
  key unless the delay runs, with the level of the request; the accepted level is saved; and
  the answer is that of the outcome.
\<close>

theorem security_access_refines:
  assumes "compliant cfg" "wfm cfg s" "fn_security_key cfg = Some f"
    "get_time_ms cfg = Some clock" "clock (app s) = (now, w)" "(raw AND 0x7F) mod 2 = 0"
    "level = (raw AND 0x7F) div 2" "fst (f (ctx_view (s\<lparr>security_delay_end := 0\<rparr>)) w level key) = res"
    "try_key (max_attempts cfg) (lockout_delay cfg) now (res = 0) level (lock_of s) = (out, a)"
  shows "\<exists>r s'. uds_internal_handle_security_access cfg (UDS_SID_SECURITY_ACCESS # raw # key) s = Some (r, s')
    \<and> lock_of s' = a \<and> active_session s' = active_session s
    \<and> tr s' = tr s @ (if out = KeyDelayed then [] else [EHook (HKey level key res)])
        @ (if out = KeyAccepted then map EHook (saved cfg (active_session s) level) else [])
        @ (if out = KeyAccepted \<and> suppress_pos_resp s then [] else [ESend (key_reply raw res out)])"
  using ok_security_key [OF assms(1-6), of key res] assms(7-9)
  by (auto simp: ok_iff key_step_def key_calls_def Let_def split: prod.splits)

theorem security_access_refines_witness:
  "\<exists>r s'. uds_internal_handle_security_access key_config [0x27, 0x02, 0xAB] (base_machine 0) = Some (r, s')
    \<and> security_level s' = 1 \<and> tr s' = [EHook (HKey 1 [0xAB] 0), ESend [0x67, 0x02]]"
proof -
  have "compliant key_config" by (rule platform_compliant [OF key_platform])
  moreover have "wfm key_config (base_machine 0)"
    using clock_wfm [of 0] by (simp add: wfm_def did_secured_def clock_fields key_fields)
  ultimately show ?thesis
    using security_access_refines [of key_config "base_machine 0" "\<lambda>c w l k. (0, w)" "\<lambda>w. (w, w)" 0 0 "0x02" 1 "[0xAB]" 0
        KeyAccepted "\<lparr>lk_level = 1, lk_tries = 0, lk_until = 0\<rparr>"]
    by (auto simp: key_fields machine_fields lock_of_def try_key_def saved_def)
qed



end
