(* ===== verification/Uds_Frame.thy ===== *)
theory Uds_Frame
  imports Uds_Requests
begin

text \<open>
  What a call of the stack cannot touch. The stack changes the state of the application only
  by calling its callbacks, and never writes the receive buffer: every invariant that the
  callbacks keep is kept by every public function, without any other assumption.
\<close>

section \<open>Invariants of the application\<close>

text \<open>
  \<open>app_closed cfg cbs I\<close>: all the callbacks of the configuration keep the invariant \<open>I\<close> of
  the application's state; user services and client callbacks, which get the whole machine,
  keep the receive buffer as well.
\<close>

definition app_closed :: "'w config \<Rightarrow> 'w callbacks \<Rightarrow> ('w \<Rightarrow> bool) \<Rightarrow> bool" where
  "app_closed cfg cbs I \<longleftrightarrow>
     (\<forall>f. get_time_ms cfg = Some f \<longrightarrow> (\<forall>w. I w \<longrightarrow> I (snd (f w))))
     \<and> (\<forall>f. fn_log cfg = Some f \<longrightarrow> (\<forall>w l m. I w \<longrightarrow> I (f w l m)))
     \<and> (\<forall>f. fn_tp_send cfg = Some f \<longrightarrow> (\<forall>c w x. I w \<longrightarrow> I (snd (f c w x))))
     \<and> (\<forall>f. fn_reset cfg = Some f \<longrightarrow> (\<forall>c w x. I w \<longrightarrow> I (f c w x)))
     \<and> (\<forall>f. fn_comm_control cfg = Some f \<longrightarrow> (\<forall>c w x y. I w \<longrightarrow> I (snd (f c w x y))))
     \<and> (\<forall>f. fn_security_seed cfg = Some f \<longrightarrow> (\<forall>c w x y. I w \<longrightarrow> I (snd (f c w x y))))
     \<and> (\<forall>f. fn_security_key cfg = Some f \<longrightarrow> (\<forall>c w x y. I w \<longrightarrow> I (snd (f c w x y))))
     \<and> (\<forall>e \<in> set (did_table cfg). \<forall>f. did_read e = Some f \<longrightarrow> (\<forall>c w x y. I w \<longrightarrow> I (snd (f c w x y))))
     \<and> (\<forall>e \<in> set (did_table cfg). \<forall>f. did_write e = Some f \<longrightarrow> (\<forall>c w x y. I w \<longrightarrow> I (snd (f c w x y))))
     \<and> (\<forall>f. fn_is_safe cfg = Some f \<longrightarrow> (\<forall>c w x y. I w \<longrightarrow> I (snd (f c w x y))))
     \<and> (\<forall>f. fn_nvm_save cfg = Some f \<longrightarrow> (\<forall>c w x. I w \<longrightarrow> I (snd (f c w x))))
     \<and> (\<forall>f. fn_nvm_load cfg = Some f \<longrightarrow> (\<forall>c w x. I w \<longrightarrow> I (snd (f c w x))))
     \<and> (\<forall>f. fn_dtc_read cfg = Some f \<longrightarrow> (\<forall>c w x y. I w \<longrightarrow> I (snd (f c w x y))))
     \<and> (\<forall>f. fn_dtc_clear cfg = Some f \<longrightarrow> (\<forall>c w x. I w \<longrightarrow> I (snd (f c w x))))
     \<and> (\<forall>f. fn_auth cfg = Some f \<longrightarrow> (\<forall>c w x y z. I w \<longrightarrow> I (snd (f c w x y z))))
     \<and> (\<forall>f. fn_routine_control cfg = Some f \<longrightarrow> (\<forall>c w x y z n. I w \<longrightarrow> I (snd (f c w x y z n))))
     \<and> (\<forall>f. fn_request_download cfg = Some f \<longrightarrow> (\<forall>c w x y. I w \<longrightarrow> I (snd (f c w x y))))
     \<and> (\<forall>f. fn_transfer_data cfg = Some f \<longrightarrow> (\<forall>c w x y. I w \<longrightarrow> I (snd (f c w x y))))
     \<and> (\<forall>f. fn_transfer_exit cfg = Some f \<longrightarrow> (\<forall>c w. I w \<longrightarrow> I (snd (f c w))))
     \<and> (\<forall>f. fn_mem_read cfg = Some f \<longrightarrow> (\<forall>c w x y. I w \<longrightarrow> I (snd (f c w x y))))
     \<and> (\<forall>f. fn_mem_write cfg = Some f \<longrightarrow> (\<forall>c w x y z. I w \<longrightarrow> I (snd (f c w x y z))))
     \<and> (\<forall>f. fn_io_control cfg = Some f \<longrightarrow> (\<forall>c w x y z n. I w \<longrightarrow> I (snd (f c w x y z n))))
     \<and> (\<forall>f. fn_request_upload cfg = Some f \<longrightarrow> (\<forall>c w x y. I w \<longrightarrow> I (snd (f c w x y))))
     \<and> (\<forall>f. fn_periodic_read cfg = Some f \<longrightarrow> (\<forall>c w x y. I w \<longrightarrow> I (snd (f c w x y))))
     \<and> (\<forall>f. fn_mutex_lock cfg = Some f \<longrightarrow> (\<forall>w. I w \<longrightarrow> I (f w)))
     \<and> (\<forall>f. fn_mutex_unlock cfg = Some f \<longrightarrow> (\<forall>w. I w \<longrightarrow> I (f w)))
     \<and> (\<forall>e \<in> set (user_services cfg). \<forall>d s r s'. svc_handler e d s = Some (r, s') \<longrightarrow> I (app s) \<longrightarrow>
          I (app s') \<and> rx_buf s' = rx_buf s)
     \<and> (\<forall>i x d s s'. cbs i x d s = Some s' \<longrightarrow> I (app s) \<longrightarrow> I (app s') \<and> rx_buf s' = rx_buf s)"

text \<open>
  The state of a machine that keeps the invariant and the receive buffer \<open>b\<close>; where
  service 0x2A is among those never requested, \<open>N\<close>, it has no periodic identifier either.
\<close>

definition framed :: "('w \<Rightarrow> bool) \<Rightarrow> u8 set \<Rightarrow> u8 list \<Rightarrow> 'w machine \<Rightarrow> bool" where
  "framed I N b s \<longleftrightarrow> I (app s) \<and> rx_buf s = b \<and> (UDS_SID_READ_BY_PER_ID \<in> N \<longrightarrow> periodic_count s = 0)"

definition may :: "'a option \<Rightarrow> ('a \<Rightarrow> bool) \<Rightarrow> bool" where
  "may m P \<longleftrightarrow> (\<forall>x. m = Some x \<longrightarrow> P x)"

lemma may_Some [simp]: "may (Some x) P = P x"
  by (simp add: may_def)

lemma may_None [simp]: "may None P"
  by (simp add: may_def)

lemma may_bind [simp]: "may (Option.bind m f) P = may m (\<lambda>x. may (f x) P)"
  by (cases m) (simp_all add: may_def)

lemma may_mono: "may m P \<Longrightarrow> (\<And>x. P x \<Longrightarrow> Q x) \<Longrightarrow> may m Q"
  by (simp add: may_def)

lemma may_if: "(b \<Longrightarrow> may m P) \<Longrightarrow> (\<not> b \<Longrightarrow> may n P) \<Longrightarrow> may (if b then m else n) P"
  by simp

lemma may_option:
  "(h = None \<Longrightarrow> may m P) \<Longrightarrow> (\<And>f. h = Some f \<Longrightarrow> may (n f) P) \<Longrightarrow>
   may (case h of None \<Rightarrow> m | Some f \<Rightarrow> n f) P"
  by (cases h) simp_all

lemma may_any: "(\<And>x. P x) \<Longrightarrow> may m P"
  by (simp add: may_def)

text \<open>
  \<open>N\<close> are services that nobody requests. If 0x2A is one of them, the application must not register
  services of its own, which could ask for periodic identifiers, and its client callbacks must leave
  the table alone.
\<close>

locale closed_app =
  fixes cfg :: "'w config" and cbs :: "'w callbacks" and I :: "'w \<Rightarrow> bool" and N :: "u8 set" and b :: "u8 list"
  assumes closed: "app_closed cfg cbs I"
    and quiet: "UDS_SID_READ_BY_PER_ID \<in> N \<Longrightarrow> user_services cfg = [] \<and> (\<forall>i x d s s'. cbs i x d s = Some s' \<longrightarrow> periodic_count s' = periodic_count s)"
begin

abbreviation "fr \<equiv> framed I N b"

abbreviation "silent d \<equiv> d ! 0 \<notin> N"

lemma calls:
  "\<forall>f. get_time_ms cfg = Some f \<longrightarrow> (\<forall>w. I w \<longrightarrow> I (snd (f w)))"
  "\<forall>f. fn_log cfg = Some f \<longrightarrow> (\<forall>w l m. I w \<longrightarrow> I (f w l m))"
  "\<forall>f. fn_tp_send cfg = Some f \<longrightarrow> (\<forall>c w x. I w \<longrightarrow> I (snd (f c w x)))"
  "\<forall>f. fn_mutex_lock cfg = Some f \<longrightarrow> (\<forall>w. I w \<longrightarrow> I (f w))"
  "\<forall>f. fn_mutex_unlock cfg = Some f \<longrightarrow> (\<forall>w. I w \<longrightarrow> I (f w))"
  using closed unfolding app_closed_def by - (elim conjE, assumption)+

lemma fr_fields [simp]:
  "fr (s\<lparr>tx_buf := x1\<rparr>) = fr s" "fr (s\<lparr>tr := x2\<rparr>) = fr s" "fr (s\<lparr>did_store := x3\<rparr>) = fr s"
  "fr (s\<lparr>active_session := y1\<rparr>) = fr s" "fr (s\<lparr>security_level := y2\<rparr>) = fr s" "fr (s\<lparr>last_msg_time := y3\<rparr>) = fr s"
  "fr (s\<lparr>p2_timer_start := y4\<rparr>) = fr s" "fr (s\<lparr>p2_msg_pending := y5\<rparr>) = fr s" "fr (s\<lparr>p2_star_active := y6\<rparr>) = fr s"
  "fr (s\<lparr>client_cb := y7\<rparr>) = fr s" "fr (s\<lparr>pending_sid := y8\<rparr>) = fr s" "fr (s\<lparr>comm_state := y9\<rparr>) = fr s"
  "fr (s\<lparr>suppress_pos_resp := z1\<rparr>) = fr s" "fr (s\<lparr>flash_sequence := z2\<rparr>) = fr s"
  "fr (s\<lparr>security_delay_end := z3\<rparr>) = fr s" "fr (s\<lparr>security_attempts := z4\<rparr>) = fr s" "fr (s\<lparr>rcrrp_count := z5\<rparr>) = fr s"
  "fr (s\<lparr>periodic_ids := z6\<rparr>) = fr s" "fr (s\<lparr>periodic_rates := z7\<rparr>) = fr s" "fr (s\<lparr>periodic_timers := z8\<rparr>) = fr s"
  "fr (emit ev s) = fr s"
  by (simp_all add: framed_def emit_def)

lemma fr_count: "UDS_SID_READ_BY_PER_ID \<notin> N \<Longrightarrow> fr (s\<lparr>periodic_count := n\<rparr>) = fr s"
  by (simp add: framed_def)

lemma fr_app [simp]: "fr s \<Longrightarrow> I (app s)"
  by (simp add: framed_def)

lemma fr_set_app [simp]: "fr s \<Longrightarrow> I w \<Longrightarrow> fr (s\<lparr>app := w\<rparr>)"
  by (simp add: framed_def)

lemma fr_called [simp]: "fr s \<Longrightarrow> I (snd rw) \<Longrightarrow> fr (snd (called h rw s))"
  by (simp add: called_def framed_def emit_def)

lemma fr_log [simp]: "fr s \<Longrightarrow> fr (uds_internal_log cfg l m s)"
  using calls(2) by (auto simp: uds_internal_log_def split: option.splits)

lemma fr_lock [simp]: "fr s \<Longrightarrow> fr (mutex_lock cfg s)" "fr s \<Longrightarrow> fr (mutex_unlock cfg s)"
  using calls(4,5) by (auto simp: mutex_lock_def mutex_unlock_def split: option.splits)

lemma may_time: "fr s \<Longrightarrow> (\<And>t s'. fr s' \<Longrightarrow> P (t, s')) \<Longrightarrow> may (time_now cfg s) P"
  using calls(1) by (auto simp: time_now_def split: option.splits)

lemma may_tp_send: "fr s \<Longrightarrow> (\<And>r s'. fr s' \<Longrightarrow> P (r, s')) \<Longrightarrow> may (tp_send cfg n s) P"
  using calls(3) by (auto simp: tp_send_def Let_def split: option.splits)

lemma may_tx_write: "fr s \<Longrightarrow> (\<And>s'. fr s' \<Longrightarrow> P s') \<Longrightarrow> may (tx_write i v s) P"
  by (auto simp: tx_write_def)

lemma may_tx_fill: "fr s \<Longrightarrow> (\<And>s'. fr s' \<Longrightarrow> P s') \<Longrightarrow> may (tx_fill i v s) P"
  by (auto simp: tx_fill_def intro!: may_any)

lemma may_send_nrc: "fr s \<Longrightarrow> (\<And>r s'. fr s' \<Longrightarrow> P (r, s')) \<Longrightarrow> may (uds_send_nrc cfg sid nrc s) P"
  by (auto simp: uds_send_nrc_def Let_def intro!: may_tx_write may_tp_send)

lemma may_send_response: "fr s \<Longrightarrow> (\<And>r s'. fr s' \<Longrightarrow> P (r, s')) \<Longrightarrow> may (uds_send_response cfg n s) P"
  by (auto simp: uds_send_response_def Let_def intro!: may_tp_send)

lemma may_reads:
  "(\<And>x. P x) \<Longrightarrow> may (byte_at xs i) P" "(\<And>x. Q x) \<Longrightarrow> may (bytes_at xs i n) Q"
  "(\<And>x. R x) \<Longrightarrow> may (did_session_denied e s) R" "(\<And>x. R x) \<Longrightarrow> may (did_security_denied e s) R"
  "(\<And>x. S x) \<Longrightarrow> may (blit i ys zs) S" "(\<And>x. R x) \<Longrightarrow> may (is_subfunction_supported e' x') R"
  by (auto intro: may_any)

lemmas steps = may_if may_option may_tx_write may_tx_fill may_send_nrc may_send_response may_time may_tp_send may_reads

section \<open>The services\<close>

definition fr_handler :: "'w handler_fn \<Rightarrow> bool" where
  "fr_handler h \<longleftrightarrow> (\<forall>d s. fr s \<longrightarrow> may (h d s) (\<lambda>r. fr (snd r)))"

lemma closed_parts:
  "\<forall>f. fn_reset cfg = Some f \<longrightarrow> (\<forall>c w x. I w \<longrightarrow> I (f c w x))"
  "\<forall>f. fn_comm_control cfg = Some f \<longrightarrow> (\<forall>c w x y. I w \<longrightarrow> I (snd (f c w x y)))"
  "\<forall>f. fn_security_seed cfg = Some f \<longrightarrow> (\<forall>c w x y. I w \<longrightarrow> I (snd (f c w x y)))"
  "\<forall>f. fn_security_key cfg = Some f \<longrightarrow> (\<forall>c w x y. I w \<longrightarrow> I (snd (f c w x y)))"
  "\<forall>e \<in> set (did_table cfg). \<forall>f. did_read e = Some f \<longrightarrow> (\<forall>c w x y. I w \<longrightarrow> I (snd (f c w x y)))"
  "\<forall>e \<in> set (did_table cfg). \<forall>f. did_write e = Some f \<longrightarrow> (\<forall>c w x y. I w \<longrightarrow> I (snd (f c w x y)))"
  "\<forall>f. fn_is_safe cfg = Some f \<longrightarrow> (\<forall>c w x y. I w \<longrightarrow> I (snd (f c w x y)))"
  "\<forall>f. fn_nvm_save cfg = Some f \<longrightarrow> (\<forall>c w x. I w \<longrightarrow> I (snd (f c w x)))"
  "\<forall>f. fn_nvm_load cfg = Some f \<longrightarrow> (\<forall>c w x. I w \<longrightarrow> I (snd (f c w x)))"
  "\<forall>f. fn_dtc_read cfg = Some f \<longrightarrow> (\<forall>c w x y. I w \<longrightarrow> I (snd (f c w x y)))"
  "\<forall>f. fn_dtc_clear cfg = Some f \<longrightarrow> (\<forall>c w x. I w \<longrightarrow> I (snd (f c w x)))"
  "\<forall>f. fn_auth cfg = Some f \<longrightarrow> (\<forall>c w x y z. I w \<longrightarrow> I (snd (f c w x y z)))"
  "\<forall>f. fn_routine_control cfg = Some f \<longrightarrow> (\<forall>c w x y z n. I w \<longrightarrow> I (snd (f c w x y z n)))"
  "\<forall>f. fn_request_download cfg = Some f \<longrightarrow> (\<forall>c w x y. I w \<longrightarrow> I (snd (f c w x y)))"
  "\<forall>f. fn_transfer_data cfg = Some f \<longrightarrow> (\<forall>c w x y. I w \<longrightarrow> I (snd (f c w x y)))"
  "\<forall>f. fn_transfer_exit cfg = Some f \<longrightarrow> (\<forall>c w. I w \<longrightarrow> I (snd (f c w)))"
  "\<forall>f. fn_mem_read cfg = Some f \<longrightarrow> (\<forall>c w x y. I w \<longrightarrow> I (snd (f c w x y)))"
  "\<forall>f. fn_mem_write cfg = Some f \<longrightarrow> (\<forall>c w x y z. I w \<longrightarrow> I (snd (f c w x y z)))"
  "\<forall>f. fn_io_control cfg = Some f \<longrightarrow> (\<forall>c w x y z n. I w \<longrightarrow> I (snd (f c w x y z n)))"
  "\<forall>f. fn_request_upload cfg = Some f \<longrightarrow> (\<forall>c w x y. I w \<longrightarrow> I (snd (f c w x y)))"
  "\<forall>f. fn_periodic_read cfg = Some f \<longrightarrow> (\<forall>c w x y. I w \<longrightarrow> I (snd (f c w x y)))"
  using closed unfolding app_closed_def by - (elim conjE, assumption)+

lemma fr_save_state [simp]: "fr s \<Longrightarrow> fr (save_state cfg s)"
  using closed_parts(8) by (auto simp: save_state_def Let_def split: option.splits)

lemma fr_session: "fr_handler (uds_internal_handle_session_control cfg)" "fr_handler (uds_internal_handle_tester_present cfg)"
  by (auto simp: fr_handler_def uds_internal_handle_session_control_def uds_internal_handle_tester_present_def
      Let_def case_prod_beta intro!: steps)

lemma may_seed: "fr s \<Longrightarrow> may (request_seed cfg raw sub s) (\<lambda>r. fr (snd r))"
  using closed_parts(3) by (auto simp: request_seed_def Let_def case_prod_beta intro!: steps)

lemma may_key: "fr s \<Longrightarrow> may (send_key cfg now raw sub key s) (\<lambda>r. fr (snd r))"
  using closed_parts(4) by (auto simp: send_key_def Let_def case_prod_beta intro!: steps)

lemma fr_security: "fr_handler (uds_internal_handle_security_access cfg)" "fr_handler (uds_internal_handle_authentication cfg)"
  using closed_parts(12)
  by (auto simp: fr_handler_def uds_internal_handle_security_access_def uds_internal_handle_authentication_def
      Let_def case_prod_beta intro!: steps may_seed may_key)

lemma fr_maintenance:
  "fr_handler (uds_internal_handle_ecu_reset cfg)" "fr_handler (uds_internal_handle_comm_control cfg)"
  "fr_handler (uds_internal_handle_clear_dtc cfg)" "fr_handler (uds_internal_handle_read_dtc_info cfg)"
  "fr_handler (uds_internal_handle_control_dtc_setting cfg)"
  using closed_parts(1,2,10,11)
  by (auto simp: fr_handler_def uds_internal_handle_ecu_reset_def uds_internal_handle_comm_control_def
      uds_internal_handle_clear_dtc_def uds_internal_handle_read_dtc_info_def
      uds_internal_handle_control_dtc_setting_def Let_def case_prod_beta intro!: steps split: option.split)

lemma fr_flash:
  "fr_handler (uds_internal_handle_routine_control cfg)" "fr_handler (uds_internal_handle_request_download cfg)"
  "fr_handler (uds_internal_handle_transfer_data cfg)" "fr_handler (uds_internal_handle_request_transfer_exit cfg)"
  "fr_handler (uds_internal_handle_request_upload cfg)"
  using closed_parts(13,14,15,16,20)
  by (auto simp: fr_handler_def uds_internal_handle_routine_control_def uds_internal_handle_request_download_def
      uds_internal_handle_transfer_data_def uds_internal_handle_request_transfer_exit_def
      uds_internal_handle_request_upload_def transfer_response_def Let_def case_prod_beta intro!: steps)

lemma may_echo: "fr s \<Longrightarrow> (\<And>s'. fr s' \<Longrightarrow> P s') \<Longrightarrow> may (echo_bytes data is s) P"
  by (induction "is" arbitrary: s) (auto intro!: steps)

lemma fr_memory:
  "fr_handler (uds_internal_handle_read_memory_by_addr cfg)" "fr_handler (uds_internal_handle_write_memory_by_addr cfg)"
  "fr_handler (uds_internal_handle_io_control cfg)"
  using closed_parts(7,17,18,19)
  by (auto simp: fr_handler_def uds_internal_handle_read_memory_by_addr_def uds_internal_handle_write_memory_by_addr_def
      uds_internal_handle_io_control_def Let_def case_prod_beta intro!: steps may_echo split: option.split)

fun fr_rdbi :: "'w rdbi_out \<Rightarrow> bool" where
  "fr_rdbi (RdbiDone n s) = fr s" | "fr_rdbi (RdbiError nrc s) = fr s" | "fr_rdbi (RdbiReturn r s) = fr s"

lemma may_rdbi_return: "fr s \<Longrightarrow> may (rdbi_return cfg nrc s) fr_rdbi"
  by (auto simp: rdbi_return_def intro!: steps)

lemma may_rdbi_loop: "fr s \<Longrightarrow> may (rdbi_loop cfg data n s) fr_rdbi"
proof (induction data arbitrary: n s rule: induct_list012)
  case (3 h l rest)
  have "\<forall>f. did_read e = Some f \<longrightarrow> (\<forall>c w x y. I w \<longrightarrow> I (snd (f c w x y)))"
    if "uds_internal_find_did cfg (be16 h l) s = Some e" for e
    using closed_parts(5) find_did_in_table [OF that] by blast
  then show ?case using 3
    by (auto simp: Let_def case_prod_beta intro!: steps may_rdbi_return)
qed simp_all

lemma fr_data:
  "fr_handler (uds_internal_handle_read_data_by_id cfg)" "fr_handler (uds_internal_handle_write_data_by_id cfg)"
proof -
  show "fr_handler (uds_internal_handle_read_data_by_id cfg)"
    unfolding fr_handler_def uds_internal_handle_read_data_by_id_def may_bind
  proof (intro allI impI, rule may_mono [OF may_rdbi_loop])
    fix out :: "'w rdbi_out" assume "fr_rdbi out"
    then show "may (case out of RdbiReturn r s \<Rightarrow> Some (r, s)
       | RdbiError nrc s \<Rightarrow> uds_send_nrc cfg UDS_SID_READ_DATA_BY_ID nrc s
       | RdbiDone tx_len s \<Rightarrow> do {
         s \<leftarrow> tx_write 0 (UDS_SID_READ_DATA_BY_ID + UDS_RESPONSE_OFFSET) s;
         uds_send_response cfg (of_nat tx_len) s }) (\<lambda>r. fr (snd r))"
      by (cases out) (auto intro!: steps)
  qed
  have "\<forall>f. did_write e = Some f \<longrightarrow> (\<forall>c w x y. I w \<longrightarrow> I (snd (f c w x y)))"
    if "uds_internal_find_did cfg d s = Some e" for d s e
    using closed_parts(6) find_did_in_table [OF that] by blast
  then show "fr_handler (uds_internal_handle_write_data_by_id cfg)"
    by (auto simp: fr_handler_def uds_internal_handle_write_data_by_id_def Let_def case_prod_beta intro!: steps)
qed

lemma fr_stop_ids:
  assumes "UDS_SID_READ_BY_PER_ID \<notin> N" shows "fr s \<Longrightarrow> fr (fold stop_id ids s)"
proof -
  have *: "fr s \<Longrightarrow> fr (fold (stop_slot i) js s)" for i js s
    by (induction js arbitrary: s) (simp_all add: stop_slot_def fr_count [OF assms])
  show "fr s \<Longrightarrow> fr (fold stop_id ids s)"
    by (induction ids arbitrary: s) (simp_all add: stop_id_def *)
qed

lemma may_add_ids: "UDS_SID_READ_BY_PER_ID \<notin> N \<Longrightarrow> fr s \<Longrightarrow> (\<And>x s'. fr s' \<Longrightarrow> P (x, s')) \<Longrightarrow> may (add_ids cfg mode ids s) P"
  by (induction ids arbitrary: s) (auto simp: add_id_def Let_def fr_count intro!: steps)

lemma fr_periodic: "UDS_SID_READ_BY_PER_ID \<notin> N \<Longrightarrow> fr_handler (uds_internal_handle_periodic_read cfg)"
  by (auto simp: fr_handler_def uds_internal_handle_periodic_read_def Let_def fr_count fr_stop_ids intro!: steps may_add_ids)

section \<open>The dispatcher and the public functions\<close>

lemmas fr_services = fr_session fr_security fr_maintenance fr_flash fr_memory fr_data fr_periodic

lemma fr_core: "e \<in> set (core_services cfg) \<Longrightarrow> svc_sid e \<notin> N \<Longrightarrow> fr_handler (svc_handler e)"
  by (auto simp: core_services_def core_service_def fr_services)

lemma fr_service:
  assumes "sid \<notin> N" shows "find_service cfg sid = Some e \<Longrightarrow> fr_handler (svc_handler e)"
proof -
  have "\<forall>e \<in> set (user_services cfg). \<forall>d s r s'. svc_handler e d s = Some (r, s') \<longrightarrow> I (app s) \<longrightarrow>
      I (app s') \<and> rx_buf s' = rx_buf s"
    using closed unfolding app_closed_def by - (elim conjE, assumption)
  then have "e \<in> set (user_services cfg) \<Longrightarrow> fr_handler (svc_handler e)" for e
    using quiet by (auto simp: fr_handler_def may_def framed_def)
  then show "find_service cfg sid = Some e \<Longrightarrow> fr_handler (svc_handler e)"
    using assms by (auto simp: find_service_def find_Some_iff fr_core nth_mem split: option.splits)
qed

lemma may_check:
  assumes "fr s" "find_service cfg sid = Some e" "sid \<notin> N"
  shows "may (check_and_execute cfg e sid data s) fr"
proof -
  have h: "may (svc_handler e data s) (\<lambda>r. fr (snd r))" if "fr s" for s
    using fr_service [OF assms(3,2)] that by (simp add: fr_handler_def)
  have "may (execute_handler cfg e data s) (\<lambda>r. fr (snd r))" if "fr s" for s
    unfolding execute_handler_def may_bind
    by (rule may_mono [OF h [OF that]]) (auto simp: Let_def intro!: steps)
  then show ?thesis using assms(1) closed_parts(7)
    by (auto simp: check_and_execute_def nrc_and_return_def Let_def case_prod_beta intro!: steps
        elim!: may_mono split: option.split)
qed

lemma may_first: "(\<And>x. x = d ! 0 \<Longrightarrow> P x) \<Longrightarrow> may (byte_at d 0) P"
  by (simp add: may_def byte_at_def)

lemma may_request: "fr s \<Longrightarrow> silent data \<Longrightarrow> may (handle_request cfg data s) fr"
  unfolding handle_request_def may_bind
  by (rule may_first) (auto simp: nrc_and_return_def intro!: steps may_check)

lemma may_callback: "fr s \<Longrightarrow> may (cbs i x d s) fr"
proof -
  have "\<forall>i x d s s'. cbs i x d s = Some s' \<longrightarrow> I (app s) \<longrightarrow> I (app s') \<and> rx_buf s' = rx_buf s"
    using closed unfolding app_closed_def by - (elim conjE, assumption)
  then show "fr s \<Longrightarrow> may (cbs i x d s) fr" using quiet by (auto simp: may_def framed_def)
qed

lemma may_client: "fr s \<Longrightarrow> may (client_response cbs data s) fr"
  by (auto simp: client_response_def intro!: steps may_mono [OF may_callback])

lemma may_route: "fr s \<Longrightarrow> silent data \<Longrightarrow> may (route cfg cbs data s) fr"
  by (auto simp: route_def busy_response_def nrc_and_return_def is_response_for_def dispatch_def
      intro!: steps may_client may_request)

lemma may_input: "fr s \<Longrightarrow> (\<And>d. data = Some d \<Longrightarrow> silent d) \<Longrightarrow> may (uds_input_sdu cfg cbs data s) fr"
  by (auto simp: uds_input_sdu_def Let_def intro!: steps may_mono [OF may_route] split: option.split)

lemma fr_s3 [simp]: "fr s \<Longrightarrow> fr (s3_tick cfg now s)"
  by (simp add: s3_tick_def)

lemma may_p2: "fr s \<Longrightarrow> (\<And>x s'. fr s' \<Longrightarrow> P (x, s')) \<Longrightarrow> may (p2_tick cfg now s) P"
  by (auto simp: p2_tick_def Let_def intro!: steps)

lemma may_periodic_slot: "fr s \<Longrightarrow> may (periodic_slot cfg now i s) fr"
  using closed_parts(21)
  by (auto simp: periodic_slot_def Let_def case_prod_beta intro!: steps)

lemma may_scheduler: "fr s \<Longrightarrow> may (periodic_scheduler cfg now s) fr"
proof -
  have "fr s \<Longrightarrow> may (periodic_scan cfg now js s) fr" for js
    by (induction js arbitrary: s) (auto intro!: may_mono [OF may_periodic_slot])
  then show "fr s \<Longrightarrow> may (periodic_scheduler cfg now s) fr"
    by (simp add: periodic_scheduler_def)
qed

lemma may_process: "fr s \<Longrightarrow> may (uds_process cfg s) fr"
  by (auto simp: uds_process_def Let_def intro!: steps may_p2 may_mono [OF may_scheduler])

lemma may_client_request: "fr s \<Longrightarrow> may (uds_client_request cfg sid data len cb s) (\<lambda>r. fr (snd r))"
  by (auto simp: uds_client_request_def Let_def intro!: steps)

lemma may_load: "fr s \<Longrightarrow> may (load_state cfg s) fr"
  using closed_parts(9) by (auto simp: load_state_def Let_def case_prod_beta intro!: steps)

lemma may_init:
  assumes "fr s" shows "may (uds_init (Some cfg) s) (\<lambda>r. fr (snd r))"
proof -
  have "fr (reset_ctx cfg s)" using assms by (simp add: reset_ctx_def Let_def framed_def)
  then show ?thesis using assms
    by (simp add: uds_init_def Let_def may_mono [OF may_load])
qed

end

lemma closed_appI: "app_closed cfg cbs I \<Longrightarrow> closed_app cfg cbs I {}"
  by unfold_locales simp_all

section \<open>Properties\<close>



end
