(* ===== verification/Uds_Automaton.thy ===== *)
theory Uds_Automaton
  imports Uds_System Uds_Frame
begin

text \<open>
  Session and security level as an automaton. Whatever the stack does to the two is one of
  four events: nothing, a session opened by a request for it, a level unlocked by an accepted
  key, and the expiry of the S3 timer. The whole stack refines the automaton.
\<close>

section \<open>The automaton\<close>

datatype access_event = Quiet | Open u8 | Unlock u8 | Expire

text \<open>The session and the level behind an event.\<close>

fun next_access :: "access_event \<Rightarrow> u8 \<times> u8 \<Rightarrow> u8 \<times> u8" where
  "next_access Quiet a = a"
| "next_access (Open x) (n, l) = (x, if x = n \<and> x \<noteq> UDS_SESSION_ID_DEFAULT then l else 0)"
| "next_access (Unlock k) (n, l) = (n, k)"
| "next_access Expire (n, l) = (UDS_SESSION_ID_DEFAULT, 0)"

definition access :: "'w machine \<Rightarrow> u8 \<times> u8" where
  "access s = (active_session s, security_level s)"

text \<open>
  What a request may cause: DiagnosticSessionControl opens the session it names, one of the
  three; a SendKey of SecurityAccess unlocks the level it names, if the application accepts
  the key in it; no other request changes anything.
\<close>

fun may_cause :: "'w config \<Rightarrow> u8 list \<Rightarrow> access_event \<Rightarrow> bool" where
  "may_cause cfg d Quiet = True"
| "may_cause cfg d (Open x) = (d ! 0 = UDS_SID_SESSION_CONTROL \<and> x = (d ! 1 AND 0x7F)
     \<and> x \<in> {UDS_SESSION_ID_DEFAULT, UDS_SESSION_ID_PROGRAMMING, UDS_SESSION_ID_EXTENDED})"
| "may_cause cfg d (Unlock k) = (d ! 0 = UDS_SID_SECURITY_ACCESS \<and> (d ! 1 AND 0x7F) mod 2 = 0
     \<and> k = (d ! 1 AND 0x7F) div 2
     \<and> (\<exists>f c w. fn_security_key cfg = Some f \<and> fst (f c w k (drop 2 d)) = 0))"
| "may_cause cfg d Expire = False"

text \<open>
  The code outside the library that gets the context, services of the user and client
  callbacks, leaves the two members alone.
\<close>

definition access_kept :: "'w config \<Rightarrow> 'w callbacks \<Rightarrow> bool" where
  "access_kept cfg cbs \<longleftrightarrow>
     (\<forall>e \<in> set (user_services cfg). \<forall>d s r s'. svc_handler e d s = Some (r, s') \<longrightarrow> access s' = access s)
     \<and> (\<forall>i x d s s'. cbs i x d s = Some s' \<longrightarrow> access s' = access s)"

section \<open>What leaves the two members alone\<close>

definition accessed :: "u8 \<times> u8 \<Rightarrow> 'w machine \<Rightarrow> bool" where
  "accessed a s \<longleftrightarrow> access s = a"

lemma accessed_fields [simp]:
  "accessed a (s\<lparr>tx_buf := x1\<rparr>) = accessed a s" "accessed a (s\<lparr>tr := x2\<rparr>) = accessed a s"
  "accessed a (s\<lparr>did_store := x3\<rparr>) = accessed a s" "accessed a (s\<lparr>app := x4\<rparr>) = accessed a s"
  "accessed a (s\<lparr>periodic_count := x5\<rparr>) = accessed a s" "accessed a (s\<lparr>last_msg_time := y3\<rparr>) = accessed a s"
  "accessed a (s\<lparr>p2_timer_start := y4\<rparr>) = accessed a s" "accessed a (s\<lparr>p2_msg_pending := y5\<rparr>) = accessed a s"
  "accessed a (s\<lparr>p2_star_active := y6\<rparr>) = accessed a s" "accessed a (s\<lparr>client_cb := y7\<rparr>) = accessed a s"
  "accessed a (s\<lparr>pending_sid := y8\<rparr>) = accessed a s" "accessed a (s\<lparr>comm_state := y9\<rparr>) = accessed a s"
  "accessed a (s\<lparr>suppress_pos_resp := z1\<rparr>) = accessed a s" "accessed a (s\<lparr>flash_sequence := z2\<rparr>) = accessed a s"
  "accessed a (s\<lparr>security_delay_end := z3\<rparr>) = accessed a s" "accessed a (s\<lparr>security_attempts := z4\<rparr>) = accessed a s"
  "accessed a (s\<lparr>rcrrp_count := z5\<rparr>) = accessed a s" "accessed a (s\<lparr>periodic_ids := z6\<rparr>) = accessed a s"
  "accessed a (s\<lparr>periodic_rates := z7\<rparr>) = accessed a s" "accessed a (s\<lparr>periodic_timers := z8\<rparr>) = accessed a s"
  "accessed a (emit ev s) = accessed a s"
  by (simp_all add: accessed_def access_def emit_def)

lemma accessed_calls [simp]:
  "accessed a (snd (called h rw s)) = accessed a s" "accessed a (uds_internal_log cfg l m s) = accessed a s"
  "accessed a (mutex_lock cfg s) = accessed a s" "accessed a (mutex_unlock cfg s) = accessed a s"
  "accessed a (save_state cfg s) = accessed a s"
  by (simp_all add: accessed_def access_def called_def mutex_lock_def mutex_unlock_def save_state_def emit_def Let_def
      split: option.splits)

lemma acc_time: "accessed a s \<Longrightarrow> (\<And>t s'. accessed a s' \<Longrightarrow> P (t, s')) \<Longrightarrow> may (time_now cfg s) P"
  by (auto simp: time_now_def split: option.splits)

lemma acc_tp_send: "accessed a s \<Longrightarrow> (\<And>r s'. accessed a s' \<Longrightarrow> P (r, s')) \<Longrightarrow> may (tp_send cfg n s) P"
  by (auto simp: tp_send_def Let_def split: option.splits)

lemma acc_tx_write: "accessed a s \<Longrightarrow> (\<And>s'. accessed a s' \<Longrightarrow> P s') \<Longrightarrow> may (tx_write i v s) P"
  by (auto simp: tx_write_def)

lemma acc_tx_fill: "accessed a s \<Longrightarrow> (\<And>s'. accessed a s' \<Longrightarrow> P s') \<Longrightarrow> may (tx_fill i v s) P"
  by (auto simp: tx_fill_def intro!: may_any)

lemma acc_send_nrc: "accessed a s \<Longrightarrow> (\<And>r s'. accessed a s' \<Longrightarrow> P (r, s')) \<Longrightarrow> may (uds_send_nrc cfg sid nrc s) P"
  by (auto simp: uds_send_nrc_def Let_def intro!: acc_tx_write acc_tp_send)

lemma acc_send_response: "accessed a s \<Longrightarrow> (\<And>r s'. accessed a s' \<Longrightarrow> P (r, s')) \<Longrightarrow> may (uds_send_response cfg n s) P"
  by (auto simp: uds_send_response_def Let_def intro!: acc_tp_send)

lemma acc_reads:
  "(\<And>x. P x) \<Longrightarrow> may (byte_at xs i) P" "(\<And>x. Q x) \<Longrightarrow> may (bytes_at xs i n) Q"
  "(\<And>x. R x) \<Longrightarrow> may (did_session_denied e s) R" "(\<And>x. R x) \<Longrightarrow> may (did_security_denied e s) R"
  "(\<And>x. S x) \<Longrightarrow> may (blit i ys zs) S" "(\<And>x. R x) \<Longrightarrow> may (is_subfunction_supported e' x') R"
  by (auto intro: may_any)

lemmas acc_steps = may_if may_option acc_tx_write acc_tx_fill acc_send_nrc acc_send_response acc_time acc_tp_send acc_reads

definition acc_handler :: "'w handler_fn \<Rightarrow> bool" where
  "acc_handler h \<longleftrightarrow> (\<forall>a d s. accessed a s \<longrightarrow> may (h d s) (\<lambda>r. accessed a (snd r)))"

lemma acc_maintenance:
  "acc_handler (uds_internal_handle_ecu_reset cfg)" "acc_handler (uds_internal_handle_comm_control cfg)"
  "acc_handler (uds_internal_handle_clear_dtc cfg)" "acc_handler (uds_internal_handle_read_dtc_info cfg)"
  "acc_handler (uds_internal_handle_control_dtc_setting cfg)" "acc_handler (uds_internal_handle_tester_present cfg)"
  "acc_handler (uds_internal_handle_authentication cfg)"
  by (auto simp: acc_handler_def uds_internal_handle_ecu_reset_def uds_internal_handle_comm_control_def
      uds_internal_handle_clear_dtc_def uds_internal_handle_read_dtc_info_def uds_internal_handle_control_dtc_setting_def
      uds_internal_handle_tester_present_def uds_internal_handle_authentication_def Let_def case_prod_beta
      intro!: acc_steps split: option.split)

lemma acc_flash:
  "acc_handler (uds_internal_handle_routine_control cfg)" "acc_handler (uds_internal_handle_request_download cfg)"
  "acc_handler (uds_internal_handle_transfer_data cfg)" "acc_handler (uds_internal_handle_request_transfer_exit cfg)"
  "acc_handler (uds_internal_handle_request_upload cfg)"
  by (auto simp: acc_handler_def uds_internal_handle_routine_control_def uds_internal_handle_request_download_def
      uds_internal_handle_transfer_data_def uds_internal_handle_request_transfer_exit_def
      uds_internal_handle_request_upload_def transfer_response_def Let_def case_prod_beta intro!: acc_steps)

lemma acc_echo: "accessed a s \<Longrightarrow> (\<And>s'. accessed a s' \<Longrightarrow> P s') \<Longrightarrow> may (echo_bytes data is s) P"
  by (induction "is" arbitrary: s) (auto intro!: acc_steps)

lemma acc_memory:
  "acc_handler (uds_internal_handle_read_memory_by_addr cfg)" "acc_handler (uds_internal_handle_write_memory_by_addr cfg)"
  "acc_handler (uds_internal_handle_io_control cfg)"
  by (auto simp: acc_handler_def uds_internal_handle_read_memory_by_addr_def uds_internal_handle_write_memory_by_addr_def
      uds_internal_handle_io_control_def Let_def case_prod_beta intro!: acc_steps acc_echo split: option.split)

fun acc_rdbi :: "u8 \<times> u8 \<Rightarrow> 'w rdbi_out \<Rightarrow> bool" where
  "acc_rdbi a (RdbiDone n s) = accessed a s" | "acc_rdbi a (RdbiError nrc s) = accessed a s"
| "acc_rdbi a (RdbiReturn r s) = accessed a s"

lemma acc_rdbi_loop: "accessed a s \<Longrightarrow> may (rdbi_loop cfg data n s) (acc_rdbi a)"
  by (induction data arbitrary: n s rule: induct_list012)
    (auto simp: rdbi_return_def Let_def case_prod_beta intro!: acc_steps)

lemma acc_read_data: "acc_handler (uds_internal_handle_read_data_by_id cfg)"
  unfolding acc_handler_def uds_internal_handle_read_data_by_id_def may_bind
  by (auto intro!: may_mono [OF acc_rdbi_loop] acc_steps split: rdbi_out.split)

lemma acc_write_data: "acc_handler (uds_internal_handle_write_data_by_id cfg)"
  by (auto simp: acc_handler_def uds_internal_handle_write_data_by_id_def Let_def case_prod_beta intro!: acc_steps)

lemma acc_stop_ids: "accessed a s \<Longrightarrow> accessed a (fold stop_id ids s)"
proof -
  have *: "accessed a s \<Longrightarrow> accessed a (fold (stop_slot i) js s)" for i js s
    by (induction js arbitrary: s) (simp_all add: stop_slot_def)
  show "accessed a s \<Longrightarrow> accessed a (fold stop_id ids s)"
    by (induction ids arbitrary: s) (simp_all add: stop_id_def *)
qed

lemma acc_add_ids: "accessed a s \<Longrightarrow> (\<And>x s'. accessed a s' \<Longrightarrow> P (x, s')) \<Longrightarrow> may (add_ids cfg mode ids s) P"
  by (induction ids arbitrary: s) (auto simp: add_id_def Let_def intro!: acc_steps)

lemma acc_periodic: "acc_handler (uds_internal_handle_periodic_read cfg)"
  by (auto simp: acc_handler_def uds_internal_handle_periodic_read_def Let_def acc_stop_ids intro!: acc_steps acc_add_ids)

lemmas acc_services = acc_maintenance acc_flash acc_memory acc_read_data acc_write_data acc_periodic

section \<open>The two services that change them\<close>

text \<open>The access behind a request \<open>d\<close> that was served from the access \<open>a\<close>.\<close>

definition caused :: "'w config \<Rightarrow> u8 list \<Rightarrow> u8 \<times> u8 \<Rightarrow> 'w machine \<Rightarrow> bool" where
  "caused cfg d a s \<longleftrightarrow> (\<exists>e. may_cause cfg d e \<and> accessed (next_access e a) s)"

lemma caused_quiet: "accessed a s \<Longrightarrow> caused cfg d a s"
  by (auto simp: caused_def intro!: exI [of _ Quiet])

lemma caused_by: "may_cause cfg d e \<Longrightarrow> accessed (next_access e a) s \<Longrightarrow> caused cfg d a s"
  by (auto simp: caused_def)

lemma caused_fields [simp]:
  "caused cfg d a (s\<lparr>p2_msg_pending := y5, p2_star_active := y6\<rparr>) = caused cfg d a s"
  "caused cfg d a (s\<lparr>p2_timer_start := y4, pending_sid := y8\<rparr>) = caused cfg d a s"
  "caused cfg d a (mutex_unlock cfg' s) = caused cfg d a s"
  by (simp_all add: caused_def)

lemma may_byte: "(i < length xs \<Longrightarrow> P (xs ! i)) \<Longrightarrow> may (byte_at xs i) P"
  by (simp add: may_def byte_at_def)

lemma caused_session:
  assumes "accessed a s" "d ! 0 = UDS_SID_SESSION_CONTROL"
  shows "may (uds_internal_handle_session_control cfg d s) (\<lambda>r. caused cfg d a (snd r))"
proof -
  let ?x = "d ! 1 AND UDS_MASK_SUBFUNCTION"
  define t where "t = (if active_session s \<noteq> ?x \<or> ?x = UDS_SESSION_ID_DEFAULT then s\<lparr>security_level := 0\<rparr> else s)\<lparr>active_session := ?x\<rparr>"
  have t: "accessed (next_access (Open ?x) a) t"
    using assms(1) by (auto simp: t_def accessed_def access_def)
  have "may_cause cfg d (Open ?x)" if "\<not> (?x \<noteq> UDS_SESSION_ID_DEFAULT \<and> ?x \<noteq> UDS_SESSION_ID_PROGRAMMING \<and> ?x \<noteq> UDS_SESSION_ID_EXTENDED)"
    using that assms(2) by auto
  note c = caused_by [OF this]
  show ?thesis
    unfolding uds_internal_handle_session_control_def Let_def may_bind t_def [symmetric]
  proof (rule may_byte, rule may_if, goal_cases)
    case 1
    then show ?case using assms(1) by (auto intro!: acc_steps caused_quiet)
  next
    case 2
    show ?case unfolding t_def [symmetric] may_bind using t
      by (auto intro!: acc_steps c [OF 2(2)] simp del: next_access.simps)
  qed
qed

lemma caused_seed: "accessed a s \<Longrightarrow> may (request_seed cfg raw sub s) (\<lambda>r. caused cfg d a (snd r))"
  by (auto simp: request_seed_def Let_def case_prod_beta intro!: acc_steps caused_quiet)

lemma caused_key:
  fixes s :: "'w machine"
  assumes "accessed a s" "d ! 0 = UDS_SID_SECURITY_ACCESS" "sub = (d ! 1 AND 0x7F)" "sub mod 2 = 0"
  shows "may (send_key cfg now raw sub (drop 2 d) s) (\<lambda>r. caused cfg d a (snd r))"
proof -
  show ?thesis
  proof (cases "\<exists>f. fn_security_key cfg = Some f \<and> fst (f (ctx_view s) (app s) (sub div 2) (drop 2 d)) = 0")
    case True
    then obtain f where f: "fn_security_key cfg = Some f" "fst (f (ctx_view s) (app s) (sub div 2) (drop 2 d)) = 0"
      by blast
    then have m: "may_cause cfg d (Unlock (sub div 2))" using assms(2-4) by auto
    have "accessed (next_access (Unlock (sub div 2)) a) ((snd (called h rw s))\<lparr>security_attempts := 0, security_level := sub div 2\<rparr>)"
      for h rw
      using assms(1) by (cases a) (simp add: accessed_def access_def called_def emit_def)
    note u = this [of _ "f (ctx_view s) (app s) (sub div 2) (drop 2 d)"]
    show ?thesis using f u
      by (auto simp: send_key_def Let_def case_prod_beta simp del: may_cause.simps next_access.simps
          intro!: acc_steps caused_by [OF m])
  next
    case False
    then show ?thesis using assms(1)
      by (auto simp: send_key_def Let_def case_prod_beta intro!: acc_steps caused_quiet)
  qed
qed

lemma caused_security:
  assumes "accessed a s" "d ! 0 = UDS_SID_SECURITY_ACCESS"
  shows "may (uds_internal_handle_security_access cfg d s) (\<lambda>r. caused cfg d a (snd r))"
  using assms
  by (auto simp: uds_internal_handle_security_access_def Let_def
      intro!: may_if acc_send_nrc acc_time caused_quiet may_byte caused_seed caused_key)

section \<open>The dispatcher\<close>

lemma caused_handler:
  "acc_handler h \<Longrightarrow> accessed a s \<Longrightarrow> may (h d s) (\<lambda>r. caused cfg d a (snd r))"
  unfolding acc_handler_def by (rule may_mono [of _ "\<lambda>r. accessed a (snd r)"]) (blast intro: caused_quiet)+

lemma caused_core:
  assumes "e \<in> set (core_services cfg)" "svc_sid e = d ! 0" "accessed a s"
  shows "may (svc_handler e d s) (\<lambda>r. caused cfg d a (snd r))"
  using assms
  by (auto simp: core_services_def core_service_def
      intro!: caused_session caused_security acc_services [THEN caused_handler])

lemma caused_service:
  assumes "access_kept cfg cbs" "find_service cfg (d ! 0) = Some e" "accessed a s"
  shows "may (svc_handler e d s) (\<lambda>r. caused cfg d a (snd r))"
proof (cases "e \<in> set (user_services cfg)")
  case True
  then have "may (svc_handler e d s) (\<lambda>r. accessed a (snd r))"
    using assms(1,3) by (auto simp: access_kept_def may_def accessed_def)
  then show ?thesis by (rule may_mono) (rule caused_quiet)
next
  case False
  then have "e \<in> set (core_services cfg)"
    using assms(2) by (auto simp: find_service_def find_Some_iff nth_mem split: option.splits)
  then show ?thesis using caused_core find_service_sid [OF assms(2)] assms(3) by blast
qed

lemma caused_execute:
  assumes "access_kept cfg cbs" "find_service cfg (d ! 0) = Some e" "accessed a s"
  shows "may (execute_handler cfg e d s) (\<lambda>r. caused cfg d a (snd r))"
proof -
  have nrc: "caused cfg d a t \<Longrightarrow> (\<And>r s'. caused cfg d a s' \<Longrightarrow> P (r, s')) \<Longrightarrow> may (uds_send_nrc cfg sid n t) P" for sid n t P
    by (auto simp: caused_def intro!: acc_send_nrc)
  have time: "caused cfg d a t \<Longrightarrow> (\<And>r s'. caused cfg d a s' \<Longrightarrow> P (r, s')) \<Longrightarrow> may (time_now cfg t) P" for t P
    by (auto simp: caused_def intro!: acc_time)
  show ?thesis unfolding execute_handler_def may_bind
    by (rule may_mono [OF caused_service [OF assms]])
      (auto simp: Let_def case_prod_beta intro!: may_if acc_reads nrc time)
qed

lemma caused_check:
  assumes "access_kept cfg cbs" "find_service cfg (d ! 0) = Some e" "accessed a s"
  shows "may (check_and_execute cfg e sid d s) (caused cfg d a)"
  using assms(3)
  by (auto simp: check_and_execute_def nrc_and_return_def Let_def case_prod_beta
      intro!: acc_steps may_mono [OF caused_execute [OF assms(1,2)]] intro: caused_quiet split: option.split)

lemma caused_request:
  assumes "access_kept cfg cbs" "accessed a s"
  shows "may (handle_request cfg d s) (caused cfg d a)"
  using assms(2) unfolding handle_request_def may_bind
  by - (rule may_byte, auto simp: nrc_and_return_def intro!: acc_steps caused_check [OF assms(1)] caused_quiet)

lemma caused_client:
  assumes "access_kept cfg cbs" "accessed a s"
  shows "may (client_response cbs d s) (caused cfg d a)"
proof -
  have cb: "may (cbs i x y s) (accessed a)" if "accessed a s" for i x y s
    using assms(1) that by (auto simp: access_kept_def may_def accessed_def)
  then show ?thesis using assms(2)
    by (auto simp: client_response_def intro!: may_option acc_reads caused_quiet may_mono [OF cb])
qed

lemma caused_input:
  assumes "access_kept cfg cbs" "accessed a s"
  shows "may (uds_input_sdu cfg cbs (Some d) s) (caused cfg d a)"
proof -
  have "may (route cfg cbs d s) (caused cfg d a)" if "accessed a s" for s
    using that
    by (auto simp: route_def busy_response_def nrc_and_return_def is_response_for_def dispatch_def
        intro!: acc_steps caused_quiet caused_client [OF assms(1)] caused_request [OF assms(1)])
  then show ?thesis using assms(2)
    by (auto simp: uds_input_sdu_def Let_def intro!: may_if acc_time caused_quiet elim!: may_mono)
qed

lemma acc_p2: "accessed a s \<Longrightarrow> (\<And>x s'. accessed a s' \<Longrightarrow> P (x, s')) \<Longrightarrow> may (p2_tick cfg now s) P"
  by (auto simp: p2_tick_def Let_def intro!: acc_steps)

lemma acc_scheduler: "accessed a s \<Longrightarrow> may (periodic_scheduler cfg now s) (accessed a)"
proof -
  have slot: "accessed a s \<Longrightarrow> may (periodic_slot cfg now i s) (accessed a)" for i s
    by (auto simp: periodic_slot_def Let_def case_prod_beta intro!: acc_steps)
  have "accessed a s \<Longrightarrow> may (periodic_scan cfg now js s) (accessed a)" for js
    by (induction js arbitrary: s) (auto intro!: may_mono [OF slot])
  then show "accessed a s \<Longrightarrow> may (periodic_scheduler cfg now s) (accessed a)"
    by (simp add: periodic_scheduler_def)
qed

lemma acc_client_request:
  "accessed a s \<Longrightarrow> may (uds_client_request cfg sid d len cb s) (\<lambda>r. accessed a (snd r))"
  by (auto simp: uds_client_request_def Let_def intro!: acc_steps split: option.split)

text \<open>The event of \<open>uds_process\<close> at the time \<open>now\<close>.\<close>

definition timer_event :: "u32 \<Rightarrow> 'w machine \<Rightarrow> access_event" where
  "timer_event now s =
     (if active_session s \<noteq> UDS_SESSION_ID_DEFAULT \<and> 5000 < now - last_msg_time s then Expire else Quiet)"

lemma acc_process:
  assumes "get_time_ms cfg = Some clock" "\<not> ctx_null s" "config_set s"
  shows "may (uds_process cfg s)
    (accessed (next_access (timer_event (fst (clock (app (mutex_lock cfg s)))) s) (access s)))"
proof -
  define now where "now = fst (clock (app (mutex_lock cfg s)))"
  define t where "t = (mutex_lock cfg s)\<lparr>app := snd (clock (app (mutex_lock cfg s)))\<rparr>"
  let ?a = "next_access (timer_event now s) (access s)"
  have "active_session t = active_session s" "last_msg_time t = last_msg_time s" "access t = access s"
    by (simp_all add: t_def mutex_lock_def access_def emit_def split: option.split)
  then have "accessed ?a (s3_tick cfg now t)"
    by (simp add: s3_tick_def timer_event_def accessed_def access_def)
  then show ?thesis using assms
    by (auto simp: uds_process_def Let_def time_now_def case_prod_beta simp del: next_access.simps simp flip: now_def t_def
        intro!: acc_p2 may_if may_mono [OF acc_scheduler])
qed

section \<open>Property\<close>

text \<open>
  C5: session and security level are governed by an automaton. A request changes them only as the
  request itself asks: DiagnosticSessionControl opens the session it names, and locks the server
  unless the same non-default session was open; SecurityAccess unlocks the level it names if the
  application accepts its key; every other request, also one of a user service or a response to the
  server's own request, leaves both as they are. \<open>uds_process\<close> returns to the locked default session
  exactly when more than 5000 ms have passed in another session, and changes nothing otherwise; a
  request of the server itself changes nothing. The first two return in every well-formed machine.
\<close>

theorem access_refines_automaton:
  assumes "system_ok cfg cbs" "access_kept cfg cbs" "wfm cfg s" "d \<noteq> []" "length d < 65536"
    "get_time_ms cfg = Some clock"
  shows "(\<exists>e s'. uds_input_sdu cfg cbs (Some d) s = Some s' \<and> wfm cfg s'
      \<and> may_cause cfg d e \<and> access s' = next_access e (access s))
    \<and> (\<exists>s'. uds_process cfg s = Some s' \<and> wfm cfg s'
      \<and> access s' = next_access (timer_event (fst (clock (app (mutex_lock cfg s)))) s) (access s))
    \<and> (\<forall>sid x len cb r s'. uds_client_request cfg sid x len cb s = Some (r, s') \<longrightarrow> access s' = access s)"
proof -
  have a: "app_ok cfg" "cbs_ok cfg cbs" using assms(1) by (simp_all add: system_ok_def)
  have acc: "accessed (access s) s" by (simp add: accessed_def)
  have "ok (uds_input_sdu cfg cbs (Some d) s) (wfm cfg)"
    by (rule ok_mono [OF ok_input_sdu [OF a assms(3,5,4)]]) (auto dest!: served_once_stepped simp: stepped_def)
  with caused_input [OF assms(2) acc, of d] have "\<exists>e s'. uds_input_sdu cfg cbs (Some d) s = Some s' \<and> wfm cfg s'
      \<and> may_cause cfg d e \<and> access s' = next_access e (access s)"
    by (auto simp: ok_iff may_def caused_def accessed_def)
  moreover have "\<exists>s'. uds_process cfg s = Some s' \<and> wfm cfg s'
      \<and> access s' = next_access (timer_event (fst (clock (app (mutex_lock cfg s)))) s) (access s)"
    using ok_process_stepped [OF assms(1,3)] acc_process [OF assms(6) wfm_basic(1,2) [OF assms(3)]]
    by (auto simp: ok_iff may_def stepped_def accessed_def)
  moreover have "uds_client_request cfg sid x len cb s = Some (r, s') \<Longrightarrow> access s' = access s" for sid x len cb r s'
    using acc_client_request [OF acc] by (auto simp: may_def accessed_def)
  ultimately show ?thesis by blast
qed

text \<open>TesterPresent in an unlocked extended session, and the expiry of that session.\<close>

theorem access_refines_automaton_witness:
  "(\<exists>s'. uds_input_sdu key_config no_callbacks (Some [0x3E, 0x00])
      ((base_machine 6000)\<lparr>active_session := 3, security_level := 1\<rparr>) = Some s' \<and> access s' = (3, 1))
    \<and> (\<exists>s'. uds_process key_config ((base_machine 6000)\<lparr>active_session := 3, security_level := 1\<rparr>) = Some s'
      \<and> access s' = (1, 0))"
proof -
  let ?s = "(base_machine 6000)\<lparr>active_session := 3, security_level := 1\<rparr> :: u32 machine"
  have w: "wfm key_config ?s" using clock_wfm [of 6000]
    by (simp add: wfm_def did_secured_def key_fields clock_fields)
  have k: "access_kept key_config no_callbacks" by (simp add: access_kept_def key_fields no_callbacks_def)
  have y: "system_ok key_config no_callbacks" using key_platform by (simp add: platform_ok_def)
  have q: "may_cause key_config [0x3E, 0x00] e \<longleftrightarrow> e = Quiet" for e by (cases e) simp_all
  have t: "timer_event 6000 ?s = Expire" by (simp add: timer_event_def machine_fields)
  note p = access_refines_automaton [OF y k w, of "[0x3E, 0x00]" "\<lambda>w. (w, w)"]
  have "\<exists>s'. uds_input_sdu key_config no_callbacks (Some [0x3E, 0x00]) ?s = Some s' \<and> access s' = (3, 1)"
    using p by (auto simp: q key_fields access_def)
  moreover have "\<exists>s'. uds_process key_config ?s = Some s' \<and> access s' = (1, 0)"
    using p t by (auto simp: key_fields access_def mutex_lock_def machine_fields)
  ultimately show ?thesis by blast
qed

end
