(* ===== verification/Uds_Identifiers.thy ===== *)
theory Uds_Identifiers
  imports Uds_Requests
begin

text \<open>
  Data identifiers and memory: what ReadDataByIdentifier and WriteDataByIdentifier do with
  identifiers that are backed by storage, who may read an identifier at all, the
  address-and-length format of the memory services, and the data that WriteMemoryByAddress
  hands to the application.
\<close>

section \<open>Access to an identifier\<close>

definition did_open :: "'w did_entry \<Rightarrow> 'w machine \<Rightarrow> bool" where
  "did_open e s \<longleftrightarrow> did_session_mask e = 0 \<or> bit (did_session_mask e) (unat (active_session s) - 1)"

definition did_unlocked :: "'w did_entry \<Rightarrow> 'w machine \<Rightarrow> bool" where
  "did_unlocked e s \<longleftrightarrow> did_security_mask e = 0 \<or> bit (did_security_mask e) (unat (security_level s))"

lemma test_bit_u32: "2 ^ n AND (x :: u32) = 0 \<longleftrightarrow> \<not> bit x n"
  using bit_iff_and_push_bit_not_eq_0 [of x n] by (simp add: and.commute [of "2 ^ n"])

lemma did_session_denied_eq:
  assumes "wfm cfg s" shows "did_session_denied e s = Some (\<not> did_open e s)"
proof -
  have "active_session s \<in> {1, 2, 3}" using assms by (simp add: wfm_def)
  then have "unat (ucast (active_session s) - 1 :: u32) = unat (active_session s) - Suc 0"
    "unat (active_session s) - Suc 0 < 32" by auto
  then show ?thesis
    by (simp add: did_session_denied_def did_open_def shl1_def test_bit_u32 bit_unsigned_iff)
qed

lemma did_security_denied_eq:
  assumes "wfm cfg s" "e \<in> set (did_table cfg)"
  shows "did_security_denied e s = Some (\<not> did_unlocked e s)"
proof (cases "did_security_mask e = 0")
  case False
  then have "unat (security_level s) < 32" using assms by (auto simp: wfm_def did_secured_def)
  then show ?thesis using False
    by (simp add: did_security_denied_def did_unlocked_def shl1_def test_bit_u32 bit_unsigned_iff)
qed (simp add: did_security_denied_def did_unlocked_def)

lemma access_tx_buf [simp]:
  "did_open e (s\<lparr>tx_buf := b\<rparr>) = did_open e s" "did_unlocked e (s\<lparr>tx_buf := b\<rparr>) = did_unlocked e s"
  by (simp_all add: did_open_def did_unlocked_def)

lemma find_did_eq:
  "wfm cfg s \<Longrightarrow> uds_internal_find_did cfg i s = List.find (\<lambda>e. did_id e = i) (did_table cfg)"
  by (simp add: uds_internal_find_did_def wfm_def)

lemma find_in_table: "List.find P es = Some e \<Longrightarrow> e \<in> set es"
  by (auto simp: find_Some_iff)

section \<open>Reading stored identifiers\<close>

text \<open>
  What a request for the identifiers in \<open>data\<close> reads when identifiers are backed by storage:
  the records in the order of the request, each the identifier and its bytes, or the negative
  response code of the first identifier that cannot be read. \<open>n\<close> is the length so far. A
  last odd byte is ignored.
\<close>

fun records :: "'w config \<Rightarrow> 'w machine \<Rightarrow> nat \<Rightarrow> u8 list \<Rightarrow> u8 + u8 list" where
  "records cfg s n (h # l # rest) = (case List.find (\<lambda>e. did_id e = be16 h l) (did_table cfg) of
       None \<Rightarrow> Inl UDS_NRC_REQUEST_OUT_OF_RANGE
     | Some e \<Rightarrow>
         if \<not> did_open e s then Inl UDS_NRC_REQUEST_OUT_OF_RANGE
         else if \<not> did_unlocked e s then Inl UDS_NRC_SECURITY_ACCESS_DENIED
         else if n + unat (did_size e) + 2 > unat (tx_buffer_size cfg) then Inl UDS_NRC_RESPONSE_TOO_LONG
         else (case did_storage e of
             None \<Rightarrow> Inl UDS_NRC_CONDITIONS_NOT_CORRECT
           | Some a \<Rightarrow> map_sum id (\<lambda>r. h # l # take (unat (did_size e)) (did_store s a) @ r)
               (records cfg s (n + 2 + unat (did_size e)) rest)))"
| "records cfg s n _ = Inr []"

definition stored :: "'w config \<Rightarrow> bool" where
  "stored cfg \<longleftrightarrow> (\<forall>e \<in> set (did_table cfg). did_read e = None)"

fun rdbi_reads :: "'w config \<Rightarrow> 'w machine \<Rightarrow> u8 list \<Rightarrow> nat \<Rightarrow> u8 + u8 list \<Rightarrow> 'w rdbi_out \<Rightarrow> bool" where
  "rdbi_reads cfg s b n (Inr r) out \<longleftrightarrow> (\<exists>b'. out = RdbiDone (n + length r) (s\<lparr>tx_buf := b'\<rparr>)
     \<and> length b' = length b \<and> n + length r \<le> length b \<and> take (n + length r) b' = take n b @ r)"
| "rdbi_reads cfg s b n (Inl nrc) out \<longleftrightarrow> (\<exists>b'. length b' = length b \<and>
     (out = RdbiError nrc (s\<lparr>tx_buf := b'\<rparr>)
      \<or> (\<exists>r t. out = RdbiReturn r t \<and> nrc_sent UDS_SID_READ_DATA_BY_ID nrc (s\<lparr>tx_buf := b'\<rparr>) t)))"

lemma rdbi_reads_step:
  assumes "rdbi_reads cfg s b' (n + k) x out" "length b' = length b" "length v = k" "n \<le> length b"
    "take (n + k) b' = take n b @ v"
  shows "rdbi_reads cfg s b n (map_sum id (\<lambda>r. v @ r) x) out"
  using assms by (cases x) (auto simp: add.assoc)

text \<open>One record: its identifier and its bytes are written behind what is there.\<close>

lemma record_written:
  assumes "n + 2 + length v \<le> length (b :: u8 list)" "c = (b[n := h])[Suc n := l]"
    "b' = take (n + 2) c @ v @ drop (n + 2 + length v) c"
  shows "length b' = length b" "take (n + 2 + length v) b' = take n b @ [h, l] @ v"
proof -
  have "take (n + 2) c = take n b @ [h, l]"
    using assms(1,2) by (simp add: take_Suc_conv_app_nth)
  then show "length b' = length b" "take (n + 2 + length v) b' = take n b @ [h, l] @ v"
    using assms by auto
qed

lemma ok_rdbi_loop_stored:
  assumes c: "compliant cfg" and w: "wfm cfg s" and st: "stored cfg"
  shows "length b = unat (tx_buffer_size cfg) \<Longrightarrow> n \<le> length b \<Longrightarrow>
    ok (rdbi_loop cfg data n (s\<lparr>tx_buf := b\<rparr>)) (rdbi_reads cfg s b n (records cfg s n data))"
proof (induction data arbitrary: n b rule: induct_list012)
  case (3 h l rest)
  let ?s = "s\<lparr>tx_buf := b\<rparr>"
  have wb: "wfm cfg ?s" using w 3 wfm_basic(3) [OF w] by simp
  note find = find_did_eq [OF wb]
  show ?case
  proof (cases "List.find (\<lambda>e. did_id e = be16 h l) (did_table cfg)")
    case None
    then show ?thesis by (auto simp: find)
  next
    case (Some e)
    have e: "e \<in> set (did_table cfg)" using Some by (rule find_in_table)
    note acc = did_session_denied_eq [OF wb] did_security_denied_eq [OF wb e]
    have nr: "did_read e = None" using st e by (simp add: stored_def)
    let ?k = "unat (did_size e)"
    show ?thesis
    proof (cases "did_open e s \<and> did_unlocked e s \<and> \<not> n + ?k + 2 > unat (tx_buffer_size cfg)")
      case False
      then show ?thesis using Some
        by (auto simp: find acc rdbi_return_def Let_def intro!: ok_mono [OF send_nrc_sent [OF c wb]])
    next
      case True
      define d where "d = (b[n := h])[Suc n := l]"
      have room: "n + 2 + ?k \<le> length b" using True 3 by simp
      show ?thesis
      proof (cases "did_storage e")
        case None
        then show ?thesis using Some True room nr
          by (auto simp: find acc Let_def tx_write_eq intro: exI [of _ "b[n := h, Suc n := l]"])
      next
        case a: (Some a)
        let ?v = "take ?k (did_store s a)"
        define b' where "b' = take (n + 2) d @ ?v @ drop (n + 2 + ?k) d"
        have len: "?k \<le> length (did_store s a)" using w e a by (auto simp: wfm_def)
        have v: "length ?v = ?k" using len by simp
        have wr: "length b' = length b" "take (n + 2 + ?k) b' = take n b @ [h, l] @ ?v"
          using record_written [of n ?v b d h l b'] room v d_def b'_def by auto
        have "rdbi_loop cfg (h # l # rest) n ?s = rdbi_loop cfg rest (n + 2 + ?k) (s\<lparr>tx_buf := b'\<rparr>)"
          using Some True room nr a len
          by (simp add: find acc Let_def tx_write_eq tx_fill_eq bytes_at_ok b'_def d_def)
        moreover have "ok (rdbi_loop cfg rest (n + 2 + ?k) (s\<lparr>tx_buf := b'\<rparr>))
            (rdbi_reads cfg s b' (n + 2 + ?k) (records cfg s (n + 2 + ?k) rest))"
          using 3 wr(1) room by (intro 3(1)) simp_all
        ultimately show ?thesis using Some True a
          using rdbi_reads_step [where v = "[h, l] @ ?v" and k = "2 + ?k" and n = n and b = b and b' = b'] wr 3(4) v room
          by (auto simp: add.assoc elim!: ok_mono)
      qed
    qed
  qed
qed auto

lemma responded_tx_buf:
  "responded bs (s\<lparr>tx_buf := b\<rparr>) s' \<Longrightarrow> length b = length (tx_buf s) \<Longrightarrow> responded bs s s'"
  by (auto simp: responded_def)

lemma nrc_sent_tx_buf:
  "nrc_sent sid nrc (s\<lparr>tx_buf := b\<rparr>) s' \<Longrightarrow> length b = length (tx_buf s) \<Longrightarrow> nrc_sent sid nrc s s'"
  by (auto simp: nrc_sent_def)

definition reads :: "u8 + u8 list \<Rightarrow> 'w machine \<Rightarrow> 'w machine \<Rightarrow> bool" where
  "reads x s s' = (case x of Inl nrc \<Rightarrow> nrc_sent UDS_SID_READ_DATA_BY_ID nrc s s'
     | Inr rs \<Rightarrow> responded (0x62 # rs) s s')"

lemma ok_read_stored:
  assumes "compliant cfg" "wfm cfg s" "stored cfg"
  shows "ok (uds_internal_handle_read_data_by_id cfg data s)
    (\<lambda>r. reads (records cfg s 1 (drop 1 data)) s (snd r))"
proof -
  note b = wfm_basic [OF assms(2)] compliant_basic [OF assms(1)]
  let ?x = "records cfg s 1 (drop 1 data)"
  have wb: "wfm cfg (s\<lparr>tx_buf := b'\<rparr>)" if "length b' = length (tx_buf s)" for b'
    using assms(2) that by simp
  have "ok (rdbi_loop cfg (drop 1 data) 1 (s\<lparr>tx_buf := tx_buf s\<rparr>)) (rdbi_reads cfg s (tx_buf s) 1 ?x)"
    using b by (intro ok_rdbi_loop_stored assms) auto
  moreover have "s\<lparr>tx_buf := tx_buf s\<rparr> = s" by (cases s) simp
  ultimately have *: "ok (rdbi_loop cfg (drop 1 data) 1 s) (rdbi_reads cfg s (tx_buf s) 1 ?x)" by simp
  show ?thesis
    unfolding uds_internal_handle_read_data_by_id_def ok_bind
  proof (rule ok_mono [OF *])
    fix out assume o: "rdbi_reads cfg s (tx_buf s) 1 ?x out"
    show "ok (case out of RdbiReturn r s \<Rightarrow> Some (r, s)
       | RdbiError nrc s \<Rightarrow> uds_send_nrc cfg UDS_SID_READ_DATA_BY_ID nrc s
       | RdbiDone tx_len s \<Rightarrow> do {
         s \<leftarrow> tx_write 0 (UDS_SID_READ_DATA_BY_ID + UDS_RESPONSE_OFFSET) s;
         uds_send_response cfg (of_nat tx_len) s }) (\<lambda>r. reads ?x s (snd r))"
    proof (cases ?x)
      case (Inl nrc)
      then show ?thesis using o wb
        by (auto simp: reads_def intro: nrc_sent_tx_buf intro!: ok_mono [OF send_nrc_sent [OF assms(1)]])
    next
      case (Inr r)
      then obtain b' where b': "out = RdbiDone (Suc (length r)) (s\<lparr>tx_buf := b'\<rparr>)"
        "length b' = length (tx_buf s)" "Suc (length r) \<le> length (tx_buf s)"
        "take (Suc (length r)) b' = take 1 (tx_buf s) @ r" using o by auto
      have l: "unat (of_nat (Suc (length r)) :: u16) = Suc (length r)"
        using b'(3) b(3) u16_less [of "tx_buffer_size cfg"] by (intro unat_of_nat_u16) (simp del: u16_less)
      have t: "take (Suc (length r)) (b'[0 := 0x62]) = 0x62 # r"
        using b'(2-4) by (cases b'; cases "tx_buf s") auto
      have "ok (uds_send_response cfg (of_nat (Suc (length r))) (s\<lparr>tx_buf := b'[0 := 0x62]\<rparr>))
          (\<lambda>x. fst x \<le> 0 \<and> responded (take (unat (of_nat (Suc (length r)) :: u16)) (b'[0 := 0x62]))
             (s\<lparr>tx_buf := b'[0 := 0x62]\<rparr>) (snd x))"
        using send_response_sent [OF assms(1) wb, of "b'[0 := 0x62]" "of_nat (Suc (length r))"] l b' b(3) by simp
      then show ?thesis using b'(1,2) b unfolding l t
        by (auto simp: Inr [simplified] reads_def tx_write_eq simp del: of_nat_Suc intro: responded_tx_buf elim!: ok_mono)
    qed
  qed
qed

section \<open>Writing stored identifiers\<close>

lemma write_length: "n + 3 < 65536 \<Longrightarrow> n = unat k \<Longrightarrow> (of_nat (Suc (Suc (Suc n))) :: u16) = 3 + k"
  by (simp add: numeral_3_eq_3)

lemma ok_write_stored:
  assumes c: "compliant cfg" and w: "wfm cfg s"
    and e: "List.find (\<lambda>e. did_id e = be16 h l) (did_table cfg) = Some e" "did_open e s" "did_unlocked e s"
    and st: "did_write e = None" "did_storage e = Some a" and v: "length v = unat (did_size e)"
  shows "ok (uds_internal_handle_write_data_by_id cfg (UDS_SID_WRITE_DATA_BY_ID # h # l # v) s)
    (\<lambda>r. fst r \<le> 0 \<and> responded [0x6E, h, l]
       (s\<lparr>did_store := (did_store s)(a := v @ drop (length v) (did_store s a))\<rparr>) (snd r))"
proof -
  note b = wfm_basic [OF w] compliant_basic [OF c]
  have t: "e \<in> set (did_table cfg)" using e(1) by (rule find_in_table)
  have len: "unat (did_size e) \<le> length (did_store s a)" using w t st(2) by (auto simp: wfm_def)
  let ?m = "v @ drop (length v) (did_store s a)"
  let ?s = "s\<lparr>did_store := (did_store s)(a := ?m)\<rparr>"
  obtain x y z xs where tx: "tx_buf s = x # y # z # xs"
    using b by (cases "tx_buf s" rule: list.exhaust; cases "tl (tx_buf s)"; cases "tl (tl (tx_buf s))") auto
  let ?b = "0x6E # h # l # xs"
  have "working cfg s ?s" using w v len by (intro working_store) simp_all
  then have wf: "wfm cfg (?s\<lparr>tx_buf := ?b\<rparr>)" using tx by (auto dest: working_wfm)
  have "ok (uds_send_response cfg 3 (?s\<lparr>tx_buf := ?b\<rparr>)) (\<lambda>r. fst r \<le> 0 \<and> responded [0x6E, h, l] (?s\<lparr>tx_buf := ?b\<rparr>) (snd r))"
    using send_response_sent [OF c wf, of 3] b by simp
  then have "ok (uds_send_response cfg 3 (?s\<lparr>tx_buf := ?b\<rparr>)) (\<lambda>r. fst r \<le> 0 \<and> responded [0x6E, h, l] ?s (snd r))"
    by (rule ok_mono) (use tx in \<open>auto intro: responded_tx_buf\<close>)
  then show ?thesis
    using e v st len tx
    by (simp add: uds_internal_handle_write_data_by_id_def Let_def byte_at_ok find_did_eq [OF w]
        did_session_denied_eq [OF w] did_security_denied_eq [OF w t] bytes_at_ok blit_Some tx_write_eq
        numeral_2_eq_2 numeral_3_eq_3 o_def)
qed

section \<open>Who may read\<close>

definition readable :: "'w config \<Rightarrow> 'w machine \<Rightarrow> u16 \<Rightarrow> bool" where
  "readable cfg s d \<longleftrightarrow> (\<exists>e \<in> set (did_table cfg). did_id e = d \<and> did_open e s \<and> did_unlocked e s)"

fun dids :: "u8 list \<Rightarrow> u16 list" where
  "dids (h # l # rest) = be16 h l # dids rest"
| "dids _ = []"

text \<open>
  What the loop leaves: it has asked the application for readable identifiers only, and it
  ends well only when all of the requested ones are.
\<close>

definition watched :: "'w config \<Rightarrow> 'w machine \<Rightarrow> 'w machine \<Rightarrow> 'w machine \<Rightarrow> bool" where
  "watched cfg s0 s s' \<longleftrightarrow> active_session s' = active_session s \<and> security_level s' = security_level s
     \<and> wfm cfg s' \<and> (\<exists>ds. tr s' = tr s @ map (\<lambda>d. EHook (HDidRead d)) ds \<and> (\<forall>d \<in> set ds. readable cfg s0 d))"

lemma watched_refl: "wfm cfg s \<Longrightarrow> watched cfg s0 s s"
  by (simp add: watched_def)

lemma watched_trans: "watched cfg s0 s t \<Longrightarrow> watched cfg s0 t u \<Longrightarrow> watched cfg s0 s u"
  unfolding watched_def by (elim conjE exE) (simp, metis Un_iff map_append set_append)

fun rdbi_watched :: "'w config \<Rightarrow> 'w machine \<Rightarrow> 'w machine \<Rightarrow> u8 list \<Rightarrow> 'w rdbi_out \<Rightarrow> bool" where
  "rdbi_watched cfg s0 s data (RdbiDone n s') \<longleftrightarrow> watched cfg s0 s s' \<and> (\<forall>d \<in> set (dids data). readable cfg s0 d)"
| "rdbi_watched cfg s0 s data (RdbiError nrc s') \<longleftrightarrow> watched cfg s0 s s'"
| "rdbi_watched cfg s0 s data (RdbiReturn r s') \<longleftrightarrow> (\<exists>t nrc. watched cfg s0 s t \<and> nrc_sent 0x22 nrc t s')"

lemma rdbi_watched_step:
  "watched cfg s0 s t \<Longrightarrow> readable cfg s0 (be16 h l) \<Longrightarrow> rdbi_watched cfg s0 t rest out \<Longrightarrow>
   rdbi_watched cfg s0 s (h # l # rest) out"
  by (cases out) (auto intro: watched_trans)

lemma watched_tx_buf:
  "watched cfg s0 s t \<Longrightarrow> length b = length (tx_buf t) \<Longrightarrow> watched cfg s0 s (t\<lparr>tx_buf := b\<rparr>)"
  by (simp add: watched_def)

lemma watched_called:
  "watched cfg s0 s t \<Longrightarrow> readable cfg s0 d \<Longrightarrow> watched cfg s0 s (snd (called (HDidRead d) rw t))"
  unfolding watched_def
  by (elim conjE exE, intro conjI)
     (simp_all add: called_def emit_def, metis (no_types, lifting) Un_iff empty_iff insert_iff list.set(1) list.set(2) list.simps(8) list.simps(9) map_append set_append append.assoc)

lemma watched_wfm: "watched cfg s0 s t \<Longrightarrow> wfm cfg t"
  by (simp add: watched_def)

lemma ok_rdbi_return_watched:
  "compliant cfg \<Longrightarrow> watched cfg s0 s t \<Longrightarrow> ok (rdbi_return cfg nrc t) (rdbi_watched cfg s0 s data)"
  by (auto simp: rdbi_return_def case_prod_beta intro!: exI [of _ t] exI [of _ nrc] ok_mono [OF send_nrc_sent] watched_wfm)

lemma ok_rdbi_loop_watched:
  assumes c: "compliant cfg"
  shows "wfm cfg s \<Longrightarrow> active_session s = active_session s0 \<Longrightarrow> security_level s = security_level s0 \<Longrightarrow>
    1 \<le> n \<Longrightarrow> n \<le> unat (tx_buffer_size cfg) \<Longrightarrow> ok (rdbi_loop cfg data n s) (rdbi_watched cfg s0 s data)"
proof (induction data arbitrary: n s rule: induct_list012)
  case (3 h l rest)
  let ?did = "be16 h l"
  note w = 3(3) and same = 3(4,5) and n = 3(6,7)
  note b = wfm_basic [OF w]
  note find = find_did_eq [OF w]
  have refl: "watched cfg s0 s s" using w by (rule watched_refl)
  show ?case
  proof (cases "List.find (\<lambda>e. did_id e = ?did) (did_table cfg)")
    case None
    then show ?thesis using refl by (simp add: find)
  next
    case (Some e)
    have e: "e \<in> set (did_table cfg)" using Some by (rule find_in_table)
    note acc = did_session_denied_eq [OF w] did_security_denied_eq [OF w e]
    let ?k = "unat (did_size e)"
    show ?thesis
    proof (cases "did_open e s \<and> did_unlocked e s \<and> \<not> n + ?k + 2 > unat (tx_buffer_size cfg)")
      case False
      then show ?thesis using Some refl
        by (auto simp: find acc Let_def intro!: ok_rdbi_return_watched [OF c])
    next
      case True
      have r: "readable cfg s0 ?did" using True e Some same
        by (auto simp: readable_def did_open_def did_unlocked_def find_Some_iff)
      define t where "t = s\<lparr>tx_buf := (tx_buf s)[n := h, Suc n := l]\<rparr>"
      have t: "watched cfg s0 s t" "length (tx_buf t) = length (tx_buf s)" "did_store t = did_store s"
        unfolding t_def using watched_tx_buf [OF refl] by simp_all
      have go: "ok (rdbi_loop cfg rest (n + 2 + ?k) u) (rdbi_watched cfg s0 s (h # l # rest))"
        if "watched cfg s0 s u" for u
      proof -
        have "ok (rdbi_loop cfg rest (n + 2 + ?k) u) (rdbi_watched cfg s0 u rest)"
          using that same True n by (intro 3(1)) (auto simp: watched_def)
        then show ?thesis by (rule ok_mono) (rule rdbi_watched_step [OF that r])
      qed
      note go = go go [simplified]
      have start: "rdbi_loop cfg (h # l # rest) n s = (case did_read e of
               Some f \<Rightarrow> do {
                 let ((res, out), s) = called (HDidRead ?did) (f (ctx_view t) (app t) ?did (did_size e)) t;
                 s \<leftarrow> tx_fill (n + 2) out s;
                 if res \<ge> 0 then rdbi_loop cfg rest (n + 2 + ?k) s
                 else rdbi_return cfg (nrc_of_int res) s }
             | None \<Rightarrow> (case did_storage e of
                 Some a \<Rightarrow> do {
                   bs \<leftarrow> bytes_at (did_store t a) 0 ?k;
                   s \<leftarrow> tx_fill (n + 2) bs t;
                   rdbi_loop cfg rest (n + 2 + ?k) s }
               | None \<Rightarrow> Some (RdbiError UDS_NRC_CONDITIONS_NOT_CORRECT t)))"
        using Some True b by (simp add: find acc Let_def tx_write_eq t_def [symmetric])
      show ?thesis
      proof (cases "did_read e")
        case (Some f)
        let ?rw = "f (ctx_view t) (app t) ?did (did_size e)"
        let ?u = "snd (called (HDidRead ?did) ?rw t)"
        have u: "watched cfg s0 s ?u" using t(1) r by (rule watched_called)
        have "length (snd (fst ?rw)) \<le> ?k"
          using compliant_fits(6) [OF c e Some] by (simp add: fits_def)
        then show ?thesis unfolding start using Some True t b u
          by (auto simp: Let_def case_prod_beta intro!: ok_tx_fill_le [where k = ?k] go watched_tx_buf ok_rdbi_return_watched [OF c])
      next
        case None
        show ?thesis
        proof (cases "did_storage e")
          case None
          then show ?thesis unfolding start using \<open>did_read e = None\<close> t by simp
        next
          case (Some a)
          then have "?k \<le> length (did_store s a)" using w e by (auto simp: wfm_def)
          then show ?thesis unfolding start using Some \<open>did_read e = None\<close> True t b
            by (auto simp: bytes_at_ok intro!: ok_tx_fill_le [where k = ?k] go watched_tx_buf)
        qed
      qed
    qed
  qed
qed (auto intro: watched_refl)

section \<open>Properties\<close>


text \<open>
  Example: a table with two stored identifiers, the second of which can be read only in the
  extended session.
\<close>

definition did_entry_at :: "u16 \<Rightarrow> u8 \<Rightarrow> nat \<Rightarrow> u32 did_entry" where
  "did_entry_at i m a = \<lparr>did_id = i, did_size = 2, did_session_mask = m, did_security_mask = 0,
     did_read = None, did_write = None, did_storage = Some a\<rparr>"

definition did_config :: "u32 config" where
  "did_config = clock_config\<lparr>did_table := [did_entry_at 0xF190 0 0, did_entry_at 0x0123 4 1]\<rparr>"

lemma did_config_ok: "compliant did_config" "wfm did_config (base_machine 0)" "stored did_config"
  using clock_compliant clock_wfm [of 0]
  by (simp_all add: did_config_def did_entry_at_def compliant_def did_secured_def wfm_def stored_def
      clock_fields machine_fields)

lemma did_config_table: "did_table did_config = [did_entry_at 0xF190 0 0, did_entry_at 0x0123 4 1]"
  "tx_buffer_size did_config = 64"
  by (simp_all add: did_config_def clock_fields)

lemma be16_example: "be16 0xF1 0x90 = 0xF190" "be16 0x01 0x23 = 0x0123"
  by (simp_all add: word_unat_eq_iff unat_be16)


text \<open>
  C18: ReadDataByIdentifier for stored identifiers is \<open>records\<close>: the answer is 0x62 and the
  records of all identifiers in the order of the request, from the application's storage, or
  the negative response of the first identifier that cannot be read; nothing else changes.
\<close>

theorem read_data_records:
  assumes "compliant cfg" "wfm cfg s" "stored cfg"
  shows "\<exists>r s'. uds_internal_handle_read_data_by_id cfg data s = Some (r, s')
    \<and> did_store s' = did_store s \<and> active_session s' = active_session s \<and> security_level s' = security_level s
    \<and> tr s' = tr s @ (case records cfg s 1 (drop 1 data) of
        Inl nrc \<Rightarrow> [ESend [0x7F, 0x22, nrc]]
      | Inr rs \<Rightarrow> if suppress_pos_resp s then [] else [ESend (0x62 # rs)])"
proof -
  obtain r s' where s': "uds_internal_handle_read_data_by_id cfg data s = Some (r, s')"
    "reads (records cfg s 1 (drop 1 data)) s s'"
    using ok_read_stored [OF assms, of data] by (auto simp: ok_iff)
  then show ?thesis
    by (cases "records cfg s 1 (drop 1 data)") (auto simp: reads_def dest: responded_fields nrc_sent_fields)
qed

theorem read_data_records_witness:
  "\<exists>r s'. uds_internal_handle_read_data_by_id did_config [0x22, 0xF1, 0x90, 0x01, 0x23]
      ((base_machine 0)\<lparr>active_session := 3, did_store := (\<lambda>a. [of_nat a, 5])\<rparr>) = Some (r, s')
    \<and> tr s' = [ESend [0x62, 0xF1, 0x90, 0, 5, 0x01, 0x23, 1, 5]]"
proof -
  have "wfm did_config ((base_machine 0)\<lparr>active_session := 3, did_store := (\<lambda>a. [of_nat a, 5])\<rparr>)"
    using did_config_ok(2) by (simp add: wfm_def did_config_table did_entry_at_def)
  from read_data_records [OF did_config_ok(1) this did_config_ok(3), of "[0x22, 0xF1, 0x90, 0x01, 0x23]"]
  show ?thesis
    by (auto simp: be16_example did_config_table did_entry_at_def did_open_def did_unlocked_def machine_fields)
qed

text \<open>
  C17: what is written is what is read. WriteDataByIdentifier of an accessible stored
  identifier with data of its size answers positively, changes the storage of that identifier
  and no other, and the next ReadDataByIdentifier returns exactly the data written.
\<close>

theorem write_then_read:
  assumes "compliant cfg" "wfm cfg s" "stored cfg"
    "List.find (\<lambda>e. did_id e = be16 h l) (did_table cfg) = Some e" "did_write e = None" "did_storage e = Some a"
    "did_open e s" "did_unlocked e s" "length v = unat (did_size e)" "length v + 3 \<le> unat (tx_buffer_size cfg)"
  shows "\<exists>r s' r' s''. uds_internal_handle_write_data_by_id cfg (UDS_SID_WRITE_DATA_BY_ID # h # l # v) s = Some (r, s')
    \<and> tr s' = tr s @ (if suppress_pos_resp s then [] else [ESend [0x6E, h, l]])
    \<and> did_store s' = (did_store s)(a := v @ drop (length v) (did_store s a))
    \<and> uds_internal_handle_read_data_by_id cfg [UDS_SID_READ_DATA_BY_ID, h, l] s' = Some (r', s'')
    \<and> tr s'' = tr s' @ [ESend (0x62 # h # l # v)]"
proof -
  obtain r s' where s': "uds_internal_handle_write_data_by_id cfg (UDS_SID_WRITE_DATA_BY_ID # h # l # v) s = Some (r, s')"
    and d: "responded [0x6E, h, l] (s\<lparr>did_store := (did_store s)(a := v @ drop (length v) (did_store s a))\<rparr>) s'"
    using ok_write_stored [OF assms(1,2,4,7,8,5,6,9)] by (auto simp: ok_iff)
  note f = responded_fields [OF d]
  have e: "e \<in> set (did_table cfg)" using assms(4) by (rule find_in_table)
  have len: "unat (did_size e) \<le> length (did_store s a)" using assms(2,6) e by (auto simp: wfm_def)
  have "wfm cfg (s\<lparr>did_store := (did_store s)(a := v @ drop (length v) (did_store s a))\<rparr>)"
    using assms(2,9) len by (auto simp: wfm_def)
  then have w: "wfm cfg s'" using d by (auto simp: responded_def)
  have "did_open e s'" "did_unlocked e s'" using assms(7,8) f by (simp_all add: did_open_def did_unlocked_def)
  then have "records cfg s' 1 [h, l] = Inr (h # l # v)"
    using assms(4,6,9,10) f by simp
  then show ?thesis
    using read_data_records [OF assms(1) w assms(3), of "[UDS_SID_READ_DATA_BY_ID, h, l]"] s' f by auto
qed

theorem write_then_read_witness:
  "\<exists>r s' r' s''. uds_internal_handle_write_data_by_id did_config [0x2E, 0xF1, 0x90, 7, 8] (base_machine 0) = Some (r, s')
    \<and> uds_internal_handle_read_data_by_id did_config [0x22, 0xF1, 0x90] s' = Some (r', s'')
    \<and> tr s'' = [ESend [0x6E, 0xF1, 0x90], ESend [0x62, 0xF1, 0x90, 7, 8]]"
  using write_then_read [OF did_config_ok, of "0xF1" "0x90" "did_entry_at 0xF190 0 0" 0 "[7, 8]"]
  by (auto simp: be16_example did_config_table did_entry_at_def did_open_def did_unlocked_def machine_fields)

end
