(* ===== verification/Uds_Relay.thy ===== *)
theory Uds_Relay
  imports Uds_Requests Uds_Identifiers
begin

text \<open>
  The services that pass a request on to the application and its result back to the
  client: ECUReset, CommunicationControl, ControlDTCSetting, ClearDiagnosticInformation,
  ReadDTCInformation, Authentication, RoutineControl, InputOutputControl,
  ReadMemoryByAddress, RequestDownload, RequestUpload and RequestTransferExit. A reference
  definition says for each request which single call is made and how its result becomes the
  answer; the handlers of the service files implement it.
\<close>

section \<open>The reference\<close>

text \<open>
  What is to be done with a request: refuse it with a negative response code; confirm it
  without asking; or make one call into the application, whose result and output bytes are
  given, with the results that count as failure, the fixed bytes of the positive answer and
  the number of bytes that follow them.
\<close>

datatype relay =
    Refuse u8
  | Confirm "u8 list"
  | Relay hook "int \<times> u8 list" "int \<Rightarrow> bool" "u8 list" "int \<Rightarrow> nat"

fun relay_calls :: "relay \<Rightarrow> hook list" where
  "relay_calls (Relay h _ _ _ _) = [h]"
| "relay_calls _ = []"

fun accepted :: "relay \<Rightarrow> bool" where
  "accepted (Refuse _) = False"
| "accepted (Confirm _) = True"
| "accepted (Relay _ rw bad _ _) = (\<not> bad (fst rw))"

text \<open>
  The answer, when it is not suppressed. The bytes behind the header are the output of the
  callback; where it reports more bytes than it wrote, the rest is what the transmit buffer
  held before.
\<close>

fun relay_answer :: "u8 \<Rightarrow> 'w machine \<Rightarrow> relay \<Rightarrow> u8 list list" where
  "relay_answer sid s (Refuse nrc) = [[0x7F, sid, nrc]]"
| "relay_answer sid s (Confirm hdr) = (if suppress_pos_resp s then [] else [hdr])"
| "relay_answer sid s (Relay _ rw bad hdr count) =
     (if bad (fst rw) then [[0x7F, sid, nrc_of_int (fst rw)]]
      else if suppress_pos_resp s then []
      else [hdr @ take (count (fst rw)) (snd rw @ drop (length hdr + length (snd rw)) (tx_buf s))])"

definition failing :: "int \<Rightarrow> bool" where
  "failing res \<longleftrightarrow> res < 0"

definition nonzero :: "int \<Rightarrow> bool" where
  "nonzero res \<longleftrightarrow> res \<noteq> 0"

definition no_bytes :: "int \<Rightarrow> nat" where
  "no_bytes res = 0"

definition plain :: "int \<times> 'w \<Rightarrow> int \<times> u8 list" where
  "plain rw = (fst rw, [])"

text \<open>The reference of each service, for a request that is as long as its table entry asks.\<close>

definition reset_relay :: "'w config \<Rightarrow> u8 list \<Rightarrow> 'w machine \<Rightarrow> relay" where
  "reset_relay cfg data s = (let sub = data ! 1 AND 0x7F in
     if sub = 0 \<or> 5 < sub then Refuse 0x12
     else case fn_reset cfg of None \<Rightarrow> Confirm [0x51, sub]
       | Some f \<Rightarrow> Relay (HReset sub) (0, []) failing [0x51, sub] no_bytes)"

definition comm_relay :: "'w config \<Rightarrow> u8 list \<Rightarrow> 'w machine \<Rightarrow> relay" where
  "comm_relay cfg data s = (let ctrl = data ! 1 AND 0x7F; kind = data ! 2 AND 0x0F in
     if length data < 3 then Refuse 0x13
     else if ctrl > 5 then Refuse 0x12
     else if kind = 0 \<or> 3 < kind then Refuse 0x31
     else case fn_comm_control cfg of None \<Rightarrow> Confirm [0x68, ctrl]
       | Some f \<Rightarrow> Relay (HCommControl ctrl (data ! 2)) (plain (f (ctx_view s) (app s) ctrl (data ! 2)))
           nonzero [0x68, ctrl] no_bytes)"

definition dtc_setting_relay :: "'w config \<Rightarrow> u8 list \<Rightarrow> 'w machine \<Rightarrow> relay" where
  "dtc_setting_relay cfg data s = (let sub = data ! 1 AND 0x7F in
     if sub \<in> {1, 2} then Confirm [0xC5, sub] else Refuse 0x12)"

definition clear_dtc_relay :: "'w config \<Rightarrow> u8 list \<Rightarrow> 'w machine \<Rightarrow> relay" where
  "clear_dtc_relay cfg data s = (let dtcs = be_value (take 3 (drop 1 data)) in
     case fn_dtc_clear cfg of None \<Rightarrow> Refuse 0x22
       | Some f \<Rightarrow> Relay (HDtcClear dtcs) (plain (f (ctx_view s) (app s) dtcs)) nonzero [0x54] no_bytes)"

definition read_dtc_relay :: "'w config \<Rightarrow> u8 list \<Rightarrow> 'w machine \<Rightarrow> relay" where
  "read_dtc_relay cfg data s = (let sub = data ! 1 AND 0x7F in
     if sub \<in> {0x01, 0x02, 0x07, 0x08, 0x0F, 0x11, 0x12, 0x13} \<and> length data < 3 then Refuse 0x13
     else case fn_dtc_read cfg of None \<Rightarrow> Refuse 0x22
       | Some f \<Rightarrow> Relay (HDtcRead sub) (fst (f (ctx_view s) (app s) sub (tx_buffer_size cfg - 2)))
           failing [0x59, sub] nat)"

definition auth_relay :: "'w config \<Rightarrow> u8 list \<Rightarrow> 'w machine \<Rightarrow> relay" where
  "auth_relay cfg data s = (let sub = data ! 1 AND 0x7F in
     case fn_auth cfg of None \<Rightarrow> Refuse 0x22
       | Some f \<Rightarrow> Relay (HAuth sub (drop 2 data))
           (fst (f (ctx_view s) (app s) sub (drop 2 data) (tx_buffer_size cfg - 2)))
           failing [0x69, data ! 1] nat)"

definition routine_relay :: "'w config \<Rightarrow> u8 list \<Rightarrow> 'w machine \<Rightarrow> relay" where
  "routine_relay cfg data s = (let rid = be16 (data ! 2) (data ! 3) in
     case fn_routine_control cfg of None \<Rightarrow> Refuse 0x22
       | Some f \<Rightarrow> Relay (HRoutine (data ! 1) rid (drop 4 data))
           (fst (f (ctx_view s) (app s) (data ! 1) rid (drop 4 data) (tx_buffer_size cfg - 4)))
           failing [0x71, data ! 1, data ! 2, data ! 3] nat)"

definition io_relay :: "'w config \<Rightarrow> u8 list \<Rightarrow> 'w machine \<Rightarrow> relay" where
  "io_relay cfg data s = (let did = be16 (data ! 1) (data ! 2) in
     case fn_io_control cfg of None \<Rightarrow> Refuse 0x11
       | Some f \<Rightarrow> (case List.find (\<lambda>e. did_id e = did) (did_table cfg) of None \<Rightarrow> Refuse 0x31
           | Some e \<Rightarrow>
               if \<not> did_open e s then Refuse 0x7F
               else if \<not> did_unlocked e s then Refuse 0x33
               else Relay (HIoControl did (data ! 3) (drop 4 data))
                 (fst (f (ctx_view s) (app s) did (data ! 3) (drop 4 data) (tx_buffer_size cfg - 3)))
                 failing [0x6F, data ! 1, data ! 2] nat))"

definition mem_read_relay :: "'w config \<Rightarrow> u8 list \<Rightarrow> 'w machine \<Rightarrow> relay" where
  "mem_read_relay cfg data s =
     (if alfid_bad (data ! 1) then Refuse 0x31
      else case uds_internal_parse_addr_len (drop 2 data) (data ! 1) of None \<Rightarrow> Refuse 0x13
        | Some (addr, sz) \<Rightarrow> (case fn_mem_read cfg of None \<Rightarrow> Refuse 0x22
            | Some f \<Rightarrow>
                if unat (tx_buffer_size cfg) < unat sz + 1 then Refuse 0x14
                else Relay (HMemRead addr sz) (fst (f (ctx_view s) (app s) addr sz)) failing
                  [0x63] (\<lambda>_. unat sz)))"

text \<open>RequestDownload and RequestUpload, which only the first checks the format of at once.\<close>

definition transfer_relay :: "u8 \<Rightarrow> bool \<Rightarrow> (u32 \<Rightarrow> u32 \<Rightarrow> hook)
    \<Rightarrow> (uds_ctx \<Rightarrow> 'w \<Rightarrow> u32 \<Rightarrow> u32 \<Rightarrow> 'w ret) option \<Rightarrow> u8 list \<Rightarrow> 'w machine \<Rightarrow> relay" where
  "transfer_relay sid strict h request data s =
     (if strict \<and> alfid_bad (data ! 2) then Refuse 0x31
      else case uds_internal_parse_addr_len (drop 3 data) (data ! 2) of None \<Rightarrow> Refuse 0x13
        | Some (addr, sz) \<Rightarrow> (case request of None \<Rightarrow> Refuse 0x22
            | Some f \<Rightarrow> Relay (h addr sz) (plain (f (ctx_view s) (app s) addr sz)) failing
                [sid, 0x20, 0, 0, 4, 0] no_bytes))"

definition exit_relay :: "'w config \<Rightarrow> u8 list \<Rightarrow> 'w machine \<Rightarrow> relay" where
  "exit_relay cfg data s = (case fn_transfer_exit cfg of None \<Rightarrow> Refuse 0x22
     | Some f \<Rightarrow> Relay HTransferExit (plain (f (ctx_view s) (app s))) failing [0x77] no_bytes)"

definition relay_of :: "'w config \<Rightarrow> u8 list \<Rightarrow> 'w machine \<Rightarrow> relay option" where
  "relay_of cfg data s = (let sid = data ! 0 in
     if sid = 0x11 then Some (reset_relay cfg data s)
     else if sid = 0x14 then Some (clear_dtc_relay cfg data s)
     else if sid = 0x19 then Some (read_dtc_relay cfg data s)
     else if sid = 0x23 then Some (mem_read_relay cfg data s)
     else if sid = 0x28 then Some (comm_relay cfg data s)
     else if sid = 0x29 then Some (auth_relay cfg data s)
     else if sid = 0x2F then Some (io_relay cfg data s)
     else if sid = 0x31 then Some (routine_relay cfg data s)
     else if sid = 0x34 then Some (transfer_relay 0x74 True HDownload (fn_request_download cfg) data s)
     else if sid = 0x35 then Some (transfer_relay 0x75 False HUpload (fn_request_upload cfg) data s)
     else if sid = 0x37 then Some (exit_relay cfg data s)
     else if sid = 0x85 then Some (dtc_setting_relay cfg data s)
     else None)"

section \<open>What a handler does\<close>

text \<open>
  The outcome of a request in terms of the reference: the calls it makes, what it sends, and
  the two members of the context that the services set on success.
\<close>

definition relayed :: "u8 list \<Rightarrow> relay \<Rightarrow> 'w machine \<Rightarrow> 'w machine \<Rightarrow> bool" where
  "relayed data r s s' \<longleftrightarrow>
     hooks_of (tr s') = hooks_of (tr s) @ relay_calls r
     \<and> sent (tr s') = sent (tr s) @ relay_answer (data ! 0) s r
     \<and> comm_state s' = (if data ! 0 = 0x28 \<and> accepted r then data ! 1 AND 0x7F else comm_state s)
     \<and> flash_sequence s' = (if data ! 0 \<in> {0x34, 0x35} \<and> accepted r then 0 else flash_sequence s)
     \<and> active_session s' = active_session s \<and> security_level s' = security_level s
     \<and> did_store s' = did_store s"

text \<open>The state of a handler that has made its calls and not answered yet.\<close>

definition asked :: "'w config \<Rightarrow> hook list \<Rightarrow> 'w machine \<Rightarrow> 'w machine \<Rightarrow> bool" where
  "asked cfg hs s t \<longleftrightarrow> wfm cfg t
     \<and> hooks_of (tr t) = hooks_of (tr s) @ hs \<and> sent (tr t) = sent (tr s)
     \<and> suppress_pos_resp t = suppress_pos_resp s
     \<and> active_session t = active_session s \<and> security_level t = security_level s
     \<and> did_store t = did_store s"

lemma ok_refused:
  assumes "compliant cfg" "asked cfg (relay_calls r) s t"
    "comm_state t = comm_state s" "flash_sequence t = flash_sequence s"
    "\<not> accepted r" "relay_answer (data ! 0) s r = [[0x7F, sid, nrc]]"
  shows "ok (uds_send_nrc cfg sid nrc t) (\<lambda>x. fst x \<le> 0 \<and> relayed data r s (snd x))"
proof -
  have w: "wfm cfg t" using assms(2) by (simp add: asked_def)
  have "ok (uds_send_nrc cfg sid nrc t) (replied cfg sid t)"
    by (rule ok_send_nrc [OF assms(1)]) (simp add: w)
  then show ?thesis using send_nrc_sent [OF assms(1) w, of sid nrc] assms(2-)
    by (auto simp: ok_iff replied_def relayed_def asked_def nrc_sent_fields hooks_of_sent)
qed

lemma ok_accepted:
  assumes "compliant cfg" "asked cfg (relay_calls r) s t" "accepted r"
    "comm_state t = (if data ! 0 = 0x28 then data ! 1 AND 0x7F else comm_state s)"
    "flash_sequence t = (if data ! 0 \<in> {0x34, 0x35} then 0 else flash_sequence s)"
    "unat len \<le> unat (tx_buffer_size cfg)"
    "relay_answer (data ! 0) s r = (if suppress_pos_resp s then [] else [take (unat len) (tx_buf t)])"
  shows "ok (uds_send_response cfg len t) (\<lambda>x. fst x \<le> 0 \<and> relayed data r s (snd x))"
proof -
  have w: "wfm cfg t" using assms(2) by (simp add: asked_def)
  show ?thesis using send_response_sent [OF assms(1) w assms(6)] assms
    by (auto simp: ok_iff relayed_def asked_def responded_fields hooks_of_sent)
qed

lemma relayed_silent:
  assumes "asked cfg (relay_calls r) s t" "accepted r" "relay_answer (data ! 0) s r = []"
    "comm_state t = (if data ! 0 = 0x28 then data ! 1 AND 0x7F else comm_state s)"
    "flash_sequence t = (if data ! 0 \<in> {0x34, 0x35} then 0 else flash_sequence s)"
  shows "relayed data r s t"
  using assms by (simp add: relayed_def asked_def)

text \<open>The handlers that set the suppression flag themselves find it set by the dispatcher.\<close>

lemma flag_set:
  assumes "suppress_pos_resp s = (x AND 0x80 \<noteq> (0 :: u8))"
  shows "x AND 0x80 \<noteq> 0 \<Longrightarrow> s\<lparr>suppress_pos_resp := True\<rparr> = s"
  using assms by (cases s) simp

lemma buffer_header:
  assumes "wfm cfg s" "compliant cfg"
  obtains a b c d e f xs where "tx_buf s = a # b # c # d # e # f # xs"
    "unat (tx_buffer_size cfg) = 6 + length xs"
proof -
  have l: "10 \<le> length (tx_buf s)" "length (tx_buf s) = unat (tx_buffer_size cfg)"
    using wfm_basic [OF assms(1)] compliant_basic [OF assms(2)] by simp_all
  have "Suc (Suc (Suc (Suc (Suc (Suc 0))))) \<le> length (tx_buf s)" using l(1) by simp
  then obtain a b c d e f xs where t: "tx_buf s = a # b # c # d # e # f # xs"
    by (auto simp: Suc_le_length_iff)
  show thesis using l(2) by (intro that [OF t]) (simp add: t)
qed

lemma fits_count:
  fixes k :: u16
  assumes "fits (unat (tx_buffer_size cfg - k)) r" "unat k \<le> unat (tx_buffer_size cfg)"
  shows "unat k + nat (fst r) \<le> unat (tx_buffer_size cfg)"
  using assms by (auto simp: fits_def unat_minus_le)

lemma wfm_called [simp]: "wfm cfg (snd (called h rw s)) = wfm cfg s"
  by (simp add: called_def)

lemma wfm_log [simp]: "wfm cfg (uds_internal_log c l m s) = wfm cfg s"
  by (simp add: uds_internal_log_def split: option.splits)

lemma log_quiet [simp]:
  "hooks_of (tr (uds_internal_log cfg l m s)) = hooks_of (tr s)"
  "sent (tr (uds_internal_log cfg l m s)) = sent (tr s)"
  by (simp_all add: uds_internal_log_def emit_def split: option.splits)

text \<open>
  The interface: a handler that implements its reference. On a request of its service that
  is as long as the table entry asks, with the suppression flag as the dispatcher left it,
  the handler ends without asking for more time and its outcome is that of the reference.
\<close>

locale relaying_service =
  fixes cfg :: "'w config"
    and sid :: u8
    and min_len :: nat
    and handler :: "'w handler_fn"
    and reference :: "u8 list \<Rightarrow> 'w machine \<Rightarrow> relay"
  assumes relays: "compliant cfg \<Longrightarrow> wfm cfg s \<Longrightarrow> min_len \<le> length data \<Longrightarrow> data ! 0 = sid \<Longrightarrow>
    (sid \<in> {0x11, 0x19, 0x28, 0x85} \<longrightarrow> suppress_pos_resp s = (data ! 1 AND 0x80 \<noteq> 0)) \<Longrightarrow>
    ok (handler data s) (\<lambda>x. fst x \<le> 0 \<and> relayed data (reference data s) s (snd x))"

lemma drop_header [simp]:
  "drop (3 + n) (a # b # c # ys) = drop n ys" "drop (4 + n) (a # b # c # d # ys) = drop n ys"
  "drop (n + 3) (a # b # c # ys) = drop n ys" "drop (n + 4) (a # b # c # d # ys) = drop n ys"
  by (simp_all add: numeral_eq_Suc)

lemma take_header [simp]:
  "take (n + 3) (a # b # c # ys) = a # b # c # take n ys"
  "take (n + 4) (a # b # c # d # ys) = a # b # c # d # take n ys"
  by (simp_all add: numeral_eq_Suc)

lemmas relay_simps = vc_simps asked_def plain_def failing_def nonzero_def no_bytes_def

lemma be24_value:
  assumes "4 \<le> length data"
  shows "push_bit 16 (ucast (data ! Suc 0)) OR push_bit 8 (ucast (data ! 2)) OR ucast (data ! 3)
    = be_value (take 3 (drop (Suc 0) data))"
proof -
  have "Suc (Suc (Suc (Suc 0))) \<le> length data" using assms by simp
  then obtain a b c d ds where "data = a # b # c # d # ds" by (auto simp: Suc_le_length_iff)
  then show ?thesis
    by (simp add: be_value_def numeral_3_eq_3 numeral_2_eq_2 push_bit_or or.assoc)
qed

interpretation relay_exit: relaying_service cfg UDS_SID_TRANSFER_EXIT 1
    "uds_internal_handle_request_transfer_exit cfg" "exit_relay cfg" for cfg :: "'w config"
proof
  fix s :: "'w machine" and data :: "u8 list"
  assume a: "compliant cfg" "wfm cfg s" "1 \<le> length data" "data ! 0 = UDS_SID_TRANSFER_EXIT"
  note b = wfm_basic [OF a(2)] compliant_basic [OF a(1)]
  obtain a b c d e f xs where t: "tx_buf s = a # b # c # d # e # f # xs"
    "unat (tx_buffer_size cfg) = 6 + length xs" using buffer_header [OF a(2,1)] .
  show "ok (uds_internal_handle_request_transfer_exit cfg data s)
      (\<lambda>x. fst x \<le> 0 \<and> relayed data (exit_relay cfg data s) s (snd x))"
    using a b t
    by (auto simp: uds_internal_handle_request_transfer_exit_def exit_relay_def relay_simps split: option.splits
        intro!: ok_if ok_refused ok_accepted)
qed

interpretation relay_clear: relaying_service cfg UDS_SID_CLEAR_DTC 4
    "uds_internal_handle_clear_dtc cfg" "clear_dtc_relay cfg" for cfg :: "'w config"
proof
  fix s :: "'w machine" and data :: "u8 list"
  assume a: "compliant cfg" "wfm cfg s" "4 \<le> length data" "data ! 0 = UDS_SID_CLEAR_DTC"
  note b = wfm_basic [OF a(2)] compliant_basic [OF a(1)]
  obtain a b c d e f xs where t: "tx_buf s = a # b # c # d # e # f # xs"
    "unat (tx_buffer_size cfg) = 6 + length xs" using buffer_header [OF a(2,1)] .
  show "ok (uds_internal_handle_clear_dtc cfg data s)
      (\<lambda>x. fst x \<le> 0 \<and> relayed data (clear_dtc_relay cfg data s) s (snd x))"
    using a b t
    by (auto simp: uds_internal_handle_clear_dtc_def clear_dtc_relay_def be24_value relay_simps split: option.splits
        intro!: ok_if ok_refused ok_accepted)
qed

interpretation relay_auth: relaying_service cfg UDS_SID_AUTHENTICATION 2
    "uds_internal_handle_authentication cfg" "auth_relay cfg" for cfg :: "'w config"
proof
  fix s :: "'w machine" and data :: "u8 list"
  assume a: "compliant cfg" "wfm cfg s" "2 \<le> length data" "data ! 0 = UDS_SID_AUTHENTICATION"
  note b = wfm_basic [OF a(2)] compliant_basic [OF a(1)]
  obtain a b c d e f xs where t: "tx_buf s = a # b # c # d # e # f # xs"
    "unat (tx_buffer_size cfg) = 6 + length xs" using buffer_header [OF a(2,1)] .
  show "ok (uds_internal_handle_authentication cfg data s)
      (\<lambda>x. fst x \<le> 0 \<and> relayed data (auth_relay cfg data s) s (snd x))"
  proof (cases "fn_auth cfg")
    case None
    then show ?thesis using a b by (auto simp: uds_internal_handle_authentication_def auth_relay_def relay_simps
        intro!: ok_if ok_refused ok_accepted)
  next
    case (Some g)
    obtain res out w where r: "g (ctx_view s) (app s) (data ! Suc 0 AND 0x7F) (drop 2 data) (tx_buffer_size cfg - 2) = ((res, out), w)"
      by (metis prod.exhaust)
    have f: "fits (unat (tx_buffer_size cfg - 2)) (res, out)"
      using compliant_fits(3) [OF a(1) Some, of "ctx_view s" "app s" "data ! Suc 0 AND 0x7F" "drop 2 data"] r by simp
    note len = fits_room [OF f] fits_len [OF f] fits_count [OF f]
    show ?thesis using a b t len Some
      by (auto simp: uds_internal_handle_authentication_def auth_relay_def relay_simps r split: option.splits
          intro!: ok_if ok_refused ok_accepted)
  qed
qed

interpretation relay_routine: relaying_service cfg UDS_SID_ROUTINE_CONTROL 4
    "uds_internal_handle_routine_control cfg" "routine_relay cfg" for cfg :: "'w config"
proof
  fix s :: "'w machine" and data :: "u8 list"
  assume a: "compliant cfg" "wfm cfg s" "4 \<le> length data" "data ! 0 = UDS_SID_ROUTINE_CONTROL"
  note b = wfm_basic [OF a(2)] compliant_basic [OF a(1)]
  obtain a b c d e f xs where t: "tx_buf s = a # b # c # d # e # f # xs"
    "unat (tx_buffer_size cfg) = 6 + length xs" using buffer_header [OF a(2,1)] .
  show "ok (uds_internal_handle_routine_control cfg data s)
      (\<lambda>x. fst x \<le> 0 \<and> relayed data (routine_relay cfg data s) s (snd x))"
  proof (cases "fn_routine_control cfg")
    case None
    then show ?thesis using a b by (auto simp: uds_internal_handle_routine_control_def routine_relay_def relay_simps
        intro!: ok_if ok_refused ok_accepted)
  next
    case (Some g)
    obtain res out w where r: "g (ctx_view s) (app s) (data ! Suc 0) (be16 (data ! 2) (data ! 3)) (drop 4 data) (tx_buffer_size cfg - 4) = ((res, out), w)"
      by (metis prod.exhaust)
    have f: "fits (unat (tx_buffer_size cfg - 4)) (res, out)"
      using compliant_fits(4) [OF a(1) Some, of "ctx_view s" "app s" "data ! Suc 0" "be16 (data ! 2) (data ! 3)" "drop 4 data"] r by simp
    note len = fits_room [OF f] fits_len [OF f] fits_count [OF f]
    show ?thesis using a b t len Some
      by (auto simp: uds_internal_handle_routine_control_def routine_relay_def relay_simps r split: option.splits
          intro!: ok_if ok_refused ok_accepted)
  qed
qed

interpretation relay_download: relaying_service cfg UDS_SID_REQUEST_DOWNLOAD 4
    "uds_internal_handle_request_download cfg" "transfer_relay 0x74 True HDownload (fn_request_download cfg)" for cfg :: "'w config"
proof
  fix s :: "'w machine" and data :: "u8 list"
  assume a: "compliant cfg" "wfm cfg s" "4 \<le> length data" "data ! 0 = UDS_SID_REQUEST_DOWNLOAD"
  note b = wfm_basic [OF a(2)] compliant_basic [OF a(1)]
  obtain a b c d e f xs where t: "tx_buf s = a # b # c # d # e # f # xs"
    "unat (tx_buffer_size cfg) = 6 + length xs" using buffer_header [OF a(2,1)] .
  show "ok (uds_internal_handle_request_download cfg data s)
      (\<lambda>x. fst x \<le> 0 \<and> relayed data (transfer_relay 0x74 True HDownload (fn_request_download cfg) data s) s (snd x))"
    using a b t
    by (auto simp: uds_internal_handle_request_download_def transfer_relay_def transfer_response_def relay_simps split: option.splits
        intro!: ok_if ok_refused ok_accepted)
qed

interpretation relay_upload: relaying_service cfg UDS_SID_REQUEST_UPLOAD 4
    "uds_internal_handle_request_upload cfg" "transfer_relay 0x75 False HUpload (fn_request_upload cfg)" for cfg :: "'w config"
proof
  fix s :: "'w machine" and data :: "u8 list"
  assume a: "compliant cfg" "wfm cfg s" "4 \<le> length data" "data ! 0 = UDS_SID_REQUEST_UPLOAD"
  note b = wfm_basic [OF a(2)] compliant_basic [OF a(1)]
  obtain a b c d e f xs where t: "tx_buf s = a # b # c # d # e # f # xs"
    "unat (tx_buffer_size cfg) = 6 + length xs" using buffer_header [OF a(2,1)] .
  show "ok (uds_internal_handle_request_upload cfg data s)
      (\<lambda>x. fst x \<le> 0 \<and> relayed data (transfer_relay 0x75 False HUpload (fn_request_upload cfg) data s) s (snd x))"
    using a b t
    by (auto simp: uds_internal_handle_request_upload_def transfer_relay_def transfer_response_def relay_simps split: option.splits
        intro!: ok_if ok_refused ok_accepted)
qed

interpretation relay_setting: relaying_service cfg UDS_SID_CONTROL_DTC_SETTING 2
    "uds_internal_handle_control_dtc_setting cfg" "dtc_setting_relay cfg" for cfg :: "'w config"
proof
  fix s :: "'w machine" and data :: "u8 list"
  assume a: "compliant cfg" "wfm cfg s" "2 \<le> length data" "data ! 0 = UDS_SID_CONTROL_DTC_SETTING"
    and flag: "UDS_SID_CONTROL_DTC_SETTING \<in> {0x11, 0x19, 0x28, 0x85} \<longrightarrow> suppress_pos_resp s = (data ! 1 AND 0x80 \<noteq> 0)"
  have flag': "suppress_pos_resp s = (data ! Suc 0 AND 0x80 \<noteq> 0)" using flag by simp
  note b = wfm_basic [OF a(2)] compliant_basic [OF a(1)]
  obtain a b c d e f xs where t: "tx_buf s = a # b # c # d # e # f # xs"
    "unat (tx_buffer_size cfg) = 6 + length xs" using buffer_header [OF a(2,1)] .
  show "ok (uds_internal_handle_control_dtc_setting cfg data s)
      (\<lambda>x. fst x \<le> 0 \<and> relayed data (dtc_setting_relay cfg data s) s (snd x))"
    using a b t flag'
    by (auto simp: uds_internal_handle_control_dtc_setting_def dtc_setting_relay_def relay_simps flag_set [OF flag'] split: option.splits
        intro!: ok_if ok_refused ok_accepted relayed_silent [where cfg = cfg])
qed

interpretation relay_reset: relaying_service cfg UDS_SID_ECU_RESET 2
    "uds_internal_handle_ecu_reset cfg" "reset_relay cfg" for cfg :: "'w config"
proof
  fix s :: "'w machine" and data :: "u8 list"
  assume a: "compliant cfg" "wfm cfg s" "2 \<le> length data" "data ! 0 = UDS_SID_ECU_RESET"
    and flag: "UDS_SID_ECU_RESET \<in> {0x11, 0x19, 0x28, 0x85} \<longrightarrow> suppress_pos_resp s = (data ! 1 AND 0x80 \<noteq> 0)"
  have flag': "suppress_pos_resp s = (data ! Suc 0 AND 0x80 \<noteq> 0)" using flag by simp
  note b = wfm_basic [OF a(2)] compliant_basic [OF a(1)]
  obtain a b c d e f xs where t: "tx_buf s = a # b # c # d # e # f # xs"
    "unat (tx_buffer_size cfg) = 6 + length xs" using buffer_header [OF a(2,1)] .
  show "ok (uds_internal_handle_ecu_reset cfg data s)
      (\<lambda>x. fst x \<le> 0 \<and> relayed data (reset_relay cfg data s) s (snd x))"
    using a b t flag'
    by (auto simp: uds_internal_handle_ecu_reset_def reset_relay_def relay_simps flag_set [OF flag'] split: option.splits
        intro!: ok_if ok_refused ok_accepted relayed_silent [where cfg = cfg])
qed

interpretation relay_comm: relaying_service cfg UDS_SID_COMM_CONTROL 2
    "uds_internal_handle_comm_control cfg" "comm_relay cfg" for cfg :: "'w config"
proof
  fix s :: "'w machine" and data :: "u8 list"
  assume a: "compliant cfg" "wfm cfg s" "2 \<le> length data" "data ! 0 = UDS_SID_COMM_CONTROL"
    and flag: "UDS_SID_COMM_CONTROL \<in> {0x11, 0x19, 0x28, 0x85} \<longrightarrow> suppress_pos_resp s = (data ! 1 AND 0x80 \<noteq> 0)"
  have flag': "suppress_pos_resp s = (data ! Suc 0 AND 0x80 \<noteq> 0)" using flag by simp
  note b = wfm_basic [OF a(2)] compliant_basic [OF a(1)]
  obtain a b c d e f xs where t: "tx_buf s = a # b # c # d # e # f # xs"
    "unat (tx_buffer_size cfg) = 6 + length xs" using buffer_header [OF a(2,1)] .
  show "ok (uds_internal_handle_comm_control cfg data s)
      (\<lambda>x. fst x \<le> 0 \<and> relayed data (comm_relay cfg data s) s (snd x))"
    using a b t flag'
    by (auto simp: uds_internal_handle_comm_control_def comm_relay_def relay_simps flag_set [OF flag'] split: option.splits
        intro!: ok_if ok_refused ok_accepted relayed_silent [where cfg = cfg])
qed

interpretation relay_read_dtc: relaying_service cfg UDS_SID_READ_DTC_INFO 2
    "uds_internal_handle_read_dtc_info cfg" "read_dtc_relay cfg" for cfg :: "'w config"
proof
  fix s :: "'w machine" and data :: "u8 list"
  assume a: "compliant cfg" "wfm cfg s" "2 \<le> length data" "data ! 0 = UDS_SID_READ_DTC_INFO"
    and flag: "UDS_SID_READ_DTC_INFO \<in> {0x11, 0x19, 0x28, 0x85} \<longrightarrow> suppress_pos_resp s = (data ! 1 AND 0x80 \<noteq> 0)"
  have flag': "suppress_pos_resp s = (data ! Suc 0 AND 0x80 \<noteq> 0)" using flag by simp
  note b = wfm_basic [OF a(2)] compliant_basic [OF a(1)]
  obtain a b c d e f xs where t: "tx_buf s = a # b # c # d # e # f # xs"
    "unat (tx_buffer_size cfg) = 6 + length xs" using buffer_header [OF a(2,1)] .
  show "ok (uds_internal_handle_read_dtc_info cfg data s)
      (\<lambda>x. fst x \<le> 0 \<and> relayed data (read_dtc_relay cfg data s) s (snd x))"
  proof (cases "fn_dtc_read cfg")
    case None
    then show ?thesis using a b flag' by (auto simp: uds_internal_handle_read_dtc_info_def read_dtc_relay_def dtc_mask_required_def relay_simps flag_set [OF flag']
        intro!: ok_if ok_refused ok_accepted relayed_silent [where cfg = cfg])
  next
    case (Some g)
    obtain res out w where r: "g (ctx_view s) (app s) (data ! Suc 0 AND 0x7F) (tx_buffer_size cfg - 2) = ((res, out), w)"
      by (metis prod.exhaust)
    have f: "fits (unat (tx_buffer_size cfg - 2)) (res, out)"
      using compliant_fits(2) [OF a(1) Some, of "ctx_view s" "app s" "data ! Suc 0 AND 0x7F"] r by simp
    note len = fits_room [OF f] fits_len [OF f] fits_count [OF f]
    show ?thesis using a b t len Some flag'
      by (auto simp: uds_internal_handle_read_dtc_info_def read_dtc_relay_def dtc_mask_required_def relay_simps flag_set [OF flag'] r split: option.splits
          intro!: ok_if ok_refused ok_accepted relayed_silent [where cfg = cfg])
  qed
qed

interpretation relay_io: relaying_service cfg UDS_SID_IO_CONTROL_BY_ID 4
    "uds_internal_handle_io_control cfg" "io_relay cfg" for cfg :: "'w config"
proof
  fix s :: "'w machine" and data :: "u8 list"
  assume a: "compliant cfg" "wfm cfg s" "4 \<le> length data" "data ! 0 = UDS_SID_IO_CONTROL_BY_ID"
  note b = wfm_basic [OF a(2)] compliant_basic [OF a(1)]
  obtain a b c d e f xs where t: "tx_buf s = a # b # c # d # e # f # xs"
    "unat (tx_buffer_size cfg) = 6 + length xs" using buffer_header [OF a(2,1)] .
  have sec: "did_security_denied e s = Some (\<not> did_unlocked e s)"
    if "List.find (\<lambda>e. did_id e = i) (did_table cfg) = Some e" for e i
    by (rule did_security_denied_eq [OF a(2) find_in_table [OF that]])
  show "ok (uds_internal_handle_io_control cfg data s)
      (\<lambda>x. fst x \<le> 0 \<and> relayed data (io_relay cfg data s) s (snd x))"
  proof (cases "fn_io_control cfg")
    case None
    then show ?thesis using a b by (auto simp: uds_internal_handle_io_control_def io_relay_def find_did_eq did_session_denied_eq sec relay_simps
        intro!: ok_if ok_refused ok_accepted)
  next
    case (Some g)
    obtain res out w where r: "g (ctx_view s) (app s) (be16 (data ! Suc 0) (data ! 2)) (data ! 3) (drop 4 data) (tx_buffer_size cfg - 3) = ((res, out), w)"
      by (metis prod.exhaust)
    have f: "fits (unat (tx_buffer_size cfg - 3)) (res, out)"
      using compliant_fits(5) [OF a(1) Some, of "ctx_view s" "app s" "be16 (data ! Suc 0) (data ! 2)" "data ! 3" "drop 4 data"] r by simp
    note len = fits_room [OF f] fits_len [OF f] fits_count [OF f]
    show ?thesis using a b t len Some
      by (auto simp: uds_internal_handle_io_control_def io_relay_def find_did_eq did_session_denied_eq sec relay_simps r split: option.splits
          intro!: ok_if ok_refused ok_accepted)
  qed
qed

interpretation relay_mem: relaying_service cfg UDS_SID_READ_MEM_BY_ADDR 3
    "uds_internal_handle_read_memory_by_addr cfg" "mem_read_relay cfg" for cfg :: "'w config"
proof
  fix s :: "'w machine" and data :: "u8 list"
  assume a: "compliant cfg" "wfm cfg s" "3 \<le> length data" "data ! 0 = UDS_SID_READ_MEM_BY_ADDR"
  note b = wfm_basic [OF a(2)] compliant_basic [OF a(1)]
  obtain a b c d e f xs where t: "tx_buf s = a # b # c # d # e # f # xs"
    "unat (tx_buffer_size cfg) = 6 + length xs" using buffer_header [OF a(2,1)] .
  have room: "sz > ucast (tx_buffer_size cfg) - 1 \<longleftrightarrow> unat (tx_buffer_size cfg) < unat sz + 1" for sz :: u32
    using t(2) by (simp add: word_less_nat_alt unat_minus_le)
  have len: "unat (ucast (sz + 1) :: u16) = Suc (unat sz)"
    if "\<not> unat (tx_buffer_size cfg) < unat sz + 1" for sz :: u32
    using that u16_less [of "tx_buffer_size cfg"]
    by (simp add: unsigned_ucast_eq take_bit_eq_mod unat_word_ariths del: u16_less)
  show "ok (uds_internal_handle_read_memory_by_addr cfg data s)
      (\<lambda>x. fst x \<le> 0 \<and> relayed data (mem_read_relay cfg data s) s (snd x))"
  proof (cases "fn_mem_read cfg")
    case None
    then show ?thesis using a b
      by (auto simp: uds_internal_handle_read_memory_by_addr_def mem_read_relay_def relay_simps split: option.splits
          intro!: ok_if ok_refused ok_accepted)
  next
    case (Some g)
    show ?thesis
    proof (cases "uds_internal_parse_addr_len (drop 2 data) (data ! Suc 0)")
      case None
      then show ?thesis using a b
        by (auto simp: uds_internal_handle_read_memory_by_addr_def mem_read_relay_def relay_simps
            intro!: ok_if ok_refused)
    next
      case (Some p)
      obtain addr sz where p: "p = (addr, sz)" by fastforce
      obtain res out w where r: "g (ctx_view s) (app s) addr sz = ((res, out), w)"
        by (metis prod.exhaust)
      have fill: "length out \<le> unat sz"
        using compliant_fits(7) [OF a(1) \<open>fn_mem_read cfg = Some g\<close>, of "ctx_view s" "app s" addr sz] r by simp
      note parsed = Some [unfolded p]
      show ?thesis using a b t parsed \<open>fn_mem_read cfg = Some g\<close> fill len [of sz]
        by (auto simp: uds_internal_handle_read_memory_by_addr_def mem_read_relay_def relay_simps room r
            intro!: ok_if ok_refused ok_accepted)
    qed
  qed
qed

section \<open>Property\<close>

text \<open>The handler the service table holds for a relayed service implements its reference.\<close>

lemma find_distinct:
  "distinct (map f xs) \<Longrightarrow> x \<in> set xs \<Longrightarrow> f x = k \<Longrightarrow> List.find (\<lambda>y. f y = k) xs = Some x"
  by (induction xs) auto

lemma core_entry:
  assumes "e \<in> set (core_services cfg)" "svc_sid e = sid"
  shows "List.find (\<lambda>x. svc_sid x = sid) (core_services cfg) = Some e"
  by (rule find_distinct [where f = svc_sid, OF _ assms]) (simp add: core_services_def core_service_def)

lemma core_relays:
  assumes "e \<in> set (core_services cfg)" "svc_sid e = data ! 0" "relay_of cfg data t = Some r"
    and "compliant cfg" "wfm cfg t" "unat (svc_min_len e) \<le> length data"
    and "data ! 0 \<in> {0x11, 0x19, 0x28, 0x85} \<longrightarrow> suppress_pos_resp t = (data ! 1 AND 0x80 \<noteq> 0)"
  shows "ok (svc_handler e data t) (\<lambda>x. fst x \<le> 0 \<and> relayed data r t (snd x))"
proof -
  consider "data ! 0 = 0x11" | "data ! 0 = 0x14" | "data ! 0 = 0x19" | "data ! 0 = 0x23" | "data ! 0 = 0x28"
    | "data ! 0 = 0x29" | "data ! 0 = 0x2F" | "data ! 0 = 0x31" | "data ! 0 = 0x34" | "data ! 0 = 0x35"
    | "data ! 0 = 0x37" | "data ! 0 = 0x85"
    using assms(3) by (auto simp: relay_of_def Let_def split: if_splits)
  then show ?thesis
  proof cases
    case 1
    then show ?thesis using relay_reset.relays [OF assms(4,5), of data] core_entry [OF assms(1,2)] assms(3,6,7)
      by (auto simp: core_services_def core_service_def relay_of_def)
  next
    case 2
    then show ?thesis using relay_clear.relays [OF assms(4,5), of data] core_entry [OF assms(1,2)] assms(3,6,7)
      by (auto simp: core_services_def core_service_def relay_of_def)
  next
    case 3
    then show ?thesis using relay_read_dtc.relays [OF assms(4,5), of data] core_entry [OF assms(1,2)] assms(3,6,7)
      by (auto simp: core_services_def core_service_def relay_of_def)
  next
    case 4
    then show ?thesis using relay_mem.relays [OF assms(4,5), of data] core_entry [OF assms(1,2)] assms(3,6,7)
      by (auto simp: core_services_def core_service_def relay_of_def)
  next
    case 5
    then show ?thesis using relay_comm.relays [OF assms(4,5), of data] core_entry [OF assms(1,2)] assms(3,6,7)
      by (auto simp: core_services_def core_service_def relay_of_def)
  next
    case 6
    then show ?thesis using relay_auth.relays [OF assms(4,5), of data] core_entry [OF assms(1,2)] assms(3,6,7)
      by (auto simp: core_services_def core_service_def relay_of_def)
  next
    case 7
    then show ?thesis using relay_io.relays [OF assms(4,5), of data] core_entry [OF assms(1,2)] assms(3,6,7)
      by (auto simp: core_services_def core_service_def relay_of_def)
  next
    case 8
    then show ?thesis using relay_routine.relays [OF assms(4,5), of data] core_entry [OF assms(1,2)] assms(3,6,7)
      by (auto simp: core_services_def core_service_def relay_of_def)
  next
    case 9
    then show ?thesis using relay_download.relays [OF assms(4,5), of data] core_entry [OF assms(1,2)] assms(3,6,7)
      by (auto simp: core_services_def core_service_def relay_of_def)
  next
    case 10
    then show ?thesis using relay_upload.relays [OF assms(4,5), of data] core_entry [OF assms(1,2)] assms(3,6,7)
      by (auto simp: core_services_def core_service_def relay_of_def)
  next
    case 11
    then show ?thesis using relay_exit.relays [OF assms(4,5), of data] core_entry [OF assms(1,2)] assms(3,6,7)
      by (auto simp: core_services_def core_service_def relay_of_def)
  next
    case 12
    then show ?thesis using relay_setting.relays [OF assms(4,5), of data] core_entry [OF assms(1,2)] assms(3,6,7)
      by (auto simp: core_services_def core_service_def relay_of_def)
  qed
qed

lemma core_flag:
  assumes "e \<in> set (core_services cfg)" "svc_sid e = data ! 0" "\<And>c. \<not> failed cfg e data s c"
    and "data ! 0 \<in> {0x11, 0x19, 0x28, 0x85}"
  shows "suppress_pos_resp (noted data e s) = (data ! 1 AND 0x80 \<noteq> 0)"
proof -
  have "svc_sub_mask e \<noteq> None"
    using core_entry [OF assms(1,2)] assms(4)
    by (auto simp: core_services_def core_service_def)
  moreover have "is_session_supported s e" using assms(3) [of SessionCheck]
    by (simp add: is_session_supported_def)
  ultimately show ?thesis using assms(3) [of SubfunctionCheck] assms(3) [of LengthCheck]
    by (auto simp: noted_def)
qed

lemma gate_keeps:
  assumes "gate cfg sid data s = (b, t)"
  shows "wfm cfg t = wfm cfg s" "suppress_pos_resp t = suppress_pos_resp s"
  using assms by (auto simp: gate_def split: option.splits) (metis called_fields wfm_called snd_conv)+

text \<open>
  C19: the services of the library that ask the application relay its answer as the reference
  says. A request that passes the checks of the dispatcher and the safety gate makes exactly
  the call of the reference, with the bytes of the request, or none; it is answered by the
  fixed header and as many bytes as the callback reports, by the negated result of the
  callback as negative response code, or by the code of the first check the reference fails;
  a positive answer is dropped when suppression is on. The communication state and the block
  counter change exactly when CommunicationControl or a transfer request succeeds; session,
  security level and stored records never change.
\<close>

theorem services_relay:
  assumes "app_ok cfg" "wfm cfg s" "data \<noteq> []"
    and "find_service cfg (data ! 0) = Some e" "e \<in> set (core_services cfg)"
    and "\<And>c. \<not> failed cfg e data s c" "gate cfg (data ! 0) data (noted data e s) = (True, t)"
    and "relay_of cfg data t = Some r"
  shows "\<exists>s'. handle_request cfg data s = Some s'
    \<and> hooks_of (tr s') = hooks_of (tr t) @ relay_calls r
    \<and> sent (tr s') = sent (tr t) @ relay_answer (data ! 0) t r
    \<and> comm_state s' = (if data ! 0 = 0x28 \<and> accepted r then data ! 1 AND 0x7F else comm_state t)
    \<and> flash_sequence s' = (if data ! 0 \<in> {0x34, 0x35} \<and> accepted r then 0 else flash_sequence t)
    \<and> active_session s' = active_session t \<and> security_level s' = security_level t
    \<and> did_store s' = did_store t"
proof -
  have c: "compliant cfg" using assms(1) by (simp add: app_ok_def)
  have sid: "svc_sid e = data ! 0" by (rule find_service_sid [OF assms(4)])
  have m: "\<forall>m. svc_sub_mask e = Some m \<longrightarrow> length m = 16"
    using find_service_served [OF assms(1,4)] by (simp add: served_def)
  have len: "unat (svc_min_len e) \<le> length data" using assms(6) [of LengthCheck] by simp
  have w: "wfm cfg t" using gate_keeps [OF assms(7)] assms(2) by simp
  have "ok (svc_handler e data t) (\<lambda>x. fst x \<le> 0 \<and> relayed data r t (snd x))"
    using core_relays [OF assms(5) sid assms(8) c w len] core_flag [OF assms(5) sid assms(6)]
      gate_keeps(2) [OF assms(7)] by simp
  then have "ok (handle_request cfg data s) (relayed data r t)"
    unfolding handle_request_spec [OF assms(3,4) m] verdict_passed [OF assms(6)] assms(7)
    by (auto simp: ok_iff execute_handler_def)
  then show ?thesis by (auto simp: ok_iff relayed_def)
qed

definition dtc_config :: "u32 config" where
  "dtc_config = clock_config\<lparr>fn_dtc_read := Some (\<lambda>c w sub n. ((3, [0xAA]), w))\<rparr>"

text \<open>
  A callback that reports three bytes and writes one: the other two are what the buffer held.
\<close>

theorem services_relay_witness:
  "\<exists>s'. handle_request dtc_config [0x19, 0x02, 0xFF] ((base_machine 0)\<lparr>tx_buf := replicate 64 0xEE\<rparr>) = Some s'
    \<and> hooks_of (tr s') = [HDtcRead 0x02] \<and> sent (tr s') = [[0x59, 0x02, 0xAA, 0xEE, 0xEE]]"
proof -
  let ?s = "(base_machine 0)\<lparr>tx_buf := replicate 64 0xEE\<rparr>"
  let ?e = "core_service 0x19 2 (uds_internal_handle_read_dtc_info dtc_config) (Some UDS_MASK_SUB_19)"
  let ?r = "Relay (HDtcRead 2) (3, [0xAA]) failing [0x59, 2] nat"
  have c: "app_ok dtc_config" using clock_compliant
    by (simp add: app_ok_def compliant_def did_secured_def dtc_config_def clock_fields fits_def)
  have w: "wfm dtc_config ?s" using clock_wfm [of 0]
    by (simp add: wfm_def did_secured_def dtc_config_def clock_fields machine_fields)
  have f: "find_service dtc_config 0x19 = Some ?e" "?e \<in> set (core_services dtc_config)"
    by (simp_all add: find_service_def dtc_config_def clock_fields core_services_def core_service_def)
  have k: "\<not> failed dtc_config ?e [0x19, 2, 0xFF] ?s c" for c
    by (cases c) (simp_all add: core_service_def get_session_bit_def machine_fields sub_listed_def
        UDS_MASK_SUB_19_def mask16_def)
  have n: "noted [0x19, 2, 0xFF] ?e ?s = ?s"
    by (simp add: noted_def) (cases "base_machine 0 :: u32 machine", simp add: base_machine_def)
  have g: "gate dtc_config 0x19 [0x19, 2, 0xFF] ?s = (True, ?s)"
    by (simp add: gate_def dtc_config_def clock_fields)
  have r: "relay_of dtc_config [0x19, 2, 0xFF] ?s = Some ?r"
    by (simp add: relay_of_def read_dtc_relay_def dtc_config_def)
  show ?thesis
    using services_relay [OF c w _ _ f(2) k, of ?s ?r] f(1) n g r
    by (auto simp: failing_def machine_fields buffer_64 numeral_eq_Suc)
qed

end
