(* ===== verification/Uds_Isotp.thy ===== *)
theory Uds_Isotp
  imports Uds_Requests
begin

text \<open>
  \<open>uds_tp_isotp.c\<close>: the ISO-TP transport (ISO 15765-2), which cuts an SDU into CAN
  frames and puts received frames together again. Its static variables are the record
  \<open>isotp\<close>, which takes the place of the application state \<open>'w\<close> of the machine when the
  stack is linked with this transport.
\<close>

section \<open>State\<close>

abbreviation (input) ISOTP_PCI_SF :: u8 where "ISOTP_PCI_SF \<equiv> 0x00"
abbreviation (input) ISOTP_PCI_FF :: u8 where "ISOTP_PCI_FF \<equiv> 0x10"
abbreviation (input) ISOTP_PCI_CF :: u8 where "ISOTP_PCI_CF \<equiv> 0x20"
abbreviation (input) ISOTP_PCI_FC :: u8 where "ISOTP_PCI_FC \<equiv> 0x30"
abbreviation (input) ISOTP_MAX_DL_CAN :: u8 where "ISOTP_MAX_DL_CAN \<equiv> 8"
abbreviation (input) ISOTP_MAX_DL_CANFD :: u8 where "ISOTP_MAX_DL_CANFD \<equiv> 64"
abbreviation (input) ISOTP_SF_MAX_DL_CAN :: nat where "ISOTP_SF_MAX_DL_CAN \<equiv> 7"
abbreviation (input) ISOTP_SF_MAX_DL_CANFD :: nat where "ISOTP_SF_MAX_DL_CANFD \<equiv> 62"
abbreviation (input) ISOTP_FF_MAX_DATA_CAN :: u8 where "ISOTP_FF_MAX_DATA_CAN \<equiv> 6"
abbreviation (input) ISOTP_FF_MAX_DATA_CANFD :: u8 where "ISOTP_FF_MAX_DATA_CANFD \<equiv> 62"
abbreviation (input) ISOTP_FC_CTS :: u8 where "ISOTP_FC_CTS \<equiv> 0"
abbreviation (input) ISOTP_MAX_SDU_LEN_STD :: nat where "ISOTP_MAX_SDU_LEN_STD \<equiv> 4095"

datatype isotp_state = ISOTP_IDLE | ISOTP_RX_WAIT_CF | ISOTP_TX_WAIT_FC | ISOTP_TX_SENDING_CF

text \<open>
  \<open>uds_can_send_fn\<close>, the driver the user supplies, with the result its documentation
  promises: 0 on success, a negative error code on failure.
\<close>

typedef 'c driver =
  "{f :: 'c \<Rightarrow> u32 \<Rightarrow> u8 list \<Rightarrow> int \<times> 'c. \<forall>b i bs. fst (f b i bs) \<le> 0}"
  morphisms drive Driver
proof (rule exI)
  show "(\<lambda>b i bs. (-1, b)) \<in> {f :: 'c \<Rightarrow> u32 \<Rightarrow> u8 list \<Rightarrow> int \<times> 'c. \<forall>b i bs. fst (f b i bs) \<le> 0}"
    by simp
qed

setup_lifting type_definition_driver

lemma drive_status: "fst (drive f b i bs) \<le> 0"
  using drive [of f] by simp

text \<open>
  \<open>uds_isotp_ctx_t\<close> with the two variables for a pending transmission. \<open>bus\<close> is the
  state of the CAN driver and of everything else outside the stack, \<open>frames\<close> a ghost
  trace of the frames the driver accepted (identifier and payload).
\<close>

record 'c isotp =
  can_send :: "'c driver option"
  tx_id :: u32
  rx_id :: u32
  block_size :: u8
  st_min :: u8
  use_can_fd :: u8
  iso_state :: isotp_state
  msg_len :: u16
  bytes_processed :: u16
  iso_sn :: u8
  bs_counter :: u8
  timer_n_cr :: u32
  timer_n_bs :: u32
  timer_st :: u32
  tx_dl :: u8
  pending_tx_sdu :: "u8 list"
  pending_tx_len :: u16
  bus :: 'c
  frames :: "(u32 \<times> u8 list) list"

text \<open>The static variables before the program starts; \<open>b\<close> is the state of the driver.\<close>

definition isotp_static :: "'c \<Rightarrow> 'c isotp" where
  "isotp_static b = \<lparr>can_send = None, tx_id = 0, rx_id = 0, block_size = 0, st_min = 0,
     use_can_fd = 0, iso_state = ISOTP_IDLE, msg_len = 0, bytes_processed = 0, iso_sn = 0,
     bs_counter = 0, timer_n_cr = 0, timer_n_bs = 0, timer_st = 0, tx_dl = 0,
     pending_tx_sdu = replicate 1024 0, pending_tx_len = 0, bus = b, frames = []\<rparr>"

section \<open>Frames\<close>

definition uds_internal_tp_send_frame :: "u8 list \<Rightarrow> 'c isotp \<Rightarrow> int \<times> 'c isotp" where
  "uds_internal_tp_send_frame data g = (case can_send g of
       None \<Rightarrow> (-1, g)
     | Some f \<Rightarrow>
         let (r, b) = drive f (bus g) (tx_id g) data
         in (r, g\<lparr>bus := b,
              frames := (if r = 0 then frames g @ [(tx_id g, data)] else frames g)\<rparr>))"

definition uds_dlc_align :: "u8 \<Rightarrow> u8" where
  "uds_dlc_align len =
     (if len \<le> ISOTP_MAX_DL_CAN then len
      else if len \<le> 12 then 12
      else if len \<le> 16 then 16
      else if len \<le> 20 then 20
      else if len \<le> 24 then 24
      else if len \<le> 32 then 32
      else if len \<le> 48 then 48
      else ISOTP_MAX_DL_CANFD)"

text \<open>The conditional \<open>(n > room) ? room : (uint8_t) n\<close>.\<close>

definition clip :: "u8 \<Rightarrow> u16 \<Rightarrow> u8" where
  "clip room n = (if n > ucast room then room else ucast n)"

text \<open>
  A local \<open>uint8_t frame[64] = {0}\<close> with a header, a \<open>memcpy\<close> of the payload behind it,
  of which the first \<open>dl\<close> bytes are sent. \<open>None\<close> when the copy or the send leaves the
  array.
\<close>

definition build_frame :: "u8 list \<Rightarrow> u8 list \<Rightarrow> nat \<Rightarrow> u8 list option" where
  "build_frame hdr payload dl = do {
     f \<leftarrow> blit 0 hdr (replicate 64 0);
     f \<leftarrow> blit (length hdr) payload f;
     bytes_at f 0 dl }"

section \<open>Public functions: set up and send\<close>

definition uds_tp_isotp_init :: "'c driver option \<Rightarrow> u32 \<Rightarrow> u32
    \<Rightarrow> 'c isotp \<Rightarrow> 'c isotp" where
  "uds_tp_isotp_init send_fn tx rx g =
     g\<lparr>can_send := send_fn, tx_id := tx, rx_id := rx, block_size := 8, st_min := 0,
         use_can_fd := 0, iso_state := ISOTP_IDLE, msg_len := 0, bytes_processed := 0,
         iso_sn := 0, bs_counter := 0, timer_n_cr := 0, timer_n_bs := 0, timer_st := 0,
         tx_dl := ISOTP_MAX_DL_CAN\<rparr>"

definition uds_tp_isotp_set_fd :: "bool \<Rightarrow> 'c isotp \<Rightarrow> 'c isotp" where
  "uds_tp_isotp_set_fd enabled g =
     g\<lparr>use_can_fd := (if enabled then 1 else 0),
         tx_dl := (if enabled then ISOTP_MAX_DL_CANFD else ISOTP_MAX_DL_CAN)\<rparr>"

definition uds_send_sf :: "u8 list \<Rightarrow> 'c isotp \<Rightarrow> (int \<times> 'c isotp) option" where
  "uds_send_sf data g =
     (let len = (of_nat (length data) :: u16) in
      if length data \<le> ISOTP_SF_MAX_DL_CAN then do {
        f \<leftarrow> build_frame [ISOTP_PCI_SF OR ucast len] data (unat ISOTP_MAX_DL_CAN);
        Some (uds_internal_tp_send_frame f g) }
      else do {
        f \<leftarrow> build_frame [ISOTP_PCI_SF, ucast len] data (unat (uds_dlc_align (ucast (len + 2))));
        Some (uds_internal_tp_send_frame f g) })"

definition uds_send_mf :: "u8 list \<Rightarrow> 'c isotp \<Rightarrow> (int \<times> 'c isotp) option" where
  "uds_send_mf data g =
     (if length data > ISOTP_MAX_SDU_LEN_STD \<or> length data > 1024 then Some (-2, g)
      else do {
        sdu \<leftarrow> blit 0 data (pending_tx_sdu g);
        let len = (of_nat (length data) :: u16);
        let g = g\<lparr>pending_tx_sdu := sdu, pending_tx_len := len, msg_len := len,
                      bytes_processed := 0, iso_state := ISOTP_TX_WAIT_FC\<rparr>;
        let max_data_in_ff = (if use_can_fd g \<noteq> 0 then ISOTP_FF_MAX_DATA_CANFD else ISOTP_FF_MAX_DATA_CAN);
        let to_copy = clip max_data_in_ff len;
        bs \<leftarrow> bytes_at data 0 (unat to_copy);
        let g = g\<lparr>bytes_processed := ucast to_copy, iso_sn := 1\<rparr>;
        let dl = (if use_can_fd g \<noteq> 0 then uds_dlc_align (2 + to_copy) else ISOTP_MAX_DL_CAN);
        f \<leftarrow> build_frame [ISOTP_PCI_FF OR (ucast (drop_bit 8 len) AND 0x0F), lo8 len] bs (unat dl);
        let (r, g) = uds_internal_tp_send_frame f g;
        Some (if r \<noteq> 0 then -1 else 0, g) })"

definition uds_isotp_send :: "u8 list \<Rightarrow> 'c isotp \<Rightarrow> (int \<times> 'c isotp) option" where
  "uds_isotp_send data g =
     (let max_sf_len = (if use_can_fd g \<noteq> 0 then ISOTP_SF_MAX_DL_CANFD else ISOTP_SF_MAX_DL_CAN) in
      if length data \<le> max_sf_len then uds_send_sf data g else uds_send_mf data g)"

section \<open>Public functions: the transmit loop\<close>

text \<open>The separation time that a flow control frame asks for, in milliseconds.\<close>

definition required_st :: "u8 \<Rightarrow> u32" where
  "required_st st = (if st \<ge> 0xF1 \<and> st \<le> 0xF9 then 1 else if st > 0x7F then 0 else ucast st)"

definition uds_send_cf :: "u32 \<Rightarrow> u16 \<Rightarrow> 'c isotp \<Rightarrow> 'c isotp option" where
  "uds_send_cf time_ms remaining g = do {
     let max_cf_payload = (if use_can_fd g \<noteq> 0 then 63 else 7 :: u8);
     let to_copy = clip max_cf_payload remaining;
     bs \<leftarrow> bytes_at (pending_tx_sdu g) (unat (bytes_processed g)) (unat to_copy);
     let dl = (if use_can_fd g \<noteq> 0 then uds_dlc_align (1 + to_copy) else ISOTP_MAX_DL_CAN);
     f \<leftarrow> build_frame [ISOTP_PCI_CF OR iso_sn g] bs (unat dl);
     let (r, g) = uds_internal_tp_send_frame f g;
     Some (if r = 0 then
        let g = g\<lparr>bytes_processed := bytes_processed g + ucast to_copy,
                      iso_sn := (iso_sn g + 1) AND 0x0F,
                      bs_counter := bs_counter g + 1, timer_st := time_ms\<rparr>
        in if bytes_processed g \<ge> msg_len g then g\<lparr>iso_state := ISOTP_IDLE\<rparr> else g
      else g) }"

definition uds_tp_isotp_process :: "u32 \<Rightarrow> 'c isotp \<Rightarrow> 'c isotp option" where
  "uds_tp_isotp_process time_ms g =
     (if iso_state g \<noteq> ISOTP_TX_SENDING_CF then Some g
      else let remaining = msg_len g - bytes_processed g in
        if remaining = 0 then Some (g\<lparr>iso_state := ISOTP_IDLE\<rparr>)
        else if time_ms - timer_st g < required_st (st_min g) then Some g
        else if block_size g > 0 \<and> bs_counter g \<ge> block_size g
        then Some (g\<lparr>iso_state := ISOTP_TX_WAIT_FC, bs_counter := 0\<rparr>)
        else uds_send_cf time_ms remaining g)"

section \<open>Public functions: reception\<close>

text \<open>
  The transport linked below the stack: \<open>config->fn_tp_send\<close> is \<open>uds_isotp_send\<close>, and a
  received frame runs on the machine, whose \<open>app\<close> is the transport. A frame is the list
  of its \<open>len\<close> bytes, so an access behind them is \<open>None\<close>.
\<close>

definition isotp_tp :: "uds_ctx \<Rightarrow> 'c isotp \<Rightarrow> u8 list \<Rightarrow> int \<times> 'c isotp" where
  "isotp_tp c g data = (case uds_isotp_send data g of Some r \<Rightarrow> r | None \<Rightarrow> (-1, g))"

definition with_iso :: "('c isotp \<Rightarrow> 'c isotp) \<Rightarrow> 'c isotp machine \<Rightarrow> 'c isotp machine" where
  "with_iso f s = s\<lparr>app := f (app s)\<rparr>"

definition uds_rx_sf :: "'c isotp config \<Rightarrow> 'c isotp callbacks \<Rightarrow> u8 list \<Rightarrow> 'c isotp machine
    \<Rightarrow> 'c isotp machine option" where
  "uds_rx_sf cfg cbs data s = do {
     let s = with_iso (\<lambda>g. g\<lparr>iso_state := ISOTP_IDLE\<rparr>) s;
     d0 \<leftarrow> byte_at data 0;
     (sdu_len, off) \<leftarrow> (if d0 AND 0x0F = 0 then do { d1 \<leftarrow> byte_at data 1; Some (unat d1, 2) }
                       else Some (unat (d0 AND 0x0F), 1));
     if sdu_len = 0 then Some s
     else if int sdu_len > int (length data) - int off then Some s
     else do {
       sdu \<leftarrow> bytes_at data off sdu_len;
       uds_input_sdu cfg cbs (Some sdu) s } }"

definition uds_rx_ff :: "'c isotp config \<Rightarrow> u8 list \<Rightarrow> 'c isotp machine \<Rightarrow> 'c isotp machine option" where
  "uds_rx_ff cfg data s = do {
     let s = with_iso (\<lambda>g. g\<lparr>iso_state := ISOTP_IDLE\<rparr>) s;
     d0 \<leftarrow> byte_at data 0;
     d1 \<leftarrow> byte_at data 1;
     let sdu_len = be16 (d0 AND 0x0F) d1;
     if sdu_len < 8 then Some s
     else do {
       let data_in_ff = (if length data > unat ISOTP_MAX_DL_CAN then of_nat (length data) - 2
                        else ISOTP_FF_MAX_DATA_CAN);
       let s = with_iso (\<lambda>g. g\<lparr>msg_len := sdu_len, bytes_processed := ucast data_in_ff,
                                   iso_sn := 1, iso_state := ISOTP_RX_WAIT_CF\<rparr>) s;
       if ctx_null s \<or> \<not> config_set s then None
       else if rx_buffer_size cfg < sdu_len
       then Some (with_iso (\<lambda>g. g\<lparr>iso_state := ISOTP_IDLE\<rparr>) s)
       else do {
         bs \<leftarrow> bytes_at data 2 (unat data_in_ff);
         b \<leftarrow> blit 0 bs (rx_buf s);
         let s = s\<lparr>rx_buf := b\<rparr>;
         let fc = [ISOTP_PCI_FC OR ISOTP_FC_CTS, block_size (app s), st_min (app s), 0, 0, 0, 0, 0];
         Some (with_iso (\<lambda>g. snd (uds_internal_tp_send_frame fc g)) s) } } }"

definition uds_rx_cf :: "'c isotp config \<Rightarrow> 'c isotp callbacks \<Rightarrow> u8 list \<Rightarrow> 'c isotp machine
    \<Rightarrow> 'c isotp machine option" where
  "uds_rx_cf cfg cbs data s =
     (if iso_state (app s) \<noteq> ISOTP_RX_WAIT_CF then Some s
      else do {
        d0 \<leftarrow> byte_at data 0;
        if d0 AND 0x0F \<noteq> iso_sn (app s)
        then Some (with_iso (\<lambda>g. g\<lparr>iso_state := ISOTP_IDLE\<rparr>) s)
        else do {
          let s = with_iso (\<lambda>g. g\<lparr>iso_sn := (iso_sn g + 1) AND 0x0F\<rparr>) s;
          let remaining = msg_len (app s) - bytes_processed (app s);
          let data_capacity = (of_nat (length data) - 1 :: u8);
          let to_copy = clip data_capacity remaining;
          if ctx_null s \<or> \<not> config_set s then None
          else do {
            bs \<leftarrow> bytes_at data 1 (unat to_copy);
            b \<leftarrow> blit (unat (bytes_processed (app s))) bs (rx_buf s);
            let s = with_iso (\<lambda>g. g\<lparr>bytes_processed := bytes_processed g + ucast to_copy\<rparr>)
                      (s\<lparr>rx_buf := b\<rparr>);
            if bytes_processed (app s) \<ge> msg_len (app s) then do {
              let s = with_iso (\<lambda>g. g\<lparr>iso_state := ISOTP_IDLE\<rparr>) s;
              sdu \<leftarrow> bytes_at (rx_buf s) 0 (unat (msg_len (app s)));
              uds_input_sdu cfg cbs (Some sdu) s }
            else Some s } } })"

definition uds_rx_fc :: "u8 list \<Rightarrow> 'c isotp \<Rightarrow> 'c isotp option" where
  "uds_rx_fc data g =
     (if iso_state g \<noteq> ISOTP_TX_WAIT_FC then Some g
      else do {
        d0 \<leftarrow> byte_at data 0;
        if d0 AND 0x0F = ISOTP_FC_CTS then do {
          d1 \<leftarrow> byte_at data 1;
          d2 \<leftarrow> byte_at data 2;
          Some (g\<lparr>iso_state := ISOTP_TX_SENDING_CF, block_size := d1, st_min := d2\<rparr>) }
        else Some g })"

definition uds_isotp_rx_callback :: "'c isotp config \<Rightarrow> 'c isotp callbacks \<Rightarrow> u32 \<Rightarrow> u8 list
    \<Rightarrow> 'c isotp machine \<Rightarrow> 'c isotp machine option" where
  "uds_isotp_rx_callback cfg cbs i data s =
     (if i \<noteq> rx_id (app s) then Some s
      else do {
        d0 \<leftarrow> byte_at data 0;
        let pci = d0 AND 0xF0;
        if pci = ISOTP_PCI_SF then uds_rx_sf cfg cbs data s
        else if pci = ISOTP_PCI_FF then uds_rx_ff cfg data s
        else if pci = ISOTP_PCI_CF then uds_rx_cf cfg cbs data s
        else if pci = ISOTP_PCI_FC then do { g \<leftarrow> uds_rx_fc data (app s); Some (s\<lparr>app := g\<rparr>) }
        else Some s })"

end
