(* ===== verification/Uds_Isotp_Send.thy ===== *)
theory Uds_Isotp_Send
  imports Uds_Isotp
begin

text \<open>
  The sending half of the ISO-TP transport: the frames an SDU is specified to be cut into
  (\<open>sdu_frames\<close>), the agreement of \<open>uds_isotp_send\<close> with them, and the invariant that the
  transmit loop and flow control keep while the consecutive frames are on the way.
\<close>

section \<open>Frame layout\<close>

text \<open>The specification: the frames of an SDU, in classic CAN and in CAN-FD.\<close>

definition sf_room :: "bool \<Rightarrow> nat" where "sf_room fd = (if fd then 62 else 7)"
definition ff_room :: "bool \<Rightarrow> nat" where "ff_room fd = (if fd then 62 else 6)"
definition cf_room :: "bool \<Rightarrow> nat" where "cf_room fd = (if fd then 63 else 7)"

lemma cf_room_pos [simp]: "0 < cf_room fd" "cf_room fd \<noteq> 0"
  by (simp_all add: cf_room_def)

text \<open>The frame lengths that a CAN-FD controller can send.\<close>

definition can_dl :: "nat \<Rightarrow> nat" where
  "can_dl n = (if n \<le> 8 then n else if n \<le> 12 then 12 else if n \<le> 16 then 16
     else if n \<le> 20 then 20 else if n \<le> 24 then 24 else if n \<le> 32 then 32
     else if n \<le> 48 then 48 else 64)"

definition frame_len :: "bool \<Rightarrow> nat \<Rightarrow> nat" where
  "frame_len fd n = (if fd then can_dl n else 8)"

definition padded :: "nat \<Rightarrow> u8 list \<Rightarrow> u8 list" where
  "padded n bs = bs @ replicate (n - length bs) 0"

function cf_frames :: "bool \<Rightarrow> nat \<Rightarrow> u8 list \<Rightarrow> u8 list list" where
  "cf_frames fd k d = (if d = [] then []
     else let p = take (cf_room fd) d
          in padded (frame_len fd (1 + length p)) ((ISOTP_PCI_CF OR of_nat (k mod 16)) # p)
             # cf_frames fd (Suc k) (drop (cf_room fd) d))"
  by pat_completeness auto
termination by (relation "measure (\<lambda>(fd, k, d). length d)") auto

declare cf_frames.simps [simp del]

definition ff_frame :: "bool \<Rightarrow> u8 list \<Rightarrow> u8 list" where
  "ff_frame fd d =
     (let p = take (ff_room fd) d; n = (of_nat (length d) :: u16)
      in padded (frame_len fd (2 + length p)) ([ISOTP_PCI_FF OR hi8 n, lo8 n] @ p))"

definition mf_frames :: "bool \<Rightarrow> u8 list \<Rightarrow> u8 list list" where
  "mf_frames fd d = ff_frame fd d # cf_frames fd 1 (drop (ff_room fd) d)"

definition sf_frame :: "u8 list \<Rightarrow> u8 list" where
  "sf_frame d = (if length d \<le> 7 then padded 8 (of_nat (length d) # d)
     else padded (can_dl (length d + 2)) ([0, of_nat (length d)] @ d))"

definition sdu_frames :: "bool \<Rightarrow> u8 list \<Rightarrow> u8 list list" where
  "sdu_frames fd d = (if length d \<le> sf_room fd then [sf_frame d] else mf_frames fd d)"

abbreviation fd_mode :: "'c isotp \<Rightarrow> bool" where
  "fd_mode g \<equiv> use_can_fd g \<noteq> 0"

lemma dlc_align_can_dl: "unat (uds_dlc_align n) = can_dl (unat n)"
  by (simp add: uds_dlc_align_def can_dl_def word_le_nat_alt)

lemma can_dl_bounds: "n \<le> 64 \<Longrightarrow> n \<le> can_dl n \<and> can_dl n \<le> 64"
  by (simp add: can_dl_def)

lemma can_dl_least: "n \<le> 64 \<Longrightarrow> can_dl n = (LEAST m. n \<le> m \<and> m \<in> {0..8} \<union> {12,16,20,24,32,48,64})"
  by (rule sym, rule Least_equality) (auto simp: can_dl_def)

lemma build_frame_eq:
  assumes "length hdr + length p \<le> dl" "dl \<le> 64"
  shows "build_frame hdr p dl = Some (padded dl (hdr @ p))"
  using assms by (simp add: build_frame_def blit_Some bytes_at_ok padded_def min_def)

section \<open>Sending an SDU\<close>

lemma unat_clip: "unat (clip room n) = min (unat room) (unat n)"
  using u8_less [of room]
  by (auto simp: clip_def word_less_nat_alt unsigned_ucast_eq min_def take_bit_nat_eq_self_iff simp del: u8_less)

lemma ucast_of_nat_u8: "n < 256 \<Longrightarrow> (ucast (of_nat n :: u16) :: u8) = of_nat n"
  by (simp add: word_unat_eq_iff unsigned_ucast_eq unat_of_nat_u16 unat_of_nat_u8 take_bit_nat_eq_self_iff)

lemma send_sf_eq:
  assumes "length d \<le> 62"
  shows "uds_send_sf d g = Some (uds_internal_tp_send_frame (sf_frame d) g)"
proof (cases "length d \<le> 7")
  case True
  then show ?thesis
    by (simp add: uds_send_sf_def Let_def sf_frame_def ucast_of_nat_u8 build_frame_eq)
next
  case False
  have "unat (ucast (of_nat (length d) + 2 :: u16) :: u8) = length d + 2"
    using assms by (simp add: unsigned_ucast_eq take_bit_nat_eq_self_iff unat_word_ariths unat_of_nat_u16)
  with False assms show ?thesis
    by (simp add: uds_send_sf_def Let_def sf_frame_def ucast_of_nat_u8 dlc_align_can_dl
        build_frame_eq can_dl_bounds)
qed

text \<open>The transport after a first frame: waiting for flow control with \<open>d\<close> in its cache.\<close>

definition mf_started :: "u8 list \<Rightarrow> 'c isotp \<Rightarrow> 'c isotp" where
  "mf_started d g = g\<lparr>pending_tx_sdu := d @ drop (length d) (pending_tx_sdu g),
     pending_tx_len := of_nat (length d), msg_len := of_nat (length d),
     iso_state := ISOTP_TX_WAIT_FC, bytes_processed := of_nat (ff_room (fd_mode g)), iso_sn := 1\<rparr>"

lemma nibble_id: "unat (x :: u8) < 16 \<Longrightarrow> x AND 0x0F = x"
proof -
  assume "unat x < 16"
  then have "take_bit 4 x = x" by (simp add: word_unat_eq_iff unsigned_take_bit_eq take_bit_nat_eq_self_iff)
  moreover have "x AND 0x0F = take_bit 4 x" by (simp add: take_bit_eq_mask mask_eq_exp_minus_1)
  ultimately show ?thesis by simp
qed

lemma hi8_drop_bit: "ucast (drop_bit 8 n :: u16) = hi8 n"
  using u16_less [of n]
  by (simp add: word_unat_eq_iff unat_hi8 unsigned_ucast_eq drop_bit_eq_div unat_div_distrib
      take_bit_nat_eq_self_iff less_mult_imp_div_less del: u16_less)

lemma send_mf_eq:
  assumes "sf_room (fd_mode g) < length d" "length d \<le> 1024" "length (pending_tx_sdu g) = 1024"
  shows "uds_send_mf d g = Some (case uds_internal_tp_send_frame (ff_frame (fd_mode g) d) (mf_started d g)
     of (r, g) \<Rightarrow> (if r \<noteq> 0 then -1 else 0, g))"
proof -
  let ?n = "of_nat (length d) :: u16"
  have n: "unat ?n = length d" using assms(2) by (simp add: unat_of_nat_u16)
  have hi: "ucast (drop_bit 8 ?n) AND 0x0F = hi8 ?n"
    using assms(2) n by (simp add: hi8_drop_bit nibble_id unat_hi8)
  show ?thesis
  proof (cases "use_can_fd g = 0")
    case True
    then show ?thesis using assms n hi
      by (simp add: uds_send_mf_def Let_def blit_Some sf_room_def ff_room_def mf_started_def ff_frame_def
          bytes_at_ok build_frame_eq frame_len_def word_less_nat_alt case_prod_beta clip_def)
  next
    case False
    have "unat (2 + 62 :: u8) = 64" by simp
    with False show ?thesis using assms n hi
      by (simp add: uds_send_mf_def Let_def blit_Some sf_room_def ff_room_def mf_started_def ff_frame_def
          bytes_at_ok build_frame_eq frame_len_def word_less_nat_alt case_prod_beta dlc_align_can_dl can_dl_def clip_def)
  qed
qed

section \<open>Sending the consecutive frames\<close>

text \<open>
  The sender between the first frame of \<open>d\<close> and its end: \<open>log\<close> is what the driver accepted
  before, the frames behind it and those still to come are the frames of \<open>d\<close>.
\<close>

definition tx_inv :: "u8 list \<Rightarrow> (u32 \<times> u8 list) list \<Rightarrow> 'c isotp \<Rightarrow> bool" where
  "tx_inv d log g \<longleftrightarrow>
     length d \<le> 1024 \<and> length (pending_tx_sdu g) = 1024 \<and> take (length d) (pending_tx_sdu g) = d
     \<and> msg_len g = of_nat (length d) \<and> unat (bytes_processed g) \<le> length d
     \<and> iso_state g \<in> {ISOTP_IDLE, ISOTP_TX_WAIT_FC, ISOTP_TX_SENDING_CF}
     \<and> (iso_state g = ISOTP_IDLE \<longleftrightarrow> unat (bytes_processed g) = length d)
     \<and> (\<exists>k fs. iso_sn g = of_nat (k mod 16) \<and> frames g = log @ map (Pair (tx_id g)) fs
          \<and> fs @ cf_frames (fd_mode g) k (drop (unat (bytes_processed g)) d) = mf_frames (fd_mode g) d)"

lemma send_frame_cases:
  obtains (sent) b where "uds_internal_tp_send_frame f g = (0, g\<lparr>bus := b, frames := frames g @ [(tx_id g, f)]\<rparr>)"
  | (failed) r b where "r \<noteq> 0" "uds_internal_tp_send_frame f g = (r, g\<lparr>bus := b\<rparr>)"
proof (cases "can_send g")
  case None
  then have "uds_internal_tp_send_frame f g = (-1, g\<lparr>bus := bus g\<rparr>)"
    by (simp add: uds_internal_tp_send_frame_def)
  then show ?thesis by (rule failed [rotated]) simp
next
  case (Some d)
  obtain r b where r: "drive d (bus g) (tx_id g) f = (r, b)" by fastforce
  show ?thesis
  proof (cases "r = 0")
    case True
    with Some r have "uds_internal_tp_send_frame f g = (0, g\<lparr>bus := b, frames := frames g @ [(tx_id g, f)]\<rparr>)"
      by (simp add: uds_internal_tp_send_frame_def)
    then show ?thesis by (rule sent)
  next
    case False
    with Some r have "uds_internal_tp_send_frame f g = (r, g\<lparr>bus := b\<rparr>)"
      by (simp add: uds_internal_tp_send_frame_def)
    with False show ?thesis by (rule failed)
  qed
qed

lemma send_frame_fields [simp]:
  "rx_id (snd (uds_internal_tp_send_frame f g)) = rx_id g"
  "iso_state (snd (uds_internal_tp_send_frame f g)) = iso_state g"
  "msg_len (snd (uds_internal_tp_send_frame f g)) = msg_len g"
  "bytes_processed (snd (uds_internal_tp_send_frame f g)) = bytes_processed g"
  "iso_sn (snd (uds_internal_tp_send_frame f g)) = iso_sn g"
  "use_can_fd (snd (uds_internal_tp_send_frame f g)) = use_can_fd g"
  "pending_tx_sdu (snd (uds_internal_tp_send_frame f g)) = pending_tx_sdu g"
  "tx_id (snd (uds_internal_tp_send_frame f g)) = tx_id g"
  by (cases rule: send_frame_cases [of f g]; simp)+

lemma next_sn: "(of_nat (k mod 16) + 1) AND 0x0F = (of_nat (Suc k mod 16) :: u8)"
proof -
  have "(of_nat (k mod 16) + 1) AND 0x0F = take_bit 4 (of_nat (Suc (k mod 16)) :: u8)"
    by (simp add: take_bit_eq_mask mask_eq_exp_minus_1 add.commute)
  also have "\<dots> = of_nat (Suc k mod 16)"
    by (simp only: take_bit_of_nat) (simp add: take_bit_eq_mod mod_Suc_eq)
  finally show ?thesis .
qed

text \<open>What one call of \<open>uds_send_cf\<close> does, once its guards are passed.\<close>

lemma send_cf_eq:
  fixes g :: "'c isotp"
  assumes p: "p = unat (bytes_processed g)" "bs = take (cf_room fd) (drop p d)" "fd = fd_mode g"
    and a: "length (pending_tx_sdu g) = 1024" "take (length d) (pending_tx_sdu g) = d"
    "length d \<le> 1024" "msg_len g = of_nat (length d)" "p < length d" "iso_sn g = of_nat (k mod 16)"
  shows "uds_send_cf t (msg_len g - bytes_processed g) g =
    (let (r, h) = uds_internal_tp_send_frame
           (padded (frame_len fd (1 + length bs)) ((ISOTP_PCI_CF OR of_nat (k mod 16)) # bs)) g
     in Some (if r = 0 then h\<lparr>bytes_processed := of_nat (p + length bs),
           iso_sn := of_nat (Suc k mod 16), bs_counter := bs_counter h + 1, timer_st := t,
           iso_state := (if p + length bs = length d then ISOTP_IDLE else iso_state h)\<rparr> else h))"
proof -
  define room where "room = (if fd then 63 else 7 :: u8)"
  define cp where "cp = clip room (msg_len g - bytes_processed g)"
  have "unat (msg_len g - bytes_processed g) = length d - p"
    using a(3-5) by (simp add: p unat_minus_le unat_of_nat_u16)
  then have cp: "unat cp = length bs" by (simp add: cp_def unat_clip p room_def cf_room_def min_def)
  have bs: "length bs \<le> 63" "p + length bs \<le> length d" using a(5) by (auto simp: p(2) cf_room_def)
  have "take (length bs) (drop p (pending_tx_sdu g)) = take (length bs) (drop p (take (length d) (pending_tx_sdu g)))"
    using bs(2) by (simp add: drop_take min_def)
  also have "\<dots> = bs" unfolding a(2) by (simp add: p(2) min_def)
  finally have at: "bytes_at (pending_tx_sdu g) p (unat cp) = Some bs"
    using bs(2) a(1,3) cp by (simp add: bytes_at_ok)
  have dl: "unat (if fd then uds_dlc_align (1 + cp) else 8) = frame_len fd (1 + length bs)"
    using bs(1) cp by (simp add: frame_len_def dlc_align_can_dl unat_word_ariths)
  have sn: "(of_nat (k mod 16) + 1) AND 0x0F = (of_nat (Suc k mod 16) :: u8)"
    by (rule next_sn)
  have bp: "bytes_processed g + ucast cp = of_nat (p + length bs)"
    using cp bs(1) by (simp add: p(1) word_unat_eq_iff unat_word_ariths unat_of_nat_u16)
  have fin: "(bytes_processed g + ucast cp \<ge> msg_len g) = (p + length bs = length d)"
    using bs(2) a(3,4) unfolding bp by (auto simp: word_le_nat_alt unat_of_nat_u16 simp del: of_nat_add)
  have fl: "1 + length bs \<le> frame_len fd (1 + length bs)" "frame_len fd (1 + length bs) \<le> 64"
    using bs(1) can_dl_bounds [of "1 + length bs"] by (auto simp: frame_len_def p(2) cf_room_def)
  have bf: "build_frame [ISOTP_PCI_CF OR iso_sn g] bs (frame_len fd (1 + length bs)) =
      Some (padded (frame_len fd (1 + length bs)) ((ISOTP_PCI_CF OR of_nat (k mod 16)) # bs))"
    using fl build_frame_eq [of "[ISOTP_PCI_CF OR iso_sn g]" bs "frame_len fd (1 + length bs)"] a(6) by simp
  have "uds_send_cf t (msg_len g - bytes_processed g) g = (do {
     bs \<leftarrow> bytes_at (pending_tx_sdu g) p (unat cp);
     f \<leftarrow> build_frame [ISOTP_PCI_CF OR iso_sn g] bs (unat (if fd then uds_dlc_align (1 + cp) else 8));
     let (r, h) = uds_internal_tp_send_frame f g;
     Some (if r = 0 then
        let h = h\<lparr>bytes_processed := bytes_processed h + ucast cp,
                      iso_sn := (iso_sn h + 1) AND 0x0F,
                      bs_counter := bs_counter h + 1, timer_st := t\<rparr>
        in if bytes_processed h \<ge> msg_len h then h\<lparr>iso_state := ISOTP_IDLE\<rparr> else h
      else h) })"
    unfolding uds_send_cf_def Let_def cp_def room_def p(1,3) ..
  then show ?thesis
    unfolding at dl Option.bind.bind_lunit bf
    by (cases rule: send_frame_cases [of "padded (frame_len fd (1 + length bs)) ((ISOTP_PCI_CF OR of_nat (k mod 16)) # bs)" g])
       (simp_all add: Let_def fin [unfolded bp] bp sn a(6) del: of_nat_add split: if_split)
qed

lemma cf_frames_cons:
  "d \<noteq> [] \<Longrightarrow> cf_frames fd k d =
     padded (frame_len fd (1 + length (take (cf_room fd) d)))
       ((ISOTP_PCI_CF OR of_nat (k mod 16)) # take (cf_room fd) d)
     # cf_frames fd (Suc k) (drop (length (take (cf_room fd) d)) d)"
  by (subst cf_frames.simps) (auto simp: Let_def min_def)

lemma tx_inv_send_cf:
  assumes "tx_inv d log g" "iso_state g = ISOTP_TX_SENDING_CF"
  shows "ok (uds_send_cf t (msg_len g - bytes_processed g) g) (tx_inv d log)"
proof -
  define p where "p = unat (bytes_processed g)"
  have len: "length d \<le> 1024" "length (pending_tx_sdu g) = 1024" "take (length d) (pending_tx_sdu g) = d"
    "msg_len g = of_nat (length d)" "p < length d"
    using assms by (auto simp: tx_inv_def p_def)
  obtain k fs where k: "iso_sn g = of_nat (k mod 16)"
    and fr: "frames g = log @ map (Pair (tx_id g)) fs"
      "fs @ cf_frames (fd_mode g) k (drop p d) = mf_frames (fd_mode g) d"
    using assms by (auto simp: tx_inv_def p_def)
  define bs where "bs = take (cf_room (fd_mode g)) (drop p d)"
  have bs: "p + length bs \<le> length d" using len(5) by (auto simp: bs_def)
  have "drop p d \<noteq> []" using len(5) by simp
  note cons = cf_frames_cons [OF this, of "fd_mode g" k, folded bs_def]
  let ?f = "padded (frame_len (fd_mode g) (1 + length bs)) ((ISOTP_PCI_CF OR of_nat (k mod 16)) # bs)"
  have fr': "(fs @ [?f]) @ cf_frames (fd_mode g) (Suc k) (drop (p + length bs) d) = mf_frames (fd_mode g) d"
    using fr(2) cons by (simp add: add.commute)
  have u: "unat (of_nat (p + length bs) :: u16) = p + length bs"
    using bs len(1) by (intro unat_of_nat_u16) simp
  note eq = send_cf_eq [OF p_def bs_def refl len(2,3,1,4,5) k, of t]
  show ?thesis unfolding eq
  proof (cases rule: send_frame_cases [of ?f g])
    case (sent b)
    have "\<exists>k' fs'. of_nat (Suc k mod 16) = (of_nat (k' mod 16) :: u8)
      \<and> frames g @ [(tx_id g, ?f)] = log @ map (Pair (tx_id g)) fs'
      \<and> fs' @ cf_frames (fd_mode g) k' (drop (p + length bs) d) = mf_frames (fd_mode g) d"
      using fr(1) fr' by (intro exI [of _ "Suc k"] exI [of _ "fs @ [?f]"]) simp
    then show "ok (let (r, h) = uds_internal_tp_send_frame ?f g
       in Some (if r = 0 then h\<lparr>bytes_processed := of_nat (p + length bs),
             iso_sn := of_nat (Suc k mod 16), bs_counter := bs_counter h + 1, timer_st := t,
             iso_state := (if p + length bs = length d then ISOTP_IDLE else iso_state h)\<rparr> else h)) (tx_inv d log)"
      unfolding sent using assms(2) len bs u by (auto simp: tx_inv_def simp del: of_nat_add)
  next
    case (failed r b)
    then show "ok (let (r, h) = uds_internal_tp_send_frame ?f g
       in Some (if r = 0 then h\<lparr>bytes_processed := of_nat (p + length bs),
             iso_sn := of_nat (Suc k mod 16), bs_counter := bs_counter h + 1, timer_st := t,
             iso_state := (if p + length bs = length d then ISOTP_IDLE else iso_state h)\<rparr> else h)) (tx_inv d log)"
      unfolding failed(2) using assms by (simp add: tx_inv_def)
  qed
qed

lemma tx_inv_process:
  assumes "tx_inv d log g"
  shows "ok (uds_tp_isotp_process t g) (tx_inv d log)"
proof -
  have "msg_len g - bytes_processed g \<noteq> 0" if "iso_state g = ISOTP_TX_SENDING_CF"
  proof
    assume "msg_len g - bytes_processed g = 0"
    then have "unat (bytes_processed g) = unat (msg_len g)" by simp
    with assms that show False by (auto simp: tx_inv_def unat_of_nat_u16)
  qed
  then show ?thesis using assms tx_inv_send_cf [OF assms, of t]
    by (auto simp: uds_tp_isotp_process_def Let_def) (auto simp: tx_inv_def)
qed

lemma tx_inv_fc:
  assumes "tx_inv d log g" "3 \<le> length data"
  shows "ok (uds_rx_fc data g) (tx_inv d log)"
  using assms by (auto simp: uds_rx_fc_def byte_at_def) (auto simp: tx_inv_def)

text \<open>Everything that can happen to a sender while its message is on the way.\<close>

inductive tx_step :: "'c isotp \<Rightarrow> 'c isotp \<Rightarrow> bool" where
  tick: "uds_tp_isotp_process t g = Some g' \<Longrightarrow> tx_step g g'"
| flow: "3 \<le> length data \<Longrightarrow> uds_rx_fc data g = Some g' \<Longrightarrow> tx_step g g'"

inductive_cases tx_stepE: "tx_step g g'"

lemma tx_inv_step: "tx_step g g' \<Longrightarrow> tx_inv d log g \<Longrightarrow> tx_inv d log g'"
  by (elim tx_stepE) (auto intro: okD [OF tx_inv_process] okD [OF tx_inv_fc])

lemma tx_inv_steps: "tx_step\<^sup>*\<^sup>* g g' \<Longrightarrow> tx_inv d log g \<Longrightarrow> tx_inv d log g'"
  by (induction rule: rtranclp_induct) (auto intro: tx_inv_step)

lemma tx_inv_start:
  assumes "sf_room (fd_mode g) < length d" "length d \<le> 1024" "length (pending_tx_sdu g) = 1024"
    "uds_isotp_send d g = Some (0, g')"
  shows "tx_inv d (frames g) g' \<and> iso_state g' = ISOTP_TX_WAIT_FC
    \<and> unat (bytes_processed g') = ff_room (fd_mode g') \<and> fd_mode g' = fd_mode g
    \<and> frames g' = frames g @ [(tx_id g', ff_frame (fd_mode g) d)]"
proof -
  have ff: "ff_room (fd_mode g) < length d" "ff_room (fd_mode g) < 65536"
    using assms(1) by (auto simp: sf_room_def ff_room_def split: if_splits)
  have "uds_isotp_send d g = uds_send_mf d g"
    using assms(1) by (auto simp: uds_isotp_send_def sf_room_def)
  with assms send_mf_eq [OF assms(1-3)] have
    "(case uds_internal_tp_send_frame (ff_frame (fd_mode g) d) (mf_started d g)
       of (r, g) \<Rightarrow> (if r \<noteq> 0 then -1 else 0 :: int, g)) = (0, g')" by simp
  then show ?thesis using assms(2,3) ff
    by (cases rule: send_frame_cases [of "ff_frame (fd_mode g) d" "mf_started d g"])
       (auto simp: tx_inv_def mf_started_def mf_frames_def unat_of_nat_u16
          intro!: exI [of _ "1 :: nat"] exI [of _ "[ff_frame (fd_mode g) d]"])
qed

text \<open>A driver that accepts every frame, and calls of the transmit loop at given times.\<close>

definition reliable :: "'c isotp \<Rightarrow> bool" where
  "reliable g \<longleftrightarrow> (\<exists>f. can_send g = Some f \<and> (\<forall>b i bs. fst (drive f b i bs) = 0))"

fun ticks :: "u32 list \<Rightarrow> 'c isotp \<Rightarrow> 'c isotp option" where
  "ticks [] g = Some g"
| "ticks (t # ts) g = do { g \<leftarrow> uds_tp_isotp_process t g; ticks ts g }"

fun spaced :: "u32 \<Rightarrow> u32 \<Rightarrow> u32 list \<Rightarrow> bool" where
  "spaced st t0 [] \<longleftrightarrow> True"
| "spaced st t0 (t # ts) \<longleftrightarrow> st \<le> t - t0 \<and> spaced st t ts"

lemma ticks_idle: "iso_state g = ISOTP_IDLE \<Longrightarrow> ticks ts g = Some g"
  by (induction ts) (simp_all add: uds_tp_isotp_process_def)

text \<open>One tick of an unthrottled sender moves one frame forward.\<close>

lemma tick_progress:
  assumes "tx_inv d log g" "iso_state g = ISOTP_TX_SENDING_CF" "block_size g = 0" "reliable g"
    "required_st (st_min g) \<le> t - timer_st g"
  obtains g' where "uds_tp_isotp_process t g = Some g'" "tx_inv d log g'" "reliable g'"
    "block_size g' = 0" "st_min g' = st_min g" "timer_st g' = t" "fd_mode g' = fd_mode g"
    "iso_state g' \<in> {ISOTP_IDLE, ISOTP_TX_SENDING_CF}"
    "length d - unat (bytes_processed g') = length d - unat (bytes_processed g) - cf_room (fd_mode g)"
proof -
  define p where "p = unat (bytes_processed g)"
  have len: "length d \<le> 1024" "length (pending_tx_sdu g) = 1024" "take (length d) (pending_tx_sdu g) = d"
    "msg_len g = of_nat (length d)" "p < length d"
    using assms(1,2) by (auto simp: tx_inv_def p_def)
  obtain k where k: "iso_sn g = of_nat (k mod 16)" using assms(1) by (auto simp: tx_inv_def)
  define bs where "bs = take (cf_room (fd_mode g)) (drop p d)"
  note eq = send_cf_eq [OF p_def bs_def refl len(2,3,1,4,5) k, of t]
  have "unat (msg_len g) = length d" using len by (simp add: unat_of_nat_u16)
  with len(5) have "msg_len g - bytes_processed g \<noteq> 0" by (auto simp: p_def)
  with assms(2,3,5) have pr: "uds_tp_isotp_process t g = uds_send_cf t (msg_len g - bytes_processed g) g"
    by (auto simp: uds_tp_isotp_process_def Let_def dest: leD)
  obtain f where f: "can_send g = Some f" "\<And>b i bs. fst (drive f b i bs) = 0"
    using assms(4) by (auto simp: reliable_def)
  obtain g' where g': "uds_tp_isotp_process t g = Some g'" "tx_inv d log g'"
    using tx_inv_process [OF assms(1), of t] by (auto simp: ok_iff)
  have p': "unat (of_nat (p + length bs) :: u16) = p + length bs"
    using len(1,5) by (intro unat_of_nat_u16) (simp add: bs_def)
  show ?thesis
  proof (rule that [OF g'])
    show "length d - unat (bytes_processed g') = length d - unat (bytes_processed g) - cf_room (fd_mode g)"
      using g'(1) f p' unfolding pr eq
      by (auto simp: uds_internal_tp_send_frame_def case_prod_beta bs_def p_def min_def simp del: of_nat_add
          split: if_splits)
  qed (use g'(1) f p' assms(2,3) in \<open>unfold pr eq, auto simp: uds_internal_tp_send_frame_def case_prod_beta
         reliable_def simp del: of_nat_add split: if_splits\<close>)
qed

lemma ticks_complete:
  assumes "tx_inv d log g" "iso_state g \<in> {ISOTP_IDLE, ISOTP_TX_SENDING_CF}" "block_size g = 0" "reliable g"
    "spaced (required_st (st_min g)) (timer_st g) ts"
    "length d - unat (bytes_processed g) \<le> length ts * cf_room (fd_mode g)"
  shows "ok (ticks ts g) (\<lambda>g'. tx_inv d log g' \<and> iso_state g' = ISOTP_IDLE)"
  using assms
proof (induction ts arbitrary: g)
  case Nil
  then show ?case by (auto simp: tx_inv_def)
next
  case (Cons t ts)
  show ?case
  proof (cases "iso_state g = ISOTP_IDLE")
    case True
    then show ?thesis using Cons.prems(1) by (simp only: ticks_idle) simp
  next
    case False
    then have s: "iso_state g = ISOTP_TX_SENDING_CF" "required_st (st_min g) \<le> t - timer_st g"
      using Cons.prems(2,5) by auto
    obtain g' where g': "uds_tp_isotp_process t g = Some g'" "tx_inv d log g'" "reliable g'"
      "block_size g' = 0" "st_min g' = st_min g" "timer_st g' = t" "fd_mode g' = fd_mode g"
      "iso_state g' \<in> {ISOTP_IDLE, ISOTP_TX_SENDING_CF}"
      "length d - unat (bytes_processed g') = length d - unat (bytes_processed g) - cf_room (fd_mode g)"
      by (rule tick_progress [OF Cons.prems(1) s(1) Cons.prems(3,4) s(2)])
    have "ok (ticks ts g') (\<lambda>g'. tx_inv d log g' \<and> iso_state g' = ISOTP_IDLE)"
      using Cons.prems(5,6) g' by (intro Cons.IH) auto
    then show ?thesis using g'(1) by simp
  qed
qed

section \<open>The transport interface, pacing and blocks\<close>

lemma send_frame_status: "uds_internal_tp_send_frame f g = (r, g') \<Longrightarrow> r \<le> 0"
  using drive_status by (auto simp: uds_internal_tp_send_frame_def case_prod_beta split: option.splits)

lemma isotp_send_status: "uds_isotp_send d g = Some (r, g') \<Longrightarrow> r \<le> 0"
proof -
  have "uds_send_sf d g = Some (r, g') \<Longrightarrow> r \<le> 0"
    by (auto simp: uds_send_sf_def Let_def bind_eq_Some_conv dest: send_frame_status split: if_splits)
  moreover have "uds_send_mf d g = Some (r, g') \<Longrightarrow> r \<le> 0"
    by (auto simp: uds_send_mf_def Let_def bind_eq_Some_conv case_prod_beta split: if_splits)
  ultimately show "uds_isotp_send d g = Some (r, g') \<Longrightarrow> r \<le> 0"
    by (simp add: uds_isotp_send_def Let_def split: if_splits)
qed

interpretation isotp: sdu_transport "isotp_tp :: uds_ctx \<Rightarrow> 'c isotp \<Rightarrow> u8 list \<Rightarrow> int \<times> 'c isotp"
  by unfold_locales (auto simp: isotp_tp_def dest: isotp_send_status split: option.splits)

lemma isotp_send_total:
  assumes "length (pending_tx_sdu g) = 1024"
  shows "ok (uds_isotp_send d g) (\<lambda>(r, g'). length (pending_tx_sdu g') = 1024 \<and> fd_mode g' = fd_mode g)"
proof -
  consider "length d \<le> sf_room (fd_mode g)" | "sf_room (fd_mode g) < length d" "length d \<le> 1024"
    | "1024 < length d" by linarith
  then show ?thesis
  proof cases
    case 1
    then have l: "length d \<le> 62" by (simp add: sf_room_def split: if_splits)
    have "uds_isotp_send d g = uds_send_sf d g" using 1 by (simp add: uds_isotp_send_def sf_room_def)
    then show ?thesis using assms by (simp add: send_sf_eq [OF l] case_prod_beta)
  next
    case 2
    have "uds_isotp_send d g = uds_send_mf d g" using 2 by (auto simp: uds_isotp_send_def sf_room_def)
    then show ?thesis using assms 2 by (simp add: send_mf_eq case_prod_beta mf_started_def)
  next
    case 3
    then show ?thesis using assms by (simp add: uds_isotp_send_def uds_send_mf_def)
  qed
qed

text \<open>One call of the transmit loop sends at most one frame, and only when it may.\<close>

lemma process_sends:
  assumes "uds_tp_isotp_process t g = Some g'"
  shows "tx_id g' = tx_id g \<and> use_can_fd g' = use_can_fd g \<and> (frames g' = frames g
      \<and> block_size g' = block_size g \<and> (iso_state g' = ISOTP_TX_SENDING_CF \<longrightarrow> bs_counter g' = bs_counter g)
    \<or> (\<exists>f. frames g' = frames g @ [(tx_id g, f)] \<and> length f \<le> 64 \<and> iso_state g = ISOTP_TX_SENDING_CF
         \<and> required_st (st_min g) \<le> t - timer_st g \<and> timer_st g' = t
         \<and> (block_size g = 0 \<or> bs_counter g < block_size g)
         \<and> block_size g' = block_size g \<and> bs_counter g' = bs_counter g + 1
         \<and> iso_state g' \<in> {ISOTP_IDLE, ISOTP_TX_SENDING_CF}))"
proof -
  consider "iso_state g \<noteq> ISOTP_TX_SENDING_CF"
    | "iso_state g = ISOTP_TX_SENDING_CF" "msg_len g - bytes_processed g = 0 \<or> t - timer_st g < required_st (st_min g)
        \<or> (block_size g > 0 \<and> bs_counter g \<ge> block_size g)"
    | "iso_state g = ISOTP_TX_SENDING_CF" "msg_len g - bytes_processed g \<noteq> 0" "required_st (st_min g) \<le> t - timer_st g"
        "block_size g = 0 \<or> bs_counter g < block_size g"
    by (metis not_less word_gt_0)
  then show ?thesis
  proof cases
    case 1 then show ?thesis using assms by (simp add: uds_tp_isotp_process_def)
  next
    case 2 then show ?thesis using assms by (auto simp: uds_tp_isotp_process_def Let_def split: if_splits)
  next
    case 3
    have "uds_send_cf t (msg_len g - bytes_processed g) g = Some g'"
      using 3 assms by (auto simp: uds_tp_isotp_process_def Let_def dest: leD split: if_splits)
    then obtain p n f where f: "build_frame [ISOTP_PCI_CF OR iso_sn g] p n = Some f" and
      g': "(case uds_internal_tp_send_frame f g of (r, h) \<Rightarrow> Some (if r = 0 then
        let h = h\<lparr>bytes_processed := bytes_processed h + ucast (clip (if use_can_fd g \<noteq> 0 then 63 else 7) (msg_len g - bytes_processed g)),
                      iso_sn := (iso_sn h + 1) AND 0x0F, bs_counter := bs_counter h + 1, timer_st := t\<rparr>
        in if bytes_processed h \<ge> msg_len h then h\<lparr>iso_state := ISOTP_IDLE\<rparr> else h
       else h)) = Some g'"
      by (auto simp: uds_send_cf_def Let_def bind_eq_Some_conv)
    have "length f \<le> 64" using f
      by (auto simp: build_frame_def bind_eq_Some_conv bytes_at_def split: if_splits dest!: blit_length)
    then show ?thesis using 3 g'
      by (cases rule: send_frame_cases [of f g]) (auto simp: Let_def split: if_splits)
  qed
qed

lemma ok_ticks:
  assumes "ok m (tx_inv d log)"
  shows "ok (do { g \<leftarrow> m; ticks ts g }) (tx_inv d log)"
proof -
  have "tx_inv d log g \<Longrightarrow> ok (ticks ts g) (tx_inv d log)" for g
    by (induction ts arbitrary: g) (auto intro: ok_mono [OF tx_inv_process])
  with assms show ?thesis by (auto intro: ok_mono)
qed

text \<open>How many frames a sequence of ticks may send before the next flow control.\<close>

lemma ticks_fd: "ticks ts g = Some g' \<Longrightarrow> use_can_fd g' = use_can_fd g"
  by (induction ts arbitrary: g) (auto simp: bind_eq_Some_conv dest: process_sends)

lemma ticks_not_sending: "iso_state g \<noteq> ISOTP_TX_SENDING_CF \<Longrightarrow> ticks ts g = Some g"
  by (induction ts) (simp_all add: uds_tp_isotp_process_def)

lemma ticks_block:
  assumes "0 < block_size g" "bs_counter g \<le> block_size g" "ticks ts g = Some g'"
  shows "\<exists>fs. frames g' = frames g @ map (Pair (tx_id g)) fs \<and> length fs + unat (bs_counter g) \<le> unat (block_size g)"
  using assms
proof (induction ts arbitrary: g)
  case Nil
  then show ?case by (auto simp: word_le_nat_alt intro!: exI [of _ "[]"])
next
  case (Cons t ts)
  have c: "unat (bs_counter g) \<le> unat (block_size g)" using Cons.prems(2) by (simp add: word_le_nat_alt)
  obtain h where h: "uds_tp_isotp_process t g = Some h" "ticks ts h = Some g'"
    using Cons.prems(3) by (auto simp: bind_eq_Some_conv)
  show ?case
  proof (cases "iso_state h = ISOTP_TX_SENDING_CF")
    case False
    then have g': "g' = h" using h(2) by (simp add: ticks_not_sending)
    from process_sends [OF h(1)] show ?thesis
    proof (elim conjE disjE exE)
      assume "frames h = frames g"
      then show ?thesis using c g' by (intro exI [of _ "[]"]) simp
    next
      fix f assume "frames h = frames g @ [(tx_id g, f)]" "bs_counter g < block_size g"
      then show ?thesis using g' by (intro exI [of _ "[f]"]) (simp add: word_less_nat_alt)
    qed (use Cons.prems(1) in auto)
  next
    case True
    from process_sends [OF h(1)] show ?thesis
    proof (elim conjE disjE exE)
      assume "frames h = frames g" "block_size h = block_size g" "tx_id h = tx_id g"
        "iso_state h = ISOTP_TX_SENDING_CF \<longrightarrow> bs_counter h = bs_counter g"
      then show ?thesis using Cons.IH [OF _ _ h(2)] Cons.prems(1,2) True by simp
    next
      fix f assume f: "frames h = frames g @ [(tx_id g, f)]" "bs_counter g < block_size g"
        "block_size h = block_size g" "bs_counter h = bs_counter g + 1" "tx_id h = tx_id g"
      then have s: "unat (bs_counter h) = Suc (unat (bs_counter g))"
        using u8_less [of "block_size g"]
        by (simp add: word_less_nat_alt unat_word_ariths del: u8_less)
      with f have "bs_counter h \<le> block_size h" by (simp add: word_less_nat_alt word_le_nat_alt)
      from Cons.IH [OF _ this h(2)] f(3) Cons.prems(1) obtain fs where
        "frames g' = frames h @ map (Pair (tx_id h)) fs" "length fs + unat (bs_counter h) \<le> unat (block_size h)"
        by auto
      then show ?thesis using f s by (intro exI [of _ "f # fs"]) simp
    qed (use Cons.prems(1) in auto)
  qed
qed

lemma transmit_all:
  assumes "sf_room (fd_mode g) < length d" "length d \<le> 1024" "length (pending_tx_sdu g) = 1024"
    "uds_isotp_send d g = Some (0, g1)" "reliable g1"
    "uds_rx_fc (0x30 # 0 # st # pad) g1 = Some g2"
    "spaced (required_st st) (timer_st g2) ts"
    "length d \<le> ff_room (fd_mode g1) + length ts * cf_room (fd_mode g1)"
  shows "\<exists>g3. ticks ts g2 = Some g3 \<and> iso_state g3 = ISOTP_IDLE
    \<and> frames g3 = frames g @ map (Pair (tx_id g3)) (mf_frames (fd_mode g3) d)"
proof -
  note start = tx_inv_start [OF assms(1-4)]
  have g2: "g2 = g1\<lparr>iso_state := ISOTP_TX_SENDING_CF, block_size := 0, st_min := st\<rparr>"
    using assms(6) start by (auto simp: uds_rx_fc_def byte_at_def)
  have inv: "tx_inv d (frames g) g2" using start okD [OF tx_inv_fc assms(6)] by auto
  have "ok (ticks ts g2) (\<lambda>g'. tx_inv d (frames g) g' \<and> iso_state g' = ISOTP_IDLE)"
    using assms(5,7,8) start by (intro ticks_complete [OF inv]) (auto simp: g2 reliable_def)
  then obtain g3 where g3: "ticks ts g2 = Some g3" "tx_inv d (frames g) g3" "iso_state g3 = ISOTP_IDLE"
    by (auto simp: ok_iff)
  moreover have "cf_frames (fd_mode g3) k [] = []" for k by (simp add: cf_frames.simps)
  ultimately show ?thesis by (auto simp: tx_inv_def)
qed

section \<open>Properties\<close>

text \<open>A transport with a driver that accepts every frame, to run the properties on.\<close>

lift_definition quiet_driver :: "unit driver" is "\<lambda>b i bs. (0, b)" by simp

definition demo_isotp :: "unit isotp" where
  "demo_isotp = uds_tp_isotp_init (Some quiet_driver) 0x7E8 0x7E0 (isotp_static ())"

lemma demo_fields:
  "length (pending_tx_sdu demo_isotp) = 1024" "use_can_fd demo_isotp = 0" "tx_id demo_isotp = 0x7E8"
  "bs_counter demo_isotp = 0" "frames demo_isotp = []" "can_send demo_isotp = Some quiet_driver"
  "timer_st demo_isotp = 0"
  by (simp_all add: demo_isotp_def uds_tp_isotp_init_def isotp_static_def)

lemma demo_frame: "uds_internal_tp_send_frame f g = (0, g\<lparr>frames := frames g @ [(tx_id g, f)]\<rparr>)"
  if "can_send g = Some quiet_driver" for g :: "unit isotp"
  using that by (simp add: uds_internal_tp_send_frame_def quiet_driver.rep_eq)

definition demo_sent :: "unit isotp" where
  "demo_sent = (mf_started (replicate 10 0xAA) demo_isotp)\<lparr>frames := [(0x7E8, ff_frame False (replicate 10 0xAA))]\<rparr>"

lemma demo_send: "uds_isotp_send (replicate 10 0xAA) demo_isotp = Some (0, demo_sent)"
  by (simp add: uds_isotp_send_def demo_fields send_mf_eq sf_room_def demo_frame mf_started_def demo_sent_def)

lemma demo_sent_fields:
  "can_send demo_sent = Some quiet_driver" "use_can_fd demo_sent = 0" "timer_st demo_sent = 0"
  "iso_state demo_sent = ISOTP_TX_WAIT_FC" "bs_counter demo_sent = 0"
  by (simp_all add: demo_sent_def mf_started_def demo_fields)

lemma demo_mf: "mf_frames False (replicate 10 0xAA) =
    [[0x10, 10, 0xAA, 0xAA, 0xAA, 0xAA, 0xAA, 0xAA], [0x21, 0xAA, 0xAA, 0xAA, 0xAA, 0, 0, 0]]"
  by code_simp

lemma demo_tx_inv: "tx_inv (replicate 10 0xAA) [] demo_sent"
  using tx_inv_start [OF _ _ _ demo_send] by (simp add: demo_fields sf_room_def)

text \<open>
  \<open>uds_dlc_align\<close> rounds a frame length up to the least length that CAN-FD can send.
\<close>

lemma uds_dlc_align_least:
  assumes "len \<le> 64"
  shows "unat (uds_dlc_align len) =
    (LEAST m. unat len \<le> m \<and> m \<in> {0..8} \<union> {12, 16, 20, 24, 32, 48, 64})"
  using assms by (simp add: dlc_align_can_dl can_dl_least word_le_nat_alt)

lemma uds_dlc_align_least_example:
  "unat (uds_dlc_align 9) = (LEAST m. unat (9 :: u8) \<le> m \<and> m \<in> {0..8} \<union> {12, 16, 20, 24, 32, 48, 64})
    \<and> uds_dlc_align 9 = 12"
  using uds_dlc_align_least [of 9] by (simp add: uds_dlc_align_def)

text \<open>
  What \<open>uds_isotp_send\<close> does with an SDU of any length. A short one goes out as one
  single frame, one of up to 1024 bytes starts with its first frame and waits for flow
  control, and a longer one is refused without any effect.
\<close>

lemma isotp_send_functional:
  assumes "length (pending_tx_sdu g) = 1024"
  shows "uds_isotp_send d g =
    (if length d \<le> sf_room (fd_mode g) then Some (uds_internal_tp_send_frame (sf_frame d) g)
     else if length d \<le> 1024
     then Some (map_prod (\<lambda>r. if r = 0 then 0 else -1) id
            (uds_internal_tp_send_frame (ff_frame (fd_mode g) d) (mf_started d g)))
     else Some (-2, g))"
proof -
  have "length d \<le> 62" if "length d \<le> sf_room (fd_mode g)" using that by (simp add: sf_room_def split: if_splits)
  moreover have "uds_isotp_send d g = (if length d \<le> sf_room (fd_mode g) then uds_send_sf d g else uds_send_mf d g)"
    by (simp add: uds_isotp_send_def sf_room_def)
  ultimately show ?thesis using assms
    by (auto simp: send_sf_eq send_mf_eq map_prod_def case_prod_beta) (simp add: uds_send_mf_def)
qed

lemma isotp_send_functional_example:
  "uds_isotp_send [1, 2, 3] demo_isotp =
     Some (0, demo_isotp\<lparr>frames := [(0x7E8, [3, 1, 2, 3, 0, 0, 0, 0])]\<rparr>)"
  using isotp_send_functional [of demo_isotp "[1, 2, 3]"]
  by (simp add: demo_fields demo_frame sf_room_def sf_frame_def padded_def numeral_eq_Suc)

text \<open>
  C31: whatever the transmit loop, flow control and a failing driver do, the frames on the
  bus are always a prefix of the frames of the SDU, in order and without gaps or repeats;
  the sender is idle exactly when all of them are out.
\<close>

theorem isotp_transmit_prefix:
  assumes "sf_room (fd_mode g) < length d" "length d \<le> 1024" "length (pending_tx_sdu g) = 1024"
    "uds_isotp_send d g = Some (0, g1)" "tx_step\<^sup>*\<^sup>* g1 g2"
  shows "\<exists>out rest. frames g2 = frames g @ map (Pair (tx_id g2)) out
    \<and> out @ rest = mf_frames (fd_mode g2) d \<and> (iso_state g2 = ISOTP_IDLE \<longleftrightarrow> rest = [])
    \<and> uds_tp_isotp_process t g2 \<noteq> None"
proof -
  have inv: "tx_inv d (frames g) g2" using tx_inv_start [OF assms(1-4)] tx_inv_steps [OF assms(5)] by blast
  then obtain k fs where "frames g2 = frames g @ map (Pair (tx_id g2)) fs"
    "fs @ cf_frames (fd_mode g2) k (drop (unat (bytes_processed g2)) d) = mf_frames (fd_mode g2) d"
    by (auto simp: tx_inv_def)
  moreover have "iso_state g2 = ISOTP_IDLE \<longleftrightarrow> cf_frames (fd_mode g2) k (drop (unat (bytes_processed g2)) d) = []"
    using inv by (subst cf_frames.simps) (auto simp: tx_inv_def Let_def)
  moreover have "uds_tp_isotp_process t g2 \<noteq> None" using tx_inv_process [OF inv, of t] by (auto simp: ok_iff)
  ultimately show ?thesis by blast
qed

theorem isotp_transmit_prefix_witness:
  "\<exists>out rest. frames demo_sent = map (Pair (tx_id demo_sent)) out
    \<and> out @ rest = [[0x10, 10, 0xAA, 0xAA, 0xAA, 0xAA, 0xAA, 0xAA], [0x21, 0xAA, 0xAA, 0xAA, 0xAA, 0, 0, 0]]"
  using isotp_transmit_prefix [OF _ _ _ demo_send rtranclp.rtrancl_refl, of 0]
  by (simp add: demo_fields demo_sent_fields sf_room_def demo_mf) blast

text \<open>
  C32: once the peer has answered the first frame with \<open>ContinueToSend\<close>, block size 0 and a
  separation time, calls of the transmit loop that respect the separation time finish the
  transmission, as soon as there is one for every consecutive frame: all frames of the SDU
  are on the bus and the sender is idle.
\<close>

theorem isotp_transmit_completes:
  assumes "sf_room (fd_mode g) < length d" "length d \<le> 1024" "length (pending_tx_sdu g) = 1024"
    "uds_isotp_send d g = Some (0, g1)" "reliable g1"
    "uds_rx_fc (0x30 # 0 # st # pad) g1 = Some g2"
    "spaced (required_st st) (timer_st g2) ts"
    "length d \<le> ff_room (fd_mode g1) + length ts * cf_room (fd_mode g1)"
  shows "\<exists>g3. ticks ts g2 = Some g3 \<and> iso_state g3 = ISOTP_IDLE
    \<and> frames g3 = frames g @ map (Pair (tx_id g3)) (mf_frames (fd_mode g3) d)"
  by (rule transmit_all [OF assms])

theorem isotp_transmit_completes_witness:
  "\<exists>g3. ticks [7] (demo_sent\<lparr>iso_state := ISOTP_TX_SENDING_CF, block_size := 0, st_min := 5\<rparr>) = Some g3
    \<and> iso_state g3 = ISOTP_IDLE"
proof -
  have "\<exists>g3. ticks [7] (demo_sent\<lparr>iso_state := ISOTP_TX_SENDING_CF, block_size := 0, st_min := 5\<rparr>) = Some g3
      \<and> iso_state g3 = ISOTP_IDLE
      \<and> frames g3 = frames demo_isotp @ map (Pair (tx_id g3)) (mf_frames (fd_mode g3) (replicate 10 0xAA))"
    by (rule isotp_transmit_completes [OF _ _ _ demo_send, of 5 "[]"])
       (simp_all add: demo_fields demo_sent_fields sf_room_def ff_room_def cf_room_def reliable_def
          quiet_driver.rep_eq uds_rx_fc_def byte_at_def required_st_def)
  then show ?thesis by blast
qed



end
