(* ===== verification/Uds_Isotp_Receive.thy ===== *)
theory Uds_Isotp_Receive
  imports Uds_Isotp_Send
begin

text \<open>
  The receiving half of the ISO-TP transport: single frames, the reassembly of a
  multi-frame message in \<open>config->rx_buffer\<close>, and the safety of the reassembly against
  arbitrary classic CAN frames.
\<close>

section \<open>Reading the header of a frame\<close>

lemma nibbles:
  fixes x :: u8 assumes "unat x < 16"
  shows "(0x10 OR x) AND 0xF0 = 0x10" "(0x10 OR x) AND 0x0F = x"
    "(0x20 OR x) AND 0xF0 = 0x20" "(0x20 OR x) AND 0x0F = x"
    "x AND 0xF0 = 0" "x AND 0x0F = x"
proof -
  have x: "x AND 0x0F = x" using assms by (rule nibble_id)
  have "x AND 0xF0 = (x AND 0x0F) AND 0xF0" by (simp only: x)
  also have "\<dots> = 0" by (simp only: and.assoc) simp
  finally have z: "x AND 0xF0 = 0" .
  show "(0x10 OR x) AND 0xF0 = 0x10" "(0x10 OR x) AND 0x0F = x"
    "(0x20 OR x) AND 0xF0 = 0x20" "(0x20 OR x) AND 0x0F = x" "x AND 0xF0 = 0" "x AND 0x0F = x"
    by (simp_all add: bit.conj_disj_distrib2 x z)
qed

lemma padded_length: "length bs \<le> n \<Longrightarrow> length (padded n bs) = n"
  by (simp add: padded_def)

lemma padded_take: "k \<le> length bs \<Longrightarrow> take k (padded n bs) = take k bs"
  by (simp add: padded_def)

lemma padded_nth: "i < length bs \<Longrightarrow> padded n bs ! i = bs ! i"
  by (simp add: padded_def nth_append)

lemma padded_payload:
  "i + k \<le> length bs \<Longrightarrow> length bs \<le> n \<Longrightarrow> bytes_at (padded n bs) i k = Some (take k (drop i bs))"
  by (simp add: bytes_at_def padded_length) (simp add: padded_def)

section \<open>Single frames\<close>

lemma rx_sf_frame:
  assumes "d \<noteq> []" "length d \<le> 62" "i = rx_id (app s)"
  shows "uds_isotp_rx_callback cfg cbs i (sf_frame d) s =
    uds_input_sdu cfg cbs (Some d) (with_iso (\<lambda>g. g\<lparr>iso_state := ISOTP_IDLE\<rparr>) s)"
proof (cases "length d \<le> 7")
  case True
  let ?n = "of_nat (length d) :: u8"
  have n: "unat ?n = length d" "unat ?n < 16" using True by (simp_all add: unat_of_nat_u8)
  have "?n \<noteq> 0" using n assms(1) by auto
  moreover have "bytes_at (padded 8 (?n # d)) 1 (length d) = Some d"
    using True by (subst padded_payload) auto
  ultimately show ?thesis using True assms n nibbles(5,6) [OF n(2)]
    by (simp add: uds_isotp_rx_callback_def sf_frame_def uds_rx_sf_def Let_def uds_exec padded_length padded_nth)
next
  case False
  let ?n = "of_nat (length d) :: u8"
  have n: "unat ?n = length d" using assms(2) by (simp add: unat_of_nat_u8)
  have c: "length d + 2 \<le> can_dl (length d + 2)" using assms(2) can_dl_bounds [of "length d + 2"] by simp
  moreover have "bytes_at (padded (can_dl (length d + 2)) (0 # ?n # d)) 2 (length d) = Some d"
    using c by (subst padded_payload) auto
  ultimately show ?thesis using False assms n
    by (simp add: uds_isotp_rx_callback_def sf_frame_def uds_rx_sf_def Let_def byte_at_def padded_length padded_nth)
qed

section \<open>Reassembly\<close>

text \<open>
  The receiver of \<open>d\<close> with \<open>p\<close> bytes in its buffer, waiting for consecutive frame \<open>k\<close>. The
  machine is the one \<open>s0\<close> that received the first frame, but for the transport and the
  receive buffer.
\<close>

definition rx_inv :: "'c isotp config \<Rightarrow> 'c isotp machine \<Rightarrow> u8 list \<Rightarrow> nat \<Rightarrow> nat \<Rightarrow> 'c isotp machine \<Rightarrow> bool" where
  "rx_inv cfg s0 d k p s \<longleftrightarrow>
     s = s0\<lparr>app := app s, rx_buf := rx_buf s\<rparr> \<and> rx_id (app s) = rx_id (app s0)
     \<and> iso_state (app s) = ISOTP_RX_WAIT_CF \<and> msg_len (app s) = of_nat (length d)
     \<and> bytes_processed (app s) = of_nat p \<and> iso_sn (app s) = of_nat (k mod 16)
     \<and> length (rx_buf s) = length (rx_buf s0) \<and> take p (rx_buf s) = take p d
     \<and> \<not> ctx_null s0 \<and> config_set s0 \<and> p \<le> length d \<and> length d \<le> length (rx_buf s0)
     \<and> length d \<le> 4095"

definition delivered :: "'c isotp config \<Rightarrow> 'c isotp callbacks \<Rightarrow> u8 list \<Rightarrow> 'c isotp machine
    \<Rightarrow> 'c isotp machine option \<Rightarrow> bool" where
  "delivered cfg cbs d s0 r \<longleftrightarrow> (\<exists>g b. r = uds_input_sdu cfg cbs (Some d) (s0\<lparr>app := g, rx_buf := b\<rparr>)
     \<and> iso_state g = ISOTP_IDLE)"

lemma deliveredI:
  assumes "r = uds_input_sdu cfg cbs (Some d) (s0\<lparr>rx_buf := b, app := g\<rparr>)" "iso_state g = ISOTP_IDLE"
  shows "delivered cfg cbs d s0 r"
proof -
  have "s0\<lparr>rx_buf := b, app := g\<rparr> = s0\<lparr>app := g, rx_buf := b\<rparr>" by simp
  then show ?thesis using assms unfolding delivered_def by metis
qed

lemma rx_ff_frame:
  assumes "sf_room fd < length d" "length d \<le> 4095" "i = rx_id (app s)" "\<not> ctx_null s" "config_set s"
    "length (rx_buf s) = unat (rx_buffer_size cfg)" "length d \<le> unat (rx_buffer_size cfg)"
  shows "ok (uds_isotp_rx_callback cfg cbs i (ff_frame fd d) s) (rx_inv cfg s d 1 (ff_room fd))"
proof -
  define p where "p = take (ff_room fd) d"
  define n where "n = (of_nat (length d) :: u16)"
  have n: "unat n = length d" "unat (hi8 n) < 16" using assms(2) by (simp_all add: n_def unat_of_nat_u16 unat_hi8)
  have ff: "ff_room fd < length d" using assms(1) by (simp add: sf_room_def ff_room_def split: if_splits)
  then have p: "length p = ff_room fd" by (simp add: p_def)
  define h where "h = [ISOTP_PCI_FF OR hi8 n, lo8 n] @ p"
  define m where "m = frame_len fd (2 + ff_room fd)"
  have m: "m = (if fd then 64 else 8)" by (simp add: m_def frame_len_def can_dl_def ff_room_def)
  have hm: "length h = m" using p by (simp add: h_def m ff_room_def)
  have f: "ff_frame fd d = padded m h" using p
    by (simp add: ff_frame_def Let_def h_def m_def p_def n_def)
  have bs: "bytes_at (padded m h) 2 (ff_room fd) = Some p"
    using hm p by (subst padded_payload) (auto simp: h_def)
  have l: "length (padded m h) = m" using hm by (simp add: padded_length)
  have b: "byte_at (padded m h) j = Some (h ! j)" if "j < m" for j
    using that hm by (simp add: byte_at_def l padded_nth)
  have b: "byte_at (padded m h) 0 = Some (0x10 OR hi8 n)" "byte_at (padded m h) (Suc 0) = Some (lo8 n)"
    using b [of 0] b [of "Suc 0"] by (simp_all add: m) (simp_all add: h_def)
  have d: "unat (of_nat m - 2 :: u8) = ff_room fd" "ucast (of_nat m - 2 :: u8) = (of_nat (ff_room fd) :: u16)" if "8 < m"
    using that by (auto simp: m ff_room_def split: if_splits)
  have d': "ff_room fd = 6" if "\<not> 8 < m" using that by (auto simp: m ff_room_def split: if_splits)
  have n8: "\<not> n < 8" "\<not> rx_buffer_size cfg < n"
    using n ff assms(1,7) by (auto simp: word_less_nat_alt sf_room_def split: if_splits)
  have bl: "blit 0 p (rx_buf s) = Some (p @ drop (length p) (rx_buf s))"
    using p ff assms(6,7) by (simp add: blit_Some)
  have pt: "take (ff_room fd) p = take (ff_room fd) d" by (simp add: p_def)
  show ?thesis unfolding f
    using nibbles(1,2) [OF n(2)] n8 assms bl pt p ff
    by (simp add: uds_isotp_rx_callback_def uds_rx_ff_def Let_def b with_iso_def rx_inv_def
        split del: if_split)
       (use bs d' in \<open>auto simp: n_def l d\<close>)
qed

definition cf_frame :: "bool \<Rightarrow> nat \<Rightarrow> u8 list \<Rightarrow> u8 list" where
  "cf_frame fd k bs = padded (frame_len fd (1 + length bs)) ((ISOTP_PCI_CF OR of_nat (k mod 16)) # bs)"

lemma rx_cf_frame:
  assumes r: "rx_inv cfg s0 d k p s" and i: "i = rx_id (app s0)" and p: "p < length d"
    and bs: "bs = take (cf_room fd) (drop p d)"
  shows "if p + length bs = length d
    then delivered cfg cbs d s0 (uds_isotp_rx_callback cfg cbs i (cf_frame fd k bs) s)
    else ok (uds_isotp_rx_callback cfg cbs i (cf_frame fd k bs) s) (rx_inv cfg s0 d (Suc k) (p + length bs))"
proof -
  define m where "m = frame_len fd (1 + length bs)"
  define h where "h = (ISOTP_PCI_CF OR of_nat (k mod 16)) # bs"
  have f: "cf_frame fd k bs = padded m h" by (simp add: cf_frame_def m_def h_def)
  have k: "unat (of_nat (k mod 16) :: u8) < 16" by (simp add: unat_of_nat_u8)
  have len: "length bs \<le> 63" "p + length bs \<le> length d" "length bs = min (cf_room fd) (length d - p)"
    using p by (auto simp: bs cf_room_def)
  have m: "1 + length bs \<le> m" "m \<le> 64"
    using len(1) can_dl_bounds [of "1 + length bs"] by (auto simp: m_def frame_len_def bs cf_room_def)
  have l: "length (padded m h) = m" using m by (simp add: padded_length h_def)
  have b0: "byte_at (padded m h) 0 = Some (0x20 OR of_nat (k mod 16))"
    using m by (simp add: byte_at_def l) (simp add: padded_nth h_def)
  have at: "bytes_at (padded m h) (Suc 0) (length bs) = Some bs"
    using m by (subst padded_payload) (auto simp: h_def)
  obtain g b where s: "s = s0\<lparr>app := g, rx_buf := b\<rparr>"
    using r by (auto simp: rx_inv_def)
  have g: "rx_id g = i" "iso_state g = ISOTP_RX_WAIT_CF" "msg_len g = of_nat (length d)"
    "bytes_processed g = of_nat p" "iso_sn g = of_nat (k mod 16)" "length d \<le> 4095"
    and b: "length b = length (rx_buf s0)" "take p b = take p d" "length d \<le> length (rx_buf s0)"
    and s0: "\<not> ctx_null s0" "config_set s0"
    using r i by (simp_all add: rx_inv_def s)
  have cp: "unat (clip (of_nat m - 1) (msg_len g - bytes_processed g)) = length bs"
  proof -
    have "unat (of_nat m - 1 :: u8) = m - 1"
      using m by (subst unat_minus_le) (simp_all add: unat_of_nat_u8)
    moreover have "unat (msg_len g - bytes_processed g) = length d - p"
      using p g(6) by (subst unat_minus_le) (simp_all add: g(3,4) unat_of_nat_u16)
    moreover have "min (m - 1) (length d - p) = length bs"
      using m len(3) by (auto simp: m_def frame_len_def cf_room_def can_dl_def min_def split: if_splits)
    ultimately show ?thesis by (simp add: unat_clip)
  qed
  have bp: "bytes_processed g + ucast (clip (of_nat m - 1) (msg_len g - bytes_processed g)) = of_nat (p + length bs)"
    using g(4,6) p len(1) by (simp add: word_unat_eq_iff unat_word_ariths cp del: of_nat_add g(4)) (simp add: unat_of_nat_u16 del: of_nat_add)
  have bl: "blit p bs b = Some (take p d @ bs @ drop (p + length bs) b)"
    using b len(2) by (simp add: blit_Some)
  have tk: "take p d @ bs = take (p + length bs) d" using len(2) by (simp add: bs take_add min_def)
  have pu: "unat (bytes_processed g) = p" using g(4,6) p by (simp add: unat_of_nat_u16)
  have fin: "(of_nat (p + length bs) \<ge> msg_len g) = (p + length bs = length d)"
    using g(3,6) len(2) by (auto simp: word_le_nat_alt unat_of_nat_u16 simp del: of_nat_add)
  let ?b = "take p d @ bs @ drop (p + length bs) b"
  let ?g = "g\<lparr>iso_sn := of_nat (Suc k mod 16), bytes_processed := of_nat (p + length bs)\<rparr>"
  have all: "bytes_at ?b 0 (length d) = Some d" if "p + length bs = length d"
  proof -
    have "take (length d) (take p d @ bs @ drop (p + length bs) b) = take p d @ bs"
      using that p b(3) by (simp add: min_def)
    then show ?thesis using that p b(1,3) tk by (simp add: bytes_at_def)
  qed
  have "unat (msg_len g) = length d" using g(3,6) by (simp add: unat_of_nat_u16)
  then have eq: "uds_isotp_rx_callback cfg cbs i (cf_frame fd k bs) s =
      (if p + length bs = length d
       then uds_input_sdu cfg cbs (Some d) (s0\<lparr>rx_buf := ?b, app := ?g\<lparr>iso_state := ISOTP_IDLE\<rparr>\<rparr>)
       else Some (s0\<lparr>rx_buf := ?b, app := ?g\<rparr>))"
    unfolding f s using s0 g(1,2,5) b0 nibbles(3,4) [OF k] all
    by (simp add: uds_isotp_rx_callback_def uds_rx_cf_def Let_def with_iso_def l at pu bl fin bp cp next_sn
        del: of_nat_add)
  have tb: "take (p + length bs) ?b = take (p + length bs) d"
    using len(2) p by (simp add: tk [symmetric] min_def)
  show ?thesis
  proof (cases "p + length bs = length d")
    case True
    then show ?thesis unfolding eq by (auto intro: deliveredI)
  next
    case False
    then show ?thesis unfolding eq using g i b s0 len(2) p tb
      by (simp add: rx_inv_def s del: of_nat_add)
  qed
qed

fun rx_all :: "'c isotp config \<Rightarrow> 'c isotp callbacks \<Rightarrow> u32 \<Rightarrow> u8 list list \<Rightarrow> 'c isotp machine
    \<Rightarrow> 'c isotp machine option" where
  "rx_all cfg cbs i [] s = Some s"
| "rx_all cfg cbs i (f # fs) s = do { s \<leftarrow> uds_isotp_rx_callback cfg cbs i f s; rx_all cfg cbs i fs s }"

lemma rx_all_single [simp]: "rx_all cfg cbs i [f] s = uds_isotp_rx_callback cfg cbs i f s"
  by (cases "uds_isotp_rx_callback cfg cbs i f s") simp_all

lemma cf_frames_cf_frame:
  "d \<noteq> [] \<Longrightarrow> cf_frames fd k d =
     cf_frame fd k (take (cf_room fd) d) # cf_frames fd (Suc k) (drop (length (take (cf_room fd) d)) d)"
  unfolding cf_frame_def by (rule cf_frames_cons)

lemma rx_consecutive:
  assumes "rx_inv cfg s0 d k p s" "i = rx_id (app s0)" "p < length d"
  shows "delivered cfg cbs d s0 (rx_all cfg cbs i (cf_frames fd k (drop p d)) s)"
  using assms
proof (induction "length d - p" arbitrary: k p s rule: less_induct)
  case less
  define bs where "bs = take (cf_room fd) (drop p d)"
  have b: "0 < length bs" "p + length bs \<le> length d" using less.prems(3) by (auto simp: bs_def)
  have fr: "cf_frames fd k (drop p d) = cf_frame fd k bs # cf_frames fd (Suc k) (drop (p + length bs) d)"
    using less.prems(3) cf_frames_cf_frame [of "drop p d" fd k] by (simp add: bs_def add.commute)
  note step = rx_cf_frame [OF less.prems bs_def, of cbs]
  show ?case
  proof (cases "p + length bs = length d")
    case True
    with step fr show ?thesis
      by (simp add: cf_frames.simps [of fd "Suc k" "[]"] del: drop_drop rx_all.simps(2))
  next
    case False
    with step obtain s' where s': "uds_isotp_rx_callback cfg cbs i (cf_frame fd k bs) s = Some s'"
      "rx_inv cfg s0 d (Suc k) (p + length bs) s'" by (auto simp: ok_iff)
    have "length d - (p + length bs) < length d - p" using b less.prems(3) by linarith
    then have "delivered cfg cbs d s0 (rx_all cfg cbs i (cf_frames fd (Suc k) (drop (p + length bs) d)) s')"
      using b False less.prems(2) s'(2) by (intro less.hyps) simp_all
    then show ?thesis by (simp add: fr s'(1))
  qed
qed

lemma rx_sdu:
  assumes "d \<noteq> []" "length d \<le> 4095" "length d \<le> unat (rx_buffer_size cfg)"
    "length (rx_buf s) = unat (rx_buffer_size cfg)" "\<not> ctx_null s" "config_set s"
  shows "delivered cfg cbs d s (rx_all cfg cbs (rx_id (app s)) (sdu_frames fd d) s)"
proof (cases "length d \<le> sf_room fd")
  case True
  then have "length d \<le> 62" by (simp add: sf_room_def split: if_splits)
  then have "uds_isotp_rx_callback cfg cbs (rx_id (app s)) (sf_frame d) s =
      uds_input_sdu cfg cbs (Some d) (s\<lparr>rx_buf := rx_buf s, app := (app s)\<lparr>iso_state := ISOTP_IDLE\<rparr>\<rparr>)"
    using assms(1) by (simp add: rx_sf_frame with_iso_def)
  then have "delivered cfg cbs d s (uds_isotp_rx_callback cfg cbs (rx_id (app s)) (sf_frame d) s)"
    by (rule deliveredI) simp
  then show ?thesis using True by (simp add: sdu_frames_def del: rx_all.simps(2))
next
  case False
  then have ff: "ff_room fd < length d" by (simp add: sf_room_def ff_room_def split: if_splits)
  from rx_ff_frame [OF _ assms(2) refl assms(5,6,4,3), of fd cbs] False obtain s' where
    s': "uds_isotp_rx_callback cfg cbs (rx_id (app s)) (ff_frame fd d) s = Some s'"
      "rx_inv cfg s d 1 (ff_room fd) s'" by (auto simp: ok_iff)
  from rx_consecutive [OF s'(2) refl ff, of cbs fd] show ?thesis
    using False s'(1) by (simp add: sdu_frames_def mf_frames_def)
qed

section \<open>Frames that are not the expected ones\<close>

lemma rx_wrong_sn:
  assumes "iso_state (app s) = ISOTP_RX_WAIT_CF" "data \<noteq> []" "data ! 0 AND 0xF0 = 0x20"
    "data ! 0 AND 0x0F \<noteq> iso_sn (app s)" "i = rx_id (app s)"
  shows "uds_isotp_rx_callback cfg cbs i data s = Some (s\<lparr>app := (app s)\<lparr>iso_state := ISOTP_IDLE\<rparr>\<rparr>)"
  using assms by (simp add: uds_isotp_rx_callback_def uds_rx_cf_def uds_exec with_iso_def)

text \<open>
  What keeps the reassembly inside \<open>config->rx_buffer\<close>, whatever the frames contain: frames
  of 8 bytes, or CAN-FD frames of up to 64 bytes and a receive buffer of at least 125 bytes,
  the payloads of one first and one consecutive frame. A CAN-FD first frame may bring more
  bytes than the SDU it announces, hence the second disjunct.
\<close>

definition frame_fits :: "'c isotp config \<Rightarrow> u8 list \<Rightarrow> bool" where
  "frame_fits cfg data \<longleftrightarrow> length data = 8
     \<or> 8 < length data \<and> length data \<le> 64 \<and> 125 \<le> unat (rx_buffer_size cfg)"

definition rx_safe :: "'c isotp config \<Rightarrow> 'c isotp \<Rightarrow> bool" where
  "rx_safe cfg g \<longleftrightarrow> (iso_state g = ISOTP_RX_WAIT_CF \<longrightarrow>
     (bytes_processed g \<le> msg_len g \<or> unat (bytes_processed g) \<le> 62 \<and> 125 \<le> unat (rx_buffer_size cfg))
     \<and> msg_len g \<le> rx_buffer_size cfg \<and> 8 \<le> msg_len g)"

lemma rx_safe_idle [simp]: "rx_safe cfg (g\<lparr>iso_state := ISOTP_IDLE\<rparr>)"
  by (simp add: rx_safe_def)

text \<open>A received frame is handled in the transport, or hands an SDU to the stack.\<close>

definition rx_outcome :: "'c isotp config \<Rightarrow> 'c isotp callbacks \<Rightarrow> 'c isotp machine \<Rightarrow> 'c isotp machine option
    \<Rightarrow> bool" where
  "rx_outcome cfg cbs s r \<longleftrightarrow>
     (\<exists>g b. length b = length (rx_buf s) \<and> rx_safe cfg g \<and> r = Some (s\<lparr>app := g, rx_buf := b\<rparr>))
     \<or> (\<exists>d g b. length b = length (rx_buf s) \<and> rx_safe cfg g \<and> d \<noteq> [] \<and> length d < 65536
         \<and> r = uds_input_sdu cfg cbs (Some d) (s\<lparr>app := g, rx_buf := b\<rparr>))"

lemma rx_sf_outcome:
  assumes "8 \<le> length data" "length data \<le> 64"
  shows "rx_outcome cfg cbs s (uds_rx_sf cfg cbs data s)"
proof -
  have s: "with_iso (\<lambda>g. g\<lparr>iso_state := ISOTP_IDLE\<rparr>) s =
      s\<lparr>app := (app s)\<lparr>iso_state := ISOTP_IDLE\<rparr>, rx_buf := rx_buf s\<rparr>" by (simp add: with_iso_def)
  define n where "n = (if data ! 0 AND 0x0F = 0 then unat (data ! 1) else unat (data ! 0 AND 0x0F))"
  define off :: nat where "off = (if data ! 0 AND 0x0F = 0 then 2 else 1)"
  have no: "(if data ! 0 AND 0x0F = 0 then do { d1 \<leftarrow> byte_at data 1; Some (unat d1, 2) }
       else Some (unat (data ! 0 AND 0x0F), 1)) = Some (n, off)" and off: "off \<le> 2"
    using assms by (auto simp: byte_at_def n_def off_def)
  let ?s = "with_iso (\<lambda>g. g\<lparr>iso_state := ISOTP_IDLE\<rparr>) s"
  have "byte_at data 0 = Some (data ! 0)" using assms by (auto simp: byte_at_def)
  then have rx: "uds_rx_sf cfg cbs data s = (if n = 0 then Some ?s
      else if int n > int (length data) - int off then Some ?s
      else do { sdu \<leftarrow> bytes_at data off n; uds_input_sdu cfg cbs (Some sdu) ?s })"
    by (simp add: uds_rx_sf_def Let_def no split del: if_split)
  show ?thesis
  proof (cases "n = 0 \<or> int n > int (length data) - int off")
    case True
    with rx assms have "uds_rx_sf cfg cbs data s = Some ?s" by auto
    then show ?thesis unfolding s rx_outcome_def by (metis rx_safe_idle)
  next
    case False
    let ?d = "take n (drop off data)"
    have "uds_rx_sf cfg cbs data s = uds_input_sdu cfg cbs (Some ?d) ?s"
      using rx assms False by (auto simp: bytes_at_def)
    moreover have "?d \<noteq> []" "length ?d < 65536" using False off assms by auto
    ultimately show ?thesis unfolding s rx_outcome_def by (metis rx_safe_idle)
  qed
qed

lemma rx_safe_send_frame [simp]: "rx_safe cfg (snd (uds_internal_tp_send_frame f g)) = rx_safe cfg g"
  by (simp add: rx_safe_def)

lemma rx_ff_outcome:
  assumes "frame_fits cfg data" "\<not> ctx_null s" "config_set s" "length (rx_buf s) = unat (rx_buffer_size cfg)"
  shows "rx_outcome cfg cbs s (uds_rx_ff cfg data s)"
proof -
  define n where "n = be16 (data ! 0 AND 0x0F) (data ! Suc 0)"
  define k where "k = (if 8 < length data then of_nat (length data) - 2 else 6 :: u8)"
  have len: "8 \<le> length data" "length data \<le> 64" using assms(1) by (auto simp: frame_fits_def)
  have k: "unat k = length data - 2"
  proof (cases "length data = 8")
    case False
    then have "k = of_nat (length data) - 2" using len by (simp add: k_def)
    then show ?thesis using len by (simp add: unat_minus_le unat_of_nat_u8)
  qed (simp add: k_def)
  have uk: "unat (ucast k :: u16) = length data - 2" using k by simp
  have b: "byte_at data 0 = Some (data ! 0)" "byte_at data (Suc 0) = Some (data ! Suc 0)"
    "bytes_at data 2 (unat k) = Some (drop 2 data)"
    using len by (auto simp: byte_at_def bytes_at_def k)
  define r where "r = uds_rx_ff cfg data s"
  have "\<exists>g b. length b = length (rx_buf s) \<and> rx_safe cfg g \<and> r = Some (s\<lparr>app := g, rx_buf := b\<rparr>)"
  proof (cases "n < 8 \<or> rx_buffer_size cfg < n")
    case True
    then have "\<exists>g. r = Some (s\<lparr>app := g\<rparr>) \<and> rx_safe cfg g"
    proof (cases "n < 8")
      case True
      then have "r = Some (s\<lparr>app := (app s)\<lparr>iso_state := ISOTP_IDLE\<rparr>\<rparr>)"
        by (simp add: r_def uds_rx_ff_def Let_def b with_iso_def flip: n_def k_def)
      then show ?thesis by (metis rx_safe_idle)
    next
      case False
      with \<open>n < 8 \<or> rx_buffer_size cfg < n\<close> assms(1-3) have
        "r = Some (s\<lparr>app := (app s)\<lparr>msg_len := n, bytes_processed := ucast k, iso_sn := 1, iso_state := ISOTP_IDLE\<rparr>\<rparr>)"
        by (simp add: r_def uds_rx_ff_def Let_def b with_iso_def flip: n_def k_def)
      then show ?thesis by (metis rx_safe_idle)
    qed
    moreover have "s\<lparr>app := x\<rparr> = s\<lparr>app := x, rx_buf := rx_buf s\<rparr>" for x by simp
    ultimately show ?thesis by metis
  next
    case False
    let ?b = "drop 2 data @ drop (length data - 2) (rx_buf s)"
    have n: "8 \<le> unat n" "unat n \<le> length (rx_buf s)"
      using False assms(4) by (auto simp: word_less_nat_alt)
    have room: "length data - 2 \<le> length (rx_buf s)"
      using assms(1,4) n by (auto simp: frame_fits_def)
    then have "blit 0 (drop 2 data) (rx_buf s) = Some ?b" by (simp add: blit_Some)
    then have r: "r = Some (s\<lparr>rx_buf := ?b, app := snd (uds_internal_tp_send_frame
        [ISOTP_PCI_FC OR ISOTP_FC_CTS, block_size (app s), st_min (app s), 0, 0, 0, 0, 0]
        ((app s)\<lparr>msg_len := n, bytes_processed := ucast k, iso_sn := 1, iso_state := ISOTP_RX_WAIT_CF\<rparr>))\<rparr>)"
      using assms(2,3) False by (simp add: r_def uds_rx_ff_def Let_def b with_iso_def flip: n_def k_def)
    have "s\<lparr>rx_buf := y, app := x\<rparr> = s\<lparr>app := x, rx_buf := y\<rparr>" for x y by simp
    moreover have "length ?b = length (rx_buf s)" using room by simp
    moreover have "rx_safe cfg (snd (uds_internal_tp_send_frame
        [ISOTP_PCI_FC OR ISOTP_FC_CTS, block_size (app s), st_min (app s), 0, 0, 0, 0, 0]
        ((app s)\<lparr>msg_len := n, bytes_processed := ucast k, iso_sn := 1, iso_state := ISOTP_RX_WAIT_CF\<rparr>)))"
      using n assms(1,4) uk by (auto simp: rx_safe_def word_le_nat_alt frame_fits_def)
    ultimately show ?thesis unfolding r by metis
  qed
  then show ?thesis unfolding rx_outcome_def r_def by blast
qed

lemma rx_cf_outcome:
  assumes "frame_fits cfg data" "\<not> ctx_null s" "config_set s" "length (rx_buf s) = unat (rx_buffer_size cfg)"
    "rx_safe cfg (app s)"
  shows "rx_outcome cfg cbs s (uds_rx_cf cfg cbs data s)"
proof -
  define r where "r = uds_rx_cf cfg cbs data s"
  have upd: "s\<lparr>app := x\<rparr> = s\<lparr>app := x, rx_buf := rx_buf s\<rparr>"
    "s\<lparr>rx_buf := y, app := x\<rparr> = s\<lparr>app := x, rx_buf := y\<rparr>" for x y by simp_all
  have b: "byte_at data 0 = Some (data ! 0)" using assms(1) by (auto simp: byte_at_def frame_fits_def)
  consider "iso_state (app s) \<noteq> ISOTP_RX_WAIT_CF"
    | "iso_state (app s) = ISOTP_RX_WAIT_CF" "data ! 0 AND 0x0F \<noteq> iso_sn (app s)"
    | "iso_state (app s) = ISOTP_RX_WAIT_CF" "data ! 0 AND 0x0F = iso_sn (app s)" by blast
  then show ?thesis
  proof cases
    case 1
    then have "r = Some (s\<lparr>app := app s, rx_buf := rx_buf s\<rparr>)" by (simp add: r_def uds_rx_cf_def)
    then show ?thesis unfolding rx_outcome_def using assms(5) by (metis r_def)
  next
    case 2
    then have "r = Some (s\<lparr>app := (app s)\<lparr>iso_state := ISOTP_IDLE\<rparr>, rx_buf := rx_buf s\<rparr>)"
      by (simp add: r_def uds_rx_cf_def b with_iso_def)
    then show ?thesis unfolding rx_outcome_def by (metis r_def rx_safe_idle)
  next
    case 3
    define g where "g = app s"
    have len: "8 \<le> length data" "length data \<le> 64" using assms(1) by (auto simp: frame_fits_def)
    have g: "bytes_processed g \<le> msg_len g \<or> unat (bytes_processed g) \<le> 62 \<and> 125 \<le> length (rx_buf s)"
      "unat (msg_len g) \<le> length (rx_buf s)" "8 \<le> unat (msg_len g)"
      using 3(1) assms(4,5) by (simp_all add: rx_safe_def g_def word_le_nat_alt)
    define c where "c = clip (of_nat (length data) - 1) (msg_len g - bytes_processed g)"
    have cap: "unat (of_nat (length data) - 1 :: u8) = length data - 1"
      using len by (subst unat_minus_le) (auto simp: unat_of_nat_u8)
    then have c: "unat c \<le> length data - 1" by (simp add: c_def unat_clip)
    define q where "q = bytes_processed g + ucast c"
    have q: "unat q = unat (bytes_processed g) + unat c \<and> unat q \<le> length (rx_buf s)"
    proof (cases "bytes_processed g \<le> msg_len g")
      case True
      then have "unat c \<le> unat (msg_len g) - unat (bytes_processed g)" "unat (bytes_processed g) \<le> unat (msg_len g)"
        by (simp_all add: c_def unat_clip unat_minus_le word_le_nat_alt)
      then show ?thesis using g(2) u16_less [of "msg_len g"]
        by (simp add: q_def unat_word_ariths del: u16_less)
    next
      case False
      then have "unat (bytes_processed g) \<le> 62" "125 \<le> length (rx_buf s)" using g(1) by auto
      then show ?thesis using c len(2) by (simp add: q_def unat_word_ariths)
    qed
    have at: "bytes_at data (Suc 0) (unat c) = Some (take (unat c) (drop (Suc 0) data))"
      using len c by (auto simp: bytes_at_def)
    let ?b = "take (unat (bytes_processed g)) (rx_buf s) @ take (unat c) (drop (Suc 0) data)
        @ drop (unat q) (rx_buf s)"
    have lc: "length (take (unat c) (drop (Suc 0) data)) = unat c" using c by auto
    have bl: "blit (unat (bytes_processed g)) (take (unat c) (drop (Suc 0) data)) (rx_buf s) = Some ?b"
      using q lc by (subst blit_Some) simp_all
    have lb: "length ?b = length (rx_buf s)"
      using blit_length [OF bl] .
    let ?g = "g\<lparr>iso_sn := (iso_sn g + 1) AND 0x0F, bytes_processed := q\<rparr>"
    have r: "r = (if q \<ge> msg_len g
        then uds_input_sdu cfg cbs (Some (take (unat (msg_len g)) ?b))
               (s\<lparr>app := ?g\<lparr>iso_state := ISOTP_IDLE\<rparr>, rx_buf := ?b\<rparr>)
        else Some (s\<lparr>app := ?g, rx_buf := ?b\<rparr>))"
      using 3 assms(2,3) at bl lb g(2)
      by (simp add: r_def uds_rx_cf_def b Let_def with_iso_def bytes_at_ok upd(2) flip: g_def c_def q_def)
    show ?thesis
    proof (cases "q \<ge> msg_len g")
      case True
      let ?d = "take (unat (msg_len g)) ?b"
      have "?d \<noteq> []" using g(2,3) lb by auto
      moreover have "length ?d < 65536" by (rule le_less_trans [OF _ u16_less [of "msg_len g"]])
          (simp only: length_take min.cobounded2)
      moreover note True r lb
      ultimately show ?thesis unfolding rx_outcome_def r_def [symmetric] by (metis rx_safe_idle)
    next
      case False
      have "rx_safe cfg ?g" using False g(2,3) assms(4) by (simp add: rx_safe_def word_le_nat_alt)
      with False r lb show ?thesis unfolding rx_outcome_def r_def [symmetric] by metis
    qed
  qed
qed

lemma rx_outcome_callback:
  assumes "frame_fits cfg data" "\<not> ctx_null s" "config_set s" "length (rx_buf s) = unat (rx_buffer_size cfg)"
    "rx_safe cfg (app s)"
  shows "rx_outcome cfg cbs s (uds_isotp_rx_callback cfg cbs i data s)"
proof -
  have keep: "rx_outcome cfg cbs s (Some (s\<lparr>app := g\<rparr>))" if "rx_safe cfg g" for g
  proof -
    have "s\<lparr>app := g\<rparr> = s\<lparr>app := g, rx_buf := rx_buf s\<rparr>" by simp
    with that show ?thesis unfolding rx_outcome_def by metis
  qed
  have same: "rx_outcome cfg cbs s (Some s)" using keep [OF assms(5)] by simp
  have len: "8 \<le> length data" "length data \<le> 64" using assms(1) by (auto simp: frame_fits_def)
  have "\<exists>g. uds_rx_fc data (app s) = Some g \<and> rx_safe cfg g"
    using len assms(5) by (auto simp: uds_rx_fc_def byte_at_def rx_safe_def)
  then have "rx_outcome cfg cbs s (do { g \<leftarrow> uds_rx_fc data (app s); Some (s\<lparr>app := g\<rparr>) })"
    using keep by auto
  moreover have "byte_at data 0 = Some (data ! 0)" using len by (auto simp: byte_at_def)
  ultimately show ?thesis using assms same len
    by (simp add: uds_isotp_rx_callback_def byte_at_def rx_sf_outcome rx_ff_outcome rx_cf_outcome Let_def)
qed

section \<open>Properties\<close>

text \<open>
  A linked stack for the witnesses: the base application over this transport, with a
  receive buffer of 64 bytes.
\<close>

definition iso_config :: "unit isotp config" where
  "iso_config = base_config (\<lambda>g. (0, g)) isotp_tp"

definition iso_machine :: "unit isotp machine" where
  "iso_machine = base_machine demo_isotp"

lemma iso_demo:
  "rx_buffer_size iso_config = 64" "length (rx_buf iso_machine) = 64" "\<not> ctx_null iso_machine"
  "config_set iso_machine" "app iso_machine = demo_isotp" "rx_id demo_isotp = 0x7E0"
  by (simp_all add: iso_config_def base_config_def iso_machine_def base_machine_def
      demo_isotp_def uds_tp_isotp_init_def)

text \<open>
  Reassembly undoes segmentation. The frames of an SDU of up to 4095 bytes that fits
  the receive buffer, received in order, hand exactly that SDU to \<open>uds_input_sdu\<close>, on the
  machine as it was before the first frame but for the transport, which is idle, and the
  receive buffer.
\<close>

lemma isotp_reassembly:
  assumes "d \<noteq> []" "length d \<le> 4095" "length d \<le> unat (rx_buffer_size cfg)"
    "length (rx_buf s) = unat (rx_buffer_size cfg)" "\<not> ctx_null s" "config_set s"
  shows "\<exists>g b. rx_all cfg cbs (rx_id (app s)) (sdu_frames fd d) s =
      uds_input_sdu cfg cbs (Some d) (s\<lparr>app := g, rx_buf := b\<rparr>) \<and> iso_state g = ISOTP_IDLE"
  using rx_sdu [OF assms] by (simp add: delivered_def)

lemma demo_sdu_frames: "sdu_frames False (replicate 10 0x3E) =
    [[0x10, 10, 0x3E, 0x3E, 0x3E, 0x3E, 0x3E, 0x3E], [0x21, 0x3E, 0x3E, 0x3E, 0x3E, 0, 0, 0]]"
  by code_simp

lemma isotp_reassembly_example:
  "\<exists>g b. rx_all iso_config no_callbacks 0x7E0
     [[0x10, 10, 0x3E, 0x3E, 0x3E, 0x3E, 0x3E, 0x3E], [0x21, 0x3E, 0x3E, 0x3E, 0x3E, 0, 0, 0]] iso_machine =
   uds_input_sdu iso_config no_callbacks (Some (replicate 10 0x3E)) (iso_machine\<lparr>app := g, rx_buf := b\<rparr>)"
proof -
  have "\<exists>g b. rx_all iso_config no_callbacks (rx_id (app iso_machine)) (sdu_frames False (replicate 10 0x3E)) iso_machine =
      uds_input_sdu iso_config no_callbacks (Some (replicate 10 0x3E)) (iso_machine\<lparr>app := g, rx_buf := b\<rparr>)
      \<and> iso_state g = ISOTP_IDLE"
    by (rule isotp_reassembly) (simp_all add: iso_demo)
  then show ?thesis unfolding demo_sdu_frames iso_demo by blast
qed

text \<open>
  C9: a transmission end to end. When the peer grants an unlimited block, the frames that
  the sender of an SDU has put on the bus by the time it is idle again make a receiver with
  a large enough buffer hand that SDU to its stack.
\<close>

theorem isotp_end_to_end:
  assumes "sf_room (fd_mode g) < length d" "length d \<le> 1024" "length (pending_tx_sdu g) = 1024"
    "uds_isotp_send d g = Some (0, g1)" "reliable g1"
    "uds_rx_fc (0x30 # 0 # st # pad) g1 = Some g2"
    "spaced (required_st st) (timer_st g2) ts"
    "length d \<le> ff_room (fd_mode g1) + length ts * cf_room (fd_mode g1)"
    and r: "length d \<le> unat (rx_buffer_size cfg)"
    "length (rx_buf s) = unat (rx_buffer_size cfg)" "\<not> ctx_null s" "config_set s"
  shows "\<exists>g3 fs h b. ticks ts g2 = Some g3 \<and> iso_state g3 = ISOTP_IDLE
    \<and> frames g3 = frames g @ map (Pair (tx_id g3)) fs
    \<and> rx_all cfg cbs (rx_id (app s)) fs s = uds_input_sdu cfg cbs (Some d) (s\<lparr>app := h, rx_buf := b\<rparr>)"
proof -
  obtain g3 where g3: "ticks ts g2 = Some g3" "iso_state g3 = ISOTP_IDLE"
    "frames g3 = frames g @ map (Pair (tx_id g3)) (mf_frames (fd_mode g3) d)"
    using transmit_all [OF assms(1-8)] by blast
  have "use_can_fd g2 = use_can_fd g1"
    using assms(6) by (auto simp: uds_rx_fc_def byte_at_def split: if_splits)
  then have fd: "fd_mode g3 = fd_mode g"
    using ticks_fd [OF g3(1)] tx_inv_start [OF assms(1-4)] by simp
  have "mf_frames (fd_mode g3) d = sdu_frames (fd_mode g) d"
    using assms(1) by (simp add: sdu_frames_def fd)
  moreover have "d \<noteq> []" "length d \<le> 4095" using assms(1,2) by auto
  ultimately show ?thesis using g3 rx_sdu [OF _ _ r, of cbs "fd_mode g"] by (auto simp: delivered_def)
qed

theorem isotp_end_to_end_witness:
  "\<exists>g3 fs h b. ticks [7] (demo_sent\<lparr>iso_state := ISOTP_TX_SENDING_CF, block_size := 0, st_min := 5\<rparr>) = Some g3
    \<and> frames g3 = map (Pair (tx_id g3)) fs
    \<and> rx_all iso_config no_callbacks 0x7E0 fs iso_machine =
        uds_input_sdu iso_config no_callbacks (Some (replicate 10 0xAA)) (iso_machine\<lparr>app := h, rx_buf := b\<rparr>)"
proof -
  have "\<exists>g3 fs h b. ticks [7] (demo_sent\<lparr>iso_state := ISOTP_TX_SENDING_CF, block_size := 0, st_min := 5\<rparr>) = Some g3
    \<and> iso_state g3 = ISOTP_IDLE \<and> frames g3 = frames demo_isotp @ map (Pair (tx_id g3)) fs
    \<and> rx_all iso_config no_callbacks (rx_id (app iso_machine)) fs iso_machine =
        uds_input_sdu iso_config no_callbacks (Some (replicate 10 0xAA)) (iso_machine\<lparr>app := h, rx_buf := b\<rparr>)"
    by (rule isotp_end_to_end [OF _ _ _ demo_send, of 5 "[]"])
       (simp_all add: iso_demo demo_fields demo_sent_fields sf_room_def ff_room_def cf_room_def reliable_def
          quiet_driver.rep_eq uds_rx_fc_def byte_at_def required_st_def)
  then show ?thesis unfolding iso_demo demo_fields by auto
qed

text \<open>
  A consecutive frame with the wrong sequence number ends the reception: nothing is
  delivered, nothing is sent and the buffer keeps its contents.
\<close>

lemma isotp_sequence_error:
  assumes "iso_state (app s) = ISOTP_RX_WAIT_CF" "data \<noteq> []" "data ! 0 AND 0xF0 = 0x20"
    "data ! 0 AND 0x0F \<noteq> iso_sn (app s)"
  shows "uds_isotp_rx_callback cfg cbs (rx_id (app s)) data s =
    Some (s\<lparr>app := (app s)\<lparr>iso_state := ISOTP_IDLE\<rparr>\<rparr>)"
  using assms by (simp add: rx_wrong_sn)

lemma isotp_sequence_error_example:
  "uds_isotp_rx_callback iso_config no_callbacks 0x7E0 [0x25, 1, 2]
     (iso_machine\<lparr>app := demo_isotp\<lparr>iso_state := ISOTP_RX_WAIT_CF, iso_sn := 1\<rparr>\<rparr>) =
   Some (iso_machine\<lparr>app := demo_isotp\<lparr>iso_state := ISOTP_IDLE, iso_sn := 1\<rparr>\<rparr>)"
  using isotp_sequence_error [of "iso_machine\<lparr>app := demo_isotp\<lparr>iso_state := ISOTP_RX_WAIT_CF, iso_sn := 1\<rparr>\<rparr>"
      "[0x25, 1, 2]" iso_config no_callbacks]
  by (simp add: iso_demo)

text \<open>
  No sequence of frames drives the reassembly out of its buffer. A frame of 8 bytes,
  or one of up to 64 bytes when the buffer has at least 125, with any contents either changes only the transport and the receive buffer and
  keeps \<open>rx_safe\<close>, or hands a non-empty SDU to the stack.
\<close>

lemma isotp_receive_safe:
  assumes "frame_fits cfg data" "\<not> ctx_null s" "config_set s"
    "length (rx_buf s) = unat (rx_buffer_size cfg)" "rx_safe cfg (app s)"
  shows "(\<exists>g b. length b = length (rx_buf s) \<and> rx_safe cfg g
       \<and> uds_isotp_rx_callback cfg cbs i data s = Some (s\<lparr>app := g, rx_buf := b\<rparr>))
     \<or> (\<exists>d g b. length b = length (rx_buf s) \<and> rx_safe cfg g \<and> d \<noteq> [] \<and> length d < 65536
         \<and> uds_isotp_rx_callback cfg cbs i data s =
             uds_input_sdu cfg cbs (Some d) (s\<lparr>app := g, rx_buf := b\<rparr>))"
  using rx_outcome_callback [OF assms, of cbs i] by (simp add: rx_outcome_def)

lemma isotp_receive_safe_example:
  "(\<exists>g b. length b = 64 \<and> rx_safe iso_config g
       \<and> uds_isotp_rx_callback iso_config no_callbacks 0x7E0 [0x2F, 1, 2, 3, 4, 5, 6, 7] iso_machine =
           Some (iso_machine\<lparr>app := g, rx_buf := b\<rparr>))
   \<or> (\<exists>d g b. length b = 64 \<and> rx_safe iso_config g \<and> d \<noteq> [] \<and> length d < 65536
       \<and> uds_isotp_rx_callback iso_config no_callbacks 0x7E0 [0x2F, 1, 2, 3, 4, 5, 6, 7] iso_machine =
           uds_input_sdu iso_config no_callbacks (Some d) (iso_machine\<lparr>app := g, rx_buf := b\<rparr>))"
proof -
  have "rx_safe iso_config (app iso_machine)"
    by (simp add: rx_safe_def iso_demo demo_isotp_def uds_tp_isotp_init_def)
  moreover have "frame_fits iso_config [0x2F, 1, 2, 3, 4, 5, 6, 7]" by (simp add: frame_fits_def)
  ultimately show ?thesis
    using isotp_receive_safe [where data = "[0x2F, 1, 2, 3, 4, 5, 6, 7]" and cbs = no_callbacks and i = "0x7E0"
      and cfg = iso_config and s = iso_machine] by (simp only: iso_demo) simp
qed

text \<open>
  C40: on CAN-FD a smaller buffer is not enough. A first frame of 64 bytes that announces an SDU shorter
  than its own payload is copied whole: with a receive buffer of less than 62 bytes the copy
  leaves the buffer.
\<close>

theorem isotp_fd_first_frame_overflow:
  assumes "length data = 64" "data ! 0 = 0x10" "8 \<le> data ! 1" "unat (data ! 1) \<le> unat (rx_buffer_size cfg)"
    "unat (rx_buffer_size cfg) < 62" "length (rx_buf s) = unat (rx_buffer_size cfg)"
  shows "uds_isotp_rx_callback cfg cbs (rx_id (app s)) data s = None"
proof -
  define n where "n = be16 0 (data ! Suc 0)"
  have n: "unat n = unat (data ! 1)" by (simp add: n_def unat_be16)
  have "\<not> n < 8" "\<not> rx_buffer_size cfg < n"
    using assms(3-5) by (auto simp: word_less_nat_alt word_le_nat_alt n)
  then show ?thesis using assms(1,2,5,6)
    by (simp add: uds_isotp_rx_callback_def uds_rx_ff_def Let_def byte_at_def bytes_at_def blit_def with_iso_def
        flip: n_def)
qed

theorem isotp_fd_first_frame_overflow_witness:
  "uds_isotp_rx_callback (iso_config\<lparr>rx_buffer_size := 16\<rparr>) no_callbacks 0x7E0
     (0x10 # 8 # replicate 62 0xFF) (iso_machine\<lparr>rx_buf := replicate 16 0\<rparr>) = None"
  using isotp_fd_first_frame_overflow [of "0x10 # 8 # replicate 62 0xFF" "iso_config\<lparr>rx_buffer_size := 16\<rparr>"
      "iso_machine\<lparr>rx_buf := replicate 16 0\<rparr>" no_callbacks]
  by (simp add: iso_demo)

lemma cf_frames_length: "length d \<le> length (cf_frames fd k d) * cf_room fd"
proof (induction "length d" arbitrary: k d rule: less_induct)
  case less
  show ?case
  proof (cases "d = []")
    case False
    have "length (drop (cf_room fd) d) \<le> length (cf_frames fd (Suc k) (drop (cf_room fd) d)) * cf_room fd"
      using False by (intro less.hyps) simp
    then show ?thesis using False by (subst cf_frames.simps) (auto simp: Let_def)
  qed simp
qed



end
