(* ===== verification/Uds_Linked.thy ===== *)
theory Uds_Linked
  imports Uds_System Uds_Frame Uds_Isotp_Receive
begin

text \<open>
  The stack linked with its transport: \<open>uds_isotp_send\<close> below \<open>uds_send_response\<close>, and
  \<open>uds_isotp_rx_callback\<close> above \<open>uds_input_sdu\<close>. Frames from the bus, calls of the two timers
  and changes of the bus state in any order keep the linked system out of undefined behaviour.
\<close>

section \<open>The transmitting half\<close>

text \<open>What keeps the transmit loop inside the cached SDU.\<close>

definition tx_safe :: "'c isotp \<Rightarrow> bool" where
  "tx_safe g \<longleftrightarrow> length (pending_tx_sdu g) = 1024 \<and>
     (iso_state g \<in> {ISOTP_TX_WAIT_FC, ISOTP_TX_SENDING_CF} \<longrightarrow>
       unat (msg_len g) \<le> 1024 \<and> unat (bytes_processed g) \<le> unat (msg_len g))"

definition iso_safe :: "'c isotp config \<Rightarrow> 'c isotp \<Rightarrow> bool" where
  "iso_safe cfg g \<longleftrightarrow> rx_safe cfg g \<and> tx_safe g"

lemma tx_safe_send_frame [simp]: "tx_safe (snd (uds_internal_tp_send_frame f g)) = tx_safe g"
  by (simp add: tx_safe_def)

lemma tx_safe_isotp [simp]:
  assumes "tx_safe g" shows "tx_safe (snd (isotp_tp c g d))"
proof -
  have l: "length (pending_tx_sdu g) = 1024" using assms by (simp add: tx_safe_def)
  consider "length d \<le> sf_room (fd_mode g)" | "sf_room (fd_mode g) < length d" "length d \<le> 1024"
    | "1024 < length d" by linarith
  then show ?thesis
  proof cases
    case 1
    then have l: "length d \<le> 62" by (simp add: sf_room_def split: if_splits)
    have "uds_isotp_send d g = uds_send_sf d g" using 1 by (simp add: uds_isotp_send_def sf_room_def)
    then show ?thesis using assms
      by (simp add: isotp_tp_def send_sf_eq [OF l] tx_safe_def)
  next
    case 2
    have "uds_isotp_send d g = uds_send_mf d g" using 2 by (auto simp: uds_isotp_send_def sf_room_def)
    moreover have "ff_room (fd_mode g) < length d" using 2 by (auto simp: sf_room_def ff_room_def split: if_splits)
    then have "tx_safe (mf_started d g)" using 2 l
      by (simp add: tx_safe_def mf_started_def unat_of_nat_u16)
    ultimately show ?thesis using send_mf_eq [OF 2 l]
      by (simp add: isotp_tp_def case_prod_beta tx_safe_def)
  next
    case 3
    then show ?thesis using assms
      by (simp add: isotp_tp_def uds_isotp_send_def uds_send_mf_def)
  qed
qed

lemma ok_transmit:
  assumes "iso_safe cfg g" shows "ok (uds_tp_isotp_process t g) (iso_safe cfg)"
proof (cases "iso_state g = ISOTP_TX_SENDING_CF \<and> msg_len g - bytes_processed g \<noteq> 0")
  case False
  then show ?thesis using assms
    by (auto simp: uds_tp_isotp_process_def iso_safe_def rx_safe_def tx_safe_def)
next
  case True
  have l: "length (pending_tx_sdu g) = 1024" and m: "unat (msg_len g) \<le> 1024" "unat (bytes_processed g) \<le> unat (msg_len g)"
    using assms True by (simp_all add: iso_safe_def tx_safe_def)
  define d where "d = take (unat (msg_len g)) (pending_tx_sdu g)"
  have d: "length d = unat (msg_len g)" using l m by (simp add: d_def)
  define room where "room = (if use_can_fd g \<noteq> 0 then 63 else 7 :: u8)"
  let ?c = "clip room (msg_len g - bytes_processed g)"
  have c: "unat ?c \<le> unat (msg_len g) - unat (bytes_processed g)"
    using m(2) by (simp add: unat_clip unat_minus_le)
  have c63: "unat ?c \<le> 63" by (auto simp: room_def unat_clip min_def)
  let ?bs = "take (unat ?c) (drop (unat (bytes_processed g)) (pending_tx_sdu g))"
  have bs: "bytes_at (pending_tx_sdu g) (unat (bytes_processed g)) (unat ?c) = Some ?bs"
    using c m l by (simp add: bytes_at_ok)
  have lb: "length ?bs = unat ?c" using c m l by simp
  let ?dl = "if use_can_fd g \<noteq> 0 then uds_dlc_align (1 + ?c) else 8"
  have u: "unat (1 + ?c) = 1 + unat ?c" using c63 by (simp add: unat_word_ariths)
  have "1 + unat ?c \<le> unat ?dl \<and> unat ?dl \<le> 64"
  proof (cases "use_can_fd g \<noteq> 0")
    case True
    then show ?thesis using u c63 can_dl_bounds [of "1 + unat ?c"] by (simp add: dlc_align_can_dl)
  next
    case False
    then have "unat ?c \<le> 7" by (simp add: room_def unat_clip)
    then show ?thesis using False by simp
  qed
  then have f: "build_frame [ISOTP_PCI_CF OR iso_sn g] ?bs (unat ?dl) = Some (padded (unat ?dl) ([ISOTP_PCI_CF OR iso_sn g] @ ?bs))"
    using lb by (intro build_frame_eq) simp_all
  define fr where "fr = padded (unat ?dl) ([ISOTP_PCI_CF OR iso_sn g] @ ?bs)"
  have q: "unat (bytes_processed g + ucast ?c) = unat (bytes_processed g) + unat ?c"
    using c m by (simp add: unat_word_ariths)
  have le: "unat (bytes_processed g) + unat ?c \<le> unat (msg_len g)" using c m by linarith
  have "ok (uds_send_cf t (msg_len g - bytes_processed g) g) (iso_safe cfg)"
    using assms True c m q le
    unfolding uds_send_cf_def Let_def ok_bind bs ok_Some f fr_def [symmetric] room_def [symmetric]
    by (cases rule: send_frame_cases [of fr g]) (simp_all add: iso_safe_def rx_safe_def tx_safe_def)
  then show ?thesis using True assms
    by (simp add: uds_tp_isotp_process_def Let_def) (simp add: iso_safe_def rx_safe_def tx_safe_def)
qed

lemma rx_safe_isotp [simp]:
  assumes "rx_safe cfg g" shows "rx_safe cfg (snd (isotp_tp c g d))"
proof -
  have sf: "may (uds_send_sf d g) (\<lambda>r. rx_safe cfg (snd r))"
    using assms by (auto simp: uds_send_sf_def Let_def intro!: may_if may_any)
  have mf: "may (uds_send_mf d g) (\<lambda>r. rx_safe cfg (snd r))"
    using assms unfolding uds_send_mf_def Let_def case_prod_beta
    by (rule_tac may_if) (simp, simp only: may_bind may_Some, intro may_any, simp add: rx_safe_def)
  have "may (uds_isotp_send d g) (\<lambda>r. rx_safe cfg (snd r))"
    using sf mf by (simp add: uds_isotp_send_def)
  then show ?thesis using assms by (cases "uds_isotp_send d g") (simp_all add: isotp_tp_def)
qed

section \<open>The receiving half\<close>

lemma may_stack_input:
  assumes "app_closed cfg cbs I" "I (app s)"
  shows "may (uds_input_sdu cfg cbs d s) (\<lambda>s'. I (app s') \<and> rx_buf s' = rx_buf s)"
  using closed_app.may_input [OF closed_appI [OF assms(1)], of "rx_buf s" s d] assms(2)
  by (simp add: framed_def [abs_def])

lemma tx_safe_idle [simp]: "tx_safe g \<Longrightarrow> tx_safe (g\<lparr>iso_state := ISOTP_IDLE\<rparr>)"
  by (simp add: tx_safe_def)

lemma tx_safe_receiving: "length (pending_tx_sdu g) = 1024 \<Longrightarrow> iso_state g \<in> {ISOTP_IDLE, ISOTP_RX_WAIT_CF} \<Longrightarrow> tx_safe g"
  by (auto simp: tx_safe_def)

lemma may_rx_tx_safe:
  assumes "app_closed cfg cbs tx_safe" "tx_safe (app s)"
  shows "may (uds_isotp_rx_callback cfg cbs i data s) (\<lambda>s'. tx_safe (app s'))"
proof -
  have input: "may (uds_input_sdu cfg cbs d t) (\<lambda>s'. tx_safe (app s'))" if "tx_safe (app t)" for d t
    by (rule may_mono [OF may_stack_input [OF assms(1) that]]) simp
  have len: "length (pending_tx_sdu (app s)) = 1024" using assms(2) by (simp add: tx_safe_def)
  have sf: "may (uds_rx_sf cfg cbs data s) (\<lambda>s'. tx_safe (app s'))"
    using assms(2) by (auto simp: uds_rx_sf_def Let_def with_iso_def intro!: may_if may_any input)
  have ff: "may (uds_rx_ff cfg data s) (\<lambda>s'. tx_safe (app s'))"
    using assms(2) len
    by (auto simp: uds_rx_ff_def Let_def with_iso_def intro!: may_if may_any tx_safe_receiving)
  have cf: "may (uds_rx_cf cfg cbs data s) (\<lambda>s'. tx_safe (app s'))"
    using assms(2) len
    by (auto simp: uds_rx_cf_def Let_def with_iso_def intro!: may_if may_any input tx_safe_receiving)
  show ?thesis using assms(2) sf ff cf
    by (auto simp: uds_isotp_rx_callback_def uds_rx_fc_def Let_def tx_safe_def intro!: may_if may_any)
qed

section \<open>The linked stack\<close>

text \<open>
  The application of a linked stack: the contract of the whole stack, this transport as
  \<open>config->fn_tp_send\<close>, and callbacks that leave the transport's variables consistent.
\<close>

definition linked :: "'c isotp config \<Rightarrow> 'c isotp callbacks \<Rightarrow> bool" where
  "linked cfg cbs \<longleftrightarrow> system_ok cfg cbs \<and> fn_tp_send cfg = Some isotp_tp
     \<and> app_closed cfg cbs tx_safe \<and> app_closed cfg cbs (rx_safe cfg)"

definition bus_inv :: "'c isotp config \<Rightarrow> 'c isotp machine \<Rightarrow> bool" where
  "bus_inv cfg s \<longleftrightarrow> wfm cfg s \<and> length (rx_buf s) = unat (rx_buffer_size cfg) \<and> iso_safe cfg (app s)"

lemma bus_inv_app: "bus_inv cfg s \<Longrightarrow> iso_safe cfg g \<Longrightarrow> bus_inv cfg (s\<lparr>app := g\<rparr>)"
  by (simp add: bus_inv_def)

lemma ok_not_None: "ok m P \<Longrightarrow> m \<noteq> None"
  by (auto simp: ok_iff)

lemma ok_iso_safe:
  assumes "linked cfg cbs" "bus_inv cfg s" "ok m (\<lambda>r. wfm cfg (f r))"
    "\<And>I. app_closed cfg cbs I \<Longrightarrow> I (app s) \<Longrightarrow> may m (\<lambda>r. I (app (f r)) \<and> rx_buf (f r) = rx_buf s)"
  shows "ok m (\<lambda>r. bus_inv cfg (f r))"
proof -
  have l: "app_closed cfg cbs tx_safe" "app_closed cfg cbs (rx_safe cfg)"
    using assms(1) by (simp_all add: linked_def)
  have "tx_safe (app s)" "rx_safe cfg (app s)" "length (rx_buf s) = unat (rx_buffer_size cfg)"
    using assms(2) by (simp_all add: bus_inv_def iso_safe_def)
  then show ?thesis
    using assms(3) assms(4) [OF l(1)] assms(4) [OF l(2)]
    by (auto simp: ok_iff may_def bus_inv_def iso_safe_def)
qed

lemma ok_stack_input:
  assumes "linked cfg cbs" "bus_inv cfg s" "d \<noteq> []" "length d < 65536"
  shows "ok (uds_input_sdu cfg cbs (Some d) s) (bus_inv cfg)"
proof -
  have a: "app_ok cfg" "cbs_ok cfg cbs" using assms(1) by (simp_all add: linked_def system_ok_def)
  have w: "wfm cfg s" using assms(2) by (simp add: bus_inv_def)
  have "ok (uds_input_sdu cfg cbs (Some d) s) (wfm cfg)"
    by (rule ok_mono [OF ok_input_sdu [OF a w assms(4,3)]]) (auto dest!: served_once_stepped simp: stepped_def)
  then show ?thesis
    using ok_iso_safe [OF assms(1,2), of _ "\<lambda>s. s"] may_stack_input by blast
qed

text \<open>The reception needs no more of the application than that its callbacks keep the two halves.\<close>

lemma ok_rx_callback_app:
  assumes sys: "app_ok cfg" "cbs_ok cfg cbs"
    and closed: "app_closed cfg cbs tx_safe" "app_closed cfg cbs (rx_safe cfg)"
    and i: "bus_inv cfg s" and d: "frame_fits cfg data"
  shows "ok (uds_isotp_rx_callback cfg cbs i data s) (bus_inv cfg)"
proof -
  have w: "wfm cfg s" "length (rx_buf s) = unat (rx_buffer_size cfg)" "rx_safe cfg (app s)" "tx_safe (app s)"
    using i by (simp_all add: bus_inv_def iso_safe_def)
  let ?r = "uds_isotp_rx_callback cfg cbs i data s"
  note tx = may_rx_tx_safe [OF closed(1) w(4), of i data]
  have "ok ?r (\<lambda>s'. wfm cfg s' \<and> length (rx_buf s') = unat (rx_buffer_size cfg) \<and> rx_safe cfg (app s'))"
    using rx_outcome_callback [OF d wfm_basic(1,2) [OF w(1)] w(2,3), of cbs i] unfolding rx_outcome_def
  proof (elim disjE exE conjE, goal_cases)
    case (1 g b)
    then show ?case using w by simp
  next
    case (2 d g b)
    let ?s = "s\<lparr>app := g, rx_buf := b\<rparr>"
    have "wfm cfg ?s" using w by simp
    from ok_input_sdu [OF sys this 2(4,3)]
    have "ok (uds_input_sdu cfg cbs (Some d) ?s) (wfm cfg)"
      by (rule ok_mono) (auto dest!: served_once_stepped simp: stepped_def)
    moreover have "may (uds_input_sdu cfg cbs (Some d) ?s) (\<lambda>s'. rx_safe cfg (app s') \<and> rx_buf s' = b)"
      using may_stack_input [OF closed(2), of ?s "Some d"] 2 by simp
    ultimately show ?case using 2 w by (auto simp: ok_iff may_def)
  qed
  with tx show ?thesis by (auto simp: ok_iff may_def bus_inv_def iso_safe_def)
qed

lemma ok_rx_callback:
  "linked cfg cbs \<Longrightarrow> bus_inv cfg s \<Longrightarrow> frame_fits cfg data \<Longrightarrow>
   ok (uds_isotp_rx_callback cfg cbs i data s) (bus_inv cfg)"
  by (rule ok_rx_callback_app) (simp_all add: linked_def system_ok_def)

text \<open>
  What can happen to a linked stack: a frame arrives (for this node or another), one of the two
  timers runs, the application sends a request or answers one, switches CAN-FD on or off, and
  the rest of the world changes the state of the bus.
\<close>

inductive bus_step :: "'c isotp config \<Rightarrow> 'c isotp callbacks \<Rightarrow> 'c isotp machine \<Rightarrow> 'c isotp machine \<Rightarrow> bool"
  for cfg cbs where
  frame: "frame_fits cfg data \<Longrightarrow> uds_isotp_rx_callback cfg cbs i data s = Some s' \<Longrightarrow> bus_step cfg cbs s s'"
| tick: "uds_tp_isotp_process t (app s) = Some g \<Longrightarrow> bus_step cfg cbs s (s\<lparr>app := g\<rparr>)"
| timers: "uds_process cfg s = Some s' \<Longrightarrow> bus_step cfg cbs s s'"
| request: "length d = unat len \<Longrightarrow> uds_client_request cfg sid (Some d) len cb s = Some (r, s') \<Longrightarrow>
    bus_step cfg cbs s s'"
| respond: "length b = length (tx_buf s) \<Longrightarrow>
    uds_send_response cfg n (s\<lparr>tx_buf := b\<rparr>) = Some (r, s') \<Longrightarrow> bus_step cfg cbs s s'"
| mode: "bus_step cfg cbs s (s\<lparr>app := uds_tp_isotp_set_fd fd (app s)\<rparr>)"
| world: "bus_step cfg cbs s (s\<lparr>app := (app s)\<lparr>bus := b\<rparr>\<rparr>)"

lemma ok_linked_process:
  assumes "linked cfg cbs" "bus_inv cfg s"
  shows "ok (uds_process cfg s) (bus_inv cfg)"
proof (rule ok_iso_safe [OF assms, of _ "\<lambda>s. s"])
  show "ok (uds_process cfg s) (wfm cfg)"
    using ok_process_stepped [of cfg cbs s] assms by (auto simp: linked_def bus_inv_def ok_iff stepped_def)
  show "may (uds_process cfg s) (\<lambda>r. I (app r) \<and> rx_buf r = rx_buf s)" if "app_closed cfg cbs I" "I (app s)" for I
    using closed_app.may_process [OF closed_appI [OF that(1)], of "rx_buf s" s] that(2)
    by (simp add: framed_def [abs_def])
qed

lemma ok_linked_request:
  assumes "linked cfg cbs" "bus_inv cfg s" "length d = unat len"
  shows "ok (uds_client_request cfg sid (Some d) len cb s) (\<lambda>r. bus_inv cfg (snd r))"
proof (rule ok_iso_safe [OF assms(1,2)])
  have "compliant cfg" "wfm cfg s" using assms by (simp_all add: linked_def system_ok_def app_ok_def bus_inv_def)
  from ok_client_request_stepped [OF this assms(3)]
  show "ok (uds_client_request cfg sid (Some d) len cb s) (\<lambda>r. wfm cfg (snd r))"
    by (rule ok_mono) (simp add: stepped_def)
  show "may (uds_client_request cfg sid (Some d) len cb s) (\<lambda>r. I (app (snd r)) \<and> rx_buf (snd r) = rx_buf s)"
    if "app_closed cfg cbs I" "I (app s)" for I
    using closed_app.may_client_request [OF closed_appI [OF that(1)], of "rx_buf s" s sid "Some d" len cb] that(2)
    by (simp add: framed_def)
qed

lemma ok_linked_response:
  assumes "linked cfg cbs" "bus_inv cfg s" "length b = length (tx_buf s)"
  shows "ok (uds_send_response cfg n (s\<lparr>tx_buf := b\<rparr>)) (\<lambda>r. bus_inv cfg (snd r))"
proof (rule ok_iso_safe [OF assms(1)])
  have c: "compliant cfg" using assms by (simp add: linked_def system_ok_def app_ok_def)
  have k: "kept cfg s (s\<lparr>tx_buf := b\<rparr>)" using assms by (simp add: kept_refl bus_inv_def)
  then show "bus_inv cfg (s\<lparr>tx_buf := b\<rparr>)" using assms(2) by (simp add: bus_inv_def kept_def)
  show "ok (uds_send_response cfg n (s\<lparr>tx_buf := b\<rparr>)) (\<lambda>r. wfm cfg (snd r))"
    by (rule ok_mono [OF ok_send_response_kept [OF c k]]) (simp add: kept_def)
  show "may (uds_send_response cfg n (s\<lparr>tx_buf := b\<rparr>)) (\<lambda>r. I (app (snd r)) \<and> rx_buf (snd r) = rx_buf (s\<lparr>tx_buf := b\<rparr>))"
    if "app_closed cfg cbs I" "I (app (s\<lparr>tx_buf := b\<rparr>))" for I
    by (rule closed_app.may_send_response [OF closed_appI [OF that(1)], of "rx_buf s"])
       (use that(2) in \<open>simp_all add: framed_def\<close>)
qed

lemma ok_linked_tick: "bus_inv cfg s \<Longrightarrow> ok (uds_tp_isotp_process t (app s)) (\<lambda>g. bus_inv cfg (s\<lparr>app := g\<rparr>))"
  by (rule ok_mono [OF ok_transmit bus_inv_app]) (simp_all add: bus_inv_def)

lemma bus_step_inv:
  assumes "linked cfg cbs"
  shows "bus_step cfg cbs s s' \<Longrightarrow> bus_inv cfg s \<Longrightarrow> bus_inv cfg s'"
proof (induction rule: bus_step.induct)
  case (mode s fd)
  then show ?case by (auto simp: bus_inv_def iso_safe_def rx_safe_def tx_safe_def uds_tp_isotp_set_fd_def)
next
  case (world s b)
  then show ?case by (auto simp: bus_inv_def iso_safe_def rx_safe_def tx_safe_def)
next
  case (frame data i s s')
  then show ?case using okD [OF ok_rx_callback [OF assms]] by blast
next
  case (tick t s g)
  then show ?case using okD [OF ok_linked_tick] by blast
next
  case (timers s s')
  then show ?case using okD [OF ok_linked_process [OF assms]] by blast
next
  case (request d len sid cb s r s')
  from okD [OF ok_linked_request [OF assms request(3,1)] request(2)] show ?case by simp
next
  case (respond b s n r s')
  from okD [OF ok_linked_response [OF assms respond(3,1)] respond(2)] show ?case by simp
qed

inductive bus_reach :: "'c isotp config \<Rightarrow> 'c isotp callbacks \<Rightarrow> 'c isotp machine \<Rightarrow> 'c isotp machine \<Rightarrow> bool"
  for cfg cbs s0 where
  boot: "uds_init (Some cfg) s0 = Some (UDS_OK, s) \<Longrightarrow> bus_reach cfg cbs s0 s"
| step: "bus_reach cfg cbs s0 s \<Longrightarrow> bus_step cfg cbs s s' \<Longrightarrow> bus_reach cfg cbs s0 s'"

lemma bus_reach_inv:
  assumes "platform_ok cfg cbs s0" "linked cfg cbs" "iso_safe cfg (app s0)" "length (rx_buf s0) = unat (rx_buffer_size cfg)"
  shows "bus_reach cfg cbs s0 s \<Longrightarrow> bus_inv cfg s"
proof (induction rule: bus_reach.induct)
  case (boot s)
  have "wfm cfg s" using boot_fresh [OF assms(1) boot] by (auto simp: fresh_def)
  moreover have "I (app s) \<and> rx_buf s = rx_buf s0" if "app_closed cfg cbs I" "I (app s0)" for I
    using closed_app.may_init [OF closed_appI [OF that(1)], of "rx_buf s0" s0] that(2) boot
    by (simp add: framed_def)
  ultimately show ?case using assms(2-4) by (auto simp: bus_inv_def iso_safe_def linked_def)
next
  case (step s s')
  then show ?case using bus_step_inv [OF assms(2)] by blast
qed

text \<open>Seen from the stack, every event of the bus is a sequence of steps of its application.\<close>

lemma uds_step_app: "uds_step cfg cbs s (s\<lparr>app := g\<rparr>)"
  using uds_step.world [where s = s and w = g and b = "rx_buf s"] by simp

lemma bus_step_uds:
  assumes "linked cfg cbs"
  shows "bus_step cfg cbs s s' \<Longrightarrow> bus_inv cfg s \<Longrightarrow> (uds_step cfg cbs)\<^sup>*\<^sup>* s s'"
proof (induction rule: bus_step.induct)
  case (frame data i s s')
  have w: "wfm cfg s" "length (rx_buf s) = unat (rx_buffer_size cfg)" "rx_safe cfg (app s)"
    using frame(3) by (simp_all add: bus_inv_def iso_safe_def)
  from rx_outcome_callback [OF frame(1) wfm_basic(1,2) [OF w(1)] w(2,3), of cbs i] show ?case
    unfolding rx_outcome_def frame(2)
  proof (elim disjE exE conjE, goal_cases)
    case (1 g b)
    then show ?case using uds_step.world [of cfg cbs s] by (auto intro: r_into_rtranclp)
  next
    case (2 d g b)
    have "uds_step cfg cbs s (s\<lparr>app := g, rx_buf := b\<rparr>)" by (rule uds_step.world)
    moreover have "uds_step cfg cbs (s\<lparr>app := g, rx_buf := b\<rparr>) s'"
      by (rule uds_step.input [OF 2(4) 2(5) [symmetric]])
    ultimately show ?case by (rule converse_rtranclp_into_rtranclp [OF _ r_into_rtranclp])
  qed
qed (blast intro: uds_step.intros uds_step_app)+

lemma uds_reach_steps: "(uds_step cfg cbs)\<^sup>*\<^sup>* s s' \<Longrightarrow> uds_reach cfg cbs s0 s \<Longrightarrow> uds_reach cfg cbs s0 s'"
  by (induction rule: rtranclp_induct) (auto intro: uds_reach.step)

lemma bus_reach_uds:
  assumes "platform_ok cfg cbs s0" "linked cfg cbs" "iso_safe cfg (app s0)" "length (rx_buf s0) = unat (rx_buffer_size cfg)"
  shows "bus_reach cfg cbs s0 s \<Longrightarrow> uds_reach cfg cbs s0 s"
proof (induction rule: bus_reach.induct)
  case (step s s')
  then show ?case
    using uds_reach_steps [OF bus_step_uds [OF assms(2) step(2)]] bus_reach_inv [OF assms] by blast
qed (rule uds_reach.boot)

lemma iso_safe_init: "iso_safe cfg (uds_tp_isotp_init f tx rx (isotp_static b))"
  by (simp add: iso_safe_def rx_safe_def tx_safe_def uds_tp_isotp_init_def isotp_static_def)

section \<open>Properties\<close>

text \<open>
  A linked application for the witness: no callback but the clock and a periodic read.
\<close>

definition link_config :: "unit isotp config" where
  "link_config = (base_config (\<lambda>g. (0, g)) isotp_tp)\<lparr>fn_periodic_read := Some (\<lambda>c w i n. ((0, []), w))\<rparr>"

definition link_machine :: "unit isotp machine" where
  "link_machine = base_machine (uds_tp_isotp_init (Some quiet_driver) 0x7E8 0x7E0 (isotp_static ()))"

lemma link_fields:
  "get_time_ms link_config = Some (\<lambda>g. (0, g))" "fn_tp_send link_config = Some isotp_tp"
  "rx_buffer link_config" "rx_buffer_size link_config = 64" "tx_buffer_size link_config = 64"
  "did_table link_config = []" "user_services link_config = []" "fn_nvm_load link_config = None"
  "fn_log link_config = None" "tx_buffer link_config"
  by (simp_all add: link_config_def base_config_def)

lemma link_closed: "I = tx_safe \<or> I = rx_safe cfg \<Longrightarrow> app_closed link_config no_callbacks I"
  by (auto simp: app_closed_def no_callbacks_def link_config_def base_config_def)

lemma link_platform: "platform_ok link_config no_callbacks link_machine" "linked link_config no_callbacks"
proof -
  have "compliant link_config"
    using base_compliant [OF isotp.sdu_transport_axioms, of "\<lambda>g. (0, g)"]
    by (simp add: link_config_def compliant_def did_secured_def base_config_def)
  then have s: "system_ok link_config no_callbacks"
    by (simp add: system_ok_def app_ok_def no_callbacks_ok link_fields) (simp add: periodic_ok_def link_config_def)
  then show "platform_ok link_config no_callbacks link_machine"
    by (simp add: platform_ok_def nvm_ok_def memory_ok_def link_fields link_machine_def machine_fields)
  show "linked link_config no_callbacks"
    using s link_closed [of tx_safe] link_closed [of "rx_safe link_config" link_config]
    by (simp add: linked_def link_fields)
qed



end
