(* ===== verification/Uds_Host_Sim.thy ===== *)
theory Uds_Host_Sim
  imports Uds_Linked
begin

text \<open>
  The host simulator \<open>examples/host_sim/main.c\<close>: a virtual ECU that links the stack with the
  transport over a virtual CAN bus, with a clock, 1 KB of memory behind the memory services,
  two data identifiers and callbacks that answer with fixed bytes. A line printed is kept as
  its format, without the line break, and its arguments: a number, which is not negative, an \<open>int\<close>, or
  a string.
\<close>

section \<open>The world of the simulator\<close>

datatype arg = Num nat | Dec int | Str string

text \<open>
  \<open>clock\<close> gives seconds and nanoseconds for the n-th reading of \<open>CLOCK_MONOTONIC\<close>, \<open>reads\<close>
  counts the readings; \<open>packets\<close> are the datagrams sent, with the bytes of \<open>data\<close> that were
  set. \<open>wild\<close> is set when a \<open>memcpy\<close> leaves \<open>mock_memory\<close> or its source: from there on C says
  nothing.
\<close>

record sim =
  mock_memory :: "u8 list"
  clock :: "nat \<Rightarrow> nat \<times> nat"
  reads :: nat
  packets :: "(u32 \<times> u8 list) list"
  console :: "(string \<times> arg list) list"
  wild :: bool

type_synonym ecu = "sim isotp"

definition printf :: "string \<Rightarrow> arg list \<Rightarrow> sim \<Rightarrow> sim" where
  "printf fmt args w = w\<lparr>console := console w @ [(fmt, args)]\<rparr>"

definition say :: "string \<Rightarrow> arg list \<Rightarrow> ecu \<Rightarrow> ecu" where
  "say fmt args g = g\<lparr>bus := printf fmt args (bus g)\<rparr>"

definition sim_get_time_ms :: "ecu \<Rightarrow> u32 \<times> ecu" where
  "sim_get_time_ms g = (let (sec, nsec) = clock (bus g) (reads (bus g)) in
     (of_nat (sec * 1000 + nsec div 1000000), g\<lparr>bus := (bus g)\<lparr>reads := reads (bus g) + 1\<rparr>\<rparr>))"

definition sim_fn_mem_read :: "uds_ctx \<Rightarrow> ecu \<Rightarrow> u32 \<Rightarrow> u32 \<Rightarrow> ecu ret_out" where
  "sim_fn_mem_read c g addr sz =
     (if addr + sz > 1024 then ((-0x31, []), g)
      else case bytes_at (mock_memory (bus g)) (unat addr) (unat sz) of
        Some bs \<Rightarrow> ((0, bs), g)
      | None \<Rightarrow> ((0, replicate (unat sz) 0), g\<lparr>bus := (bus g)\<lparr>wild := True\<rparr>\<rparr>))"

definition sim_fn_mem_write :: "uds_ctx \<Rightarrow> ecu \<Rightarrow> u32 \<Rightarrow> u32 \<Rightarrow> u8 list \<Rightarrow> ecu ret" where
  "sim_fn_mem_write c g addr sz data =
     (if addr + sz > 1024 then (-0x31, g)
      else case do { bs \<leftarrow> bytes_at data 0 (unat sz); blit (unat addr) bs (mock_memory (bus g)) } of
        Some m \<Rightarrow> (0, g\<lparr>bus := (bus g)\<lparr>mock_memory := m\<rparr>\<rparr>)
      | None \<Rightarrow> (0, g\<lparr>bus := (bus g)\<lparr>wild := True\<rparr>\<rparr>))"

definition log_event :: "ecu \<Rightarrow> u8 \<Rightarrow> string \<Rightarrow> ecu" where
  "log_event g level msg =
     (let lvl_str = (if level = UDS_LOG_ERROR then ''ERR'' else if level = UDS_LOG_INFO then ''INF'' else ''DBG'');
          (now, g) = sim_get_time_ms g
      in say ''[%u] [%s] %s'' [Num (unat now), Str lvl_str, Str msg] g)"

text \<open>
  The driver sends a datagram for every frame; the socket is open while the simulator runs.
  The transport builds its frames in arrays of 64 bytes, so the copy fits the packet.
\<close>

lift_definition mock_can_send :: "sim driver" is
  "\<lambda>w i data.
     let w = printf ''[CAN TX] ID:%03X Data: %02X...'' (Num (unat i) # map (Num \<circ> unat) data) w
     in (0, w\<lparr>packets := packets w @ [(i, data)]\<rparr>)" by (simp add: Let_def)

section \<open>The callbacks\<close>

definition mock_reset :: "uds_ctx \<Rightarrow> ecu \<Rightarrow> u8 \<Rightarrow> ecu" where
  "mock_reset c g ty =
     say ''[APP] ECU RESET TRIGGERED: Type %s (0x%02X)'' [Str (if ty = 0x01 then ''HARD'' else ''SOFT''), Num (unat ty)] g"

definition mock_dtc_read :: "uds_ctx \<Rightarrow> ecu \<Rightarrow> u8 \<Rightarrow> u16 \<Rightarrow> ecu ret_out" where
  "mock_dtc_read c g subfn max_len =
     (let g = say ''[APP] DTC READ: Subfunction 0x%02X'' [Num (unat subfn)] g in
      if subfn = 0x01 then ((4, [0x01, 0x01, 0x00, 0x02]), g) else ((-0x31, []), g))"

definition mock_dtc_clear :: "uds_ctx \<Rightarrow> ecu \<Rightarrow> u32 \<Rightarrow> ecu ret" where
  "mock_dtc_clear c g grp = (UDS_OK, say ''[APP] DTC CLEAR: Group 0x%06X'' [Num (unat grp)] g)"

definition mock_security_seed :: "uds_ctx \<Rightarrow> ecu \<Rightarrow> u8 \<Rightarrow> u16 \<Rightarrow> ecu ret_out" where
  "mock_security_seed c g level max_len =
     (if max_len < 4 then ((-0x22, []), g)
      else ((4, [0xDE, 0xAD, 0xBE, 0xEF]), say ''[APP] SECURITY SEED (level %u)'' [Num (unat level)] g))"

definition mock_security_key :: "uds_ctx \<Rightarrow> ecu \<Rightarrow> u8 \<Rightarrow> u8 list \<Rightarrow> ecu ret" where
  "mock_security_key c g level key =
     (UDS_OK, say ''[APP] SECURITY KEY ACCEPTED (level %u)'' [Num (unat level)] g)"

definition mock_auth :: "uds_ctx \<Rightarrow> ecu \<Rightarrow> u8 \<Rightarrow> u8 list \<Rightarrow> u16 \<Rightarrow> ecu ret_out" where
  "mock_auth c g subfn data max_len =
     (let g = say ''[APP] AUTH: Subfunction 0x%02X'' [Num (unat subfn)] g in
      if subfn = 0x01 then ((0, []), g) else if subfn = 0x02 then ((1, [0x01]), g) else ((-0x22, []), g))"

definition mock_routine_control :: "uds_ctx \<Rightarrow> ecu \<Rightarrow> u8 \<Rightarrow> u16 \<Rightarrow> u8 list \<Rightarrow> u16 \<Rightarrow> ecu ret_out" where
  "mock_routine_control c g ty i data max_len =
     (let g = say ''[APP] ROUTINE CONTROL: Type 0x%02X ID 0x%04X'' [Num (unat ty), Num (unat i)] g in
      if i = 0xFF00 then ((1, [0x00]), g) else ((-0x31, []), g))"

definition mock_request_download :: "uds_ctx \<Rightarrow> ecu \<Rightarrow> u32 \<Rightarrow> u32 \<Rightarrow> ecu ret" where
  "mock_request_download c g addr sz =
     (UDS_OK, say ''[APP] REQUEST DOWNLOAD: Addr 0x%08X Size 0x%08X'' [Num (unat addr), Num (unat sz)] g)"

definition mock_transfer_data :: "uds_ctx \<Rightarrow> ecu \<Rightarrow> u8 \<Rightarrow> u8 list \<Rightarrow> ecu ret" where
  "mock_transfer_data c g sequence data =
     (UDS_OK, say ''[APP] TRANSFER DATA: Seq 0x%02X Len %u'' [Num (unat sequence), Num (length data)] g)"

definition mock_transfer_exit :: "uds_ctx \<Rightarrow> ecu \<Rightarrow> ecu ret" where
  "mock_transfer_exit c g = (UDS_OK, say ''[APP] TRANSFER EXIT'' [] g)"

definition mock_io_control :: "uds_ctx \<Rightarrow> ecu \<Rightarrow> u16 \<Rightarrow> u8 \<Rightarrow> u8 list \<Rightarrow> u16 \<Rightarrow> ecu ret_out" where
  "mock_io_control c g i ty data max_len =
     (let g = say ''[APP] IO CONTROL: ID 0x%04X Type 0x%02X'' [Num (unat i), Num (unat ty)] g in
      if i = 0x0123 then ((1, [0x55]), g) else ((-0x31, []), g))"

definition mock_request_upload :: "uds_ctx \<Rightarrow> ecu \<Rightarrow> u32 \<Rightarrow> u32 \<Rightarrow> ecu ret" where
  "mock_request_upload c g addr sz =
     (UDS_OK, say ''[APP] REQUEST UPLOAD: Addr 0x%08X Size 0x%08X'' [Num (unat addr), Num (unat sz)] g)"

definition mock_periodic_read :: "uds_ctx \<Rightarrow> ecu \<Rightarrow> u8 \<Rightarrow> u16 \<Rightarrow> ecu ret_out" where
  "mock_periodic_read c g i max_len =
     ((2, [0xAA, 0xBB]), say ''[APP] PERIODIC READ: ID 0x%02X'' [Num (unat i)] g)"

section \<open>Configuration and memory\<close>

text \<open>The storage of the two data identifiers: addresses 0 and 1 of \<open>did_store\<close>.\<close>

definition g_ecu_dids :: "ecu did_entry list" where
  "g_ecu_dids =
     [\<lparr>did_id = 0xF190, did_size = 14, did_session_mask = 0, did_security_mask = 0, did_read = None,
       did_write = None, did_storage = Some 0\<rparr>,
      \<lparr>did_id = 0x0123, did_size = 16, did_session_mask = 0, did_security_mask = 0, did_read = None,
       did_write = None, did_storage = Some 1\<rparr>]"

definition ascii :: "string \<Rightarrow> u8 list" where
  "ascii cs = map of_char cs"

definition sim_storage :: "nat \<Rightarrow> u8 list" where
  "sim_storage a = (if a = 0 then ascii ''UDSLIB_SIM_001'' @ [0]
     else if a = 1 then ascii ''ECU_OWNER'' @ replicate 7 0 else [])"

definition sim_config :: "ecu config" where
  "sim_config = \<lparr>
     ecu_address = 0x10, get_time_ms = Some sim_get_time_ms, fn_log = Some log_event,
     fn_tp_send = Some isotp_tp, cfg_p2_ms = 50, cfg_p2_star_ms = 2000,
     fn_reset = Some mock_reset, fn_comm_control = None, fn_security_seed = Some mock_security_seed,
     fn_security_key = Some mock_security_key, rx_buffer = True, rx_buffer_size = 1024,
     tx_buffer = True, tx_buffer_size = 1024, strict_compliance = False, log_level = 0,
     security_delay_ms = 0, security_max_attempts = 0, rcrrp_limit = 0,
     transfer_accept_last_block_replay = False, did_table = g_ecu_dids, user_services = [],
     fn_is_safe = None, fn_nvm_save = None, fn_nvm_load = None, fn_dtc_read = Some mock_dtc_read,
     fn_dtc_clear = Some mock_dtc_clear, fn_auth = Some mock_auth,
     fn_routine_control = Some mock_routine_control, fn_request_download = Some mock_request_download,
     fn_transfer_data = Some mock_transfer_data, fn_transfer_exit = Some mock_transfer_exit,
     fn_mem_read = Some sim_fn_mem_read, fn_mem_write = Some sim_fn_mem_write,
     fn_io_control = Some mock_io_control, fn_request_upload = Some mock_request_upload,
     fn_periodic_read = Some mock_periodic_read, fn_mutex_lock = None, fn_mutex_unlock = None,
     p2_server_max = 0, p2_star_server_max = 0\<rparr>"

text \<open>
  The program before \<open>uds_init\<close>: the two buffers are static, \<open>ctx\<close> is a local variable with
  any contents, those of \<open>m\<close>, and the transport is set up for CAN-FD or not.
\<close>

definition sim_machine :: "bool \<Rightarrow> sim \<Rightarrow> ecu machine \<Rightarrow> ecu machine" where
  "sim_machine enable_fd w m = m\<lparr>ctx_null := False, tx_buf := replicate 1024 0, rx_buf := replicate 1024 0,
     did_store := sim_storage, tr := [],
     app := uds_tp_isotp_set_fd enable_fd
       (uds_tp_isotp_init (Some mock_can_send) 0x7E8 0x7E0 (isotp_static w))\<rparr>"

definition sim_boot :: "bool \<Rightarrow> sim \<Rightarrow> ecu machine \<Rightarrow> (int \<times> ecu machine) option" where
  "sim_boot enable_fd w m = uds_init (Some sim_config) (sim_machine enable_fd w m)"

section \<open>The main loop\<close>

text \<open>
  One turn of the loop: \<open>slow_op_start\<close> and the machine before and after; \<open>pkt\<close> is the datagram
  that \<open>recvfrom\<close> returns in this turn, identifier and the \<open>len\<close> bytes of its payload.
\<close>

definition slow_operation :: "u32 \<Rightarrow> u32 \<Rightarrow> ecu machine \<Rightarrow> (u32 \<times> ecu machine) option" where
  "slow_operation now slow_op_start s =
     (let (slow_op_start, s) = (if p2_msg_pending s \<and> pending_sid s = 0x31 \<and> slow_op_start = 0
        then (now, s\<lparr>app := say ''[APP] Starting 1.5s operation for SID 0x31...'' [] (app s)\<rparr>)
        else (slow_op_start, s)) in
      if slow_op_start > 0 \<and> now - slow_op_start \<ge> 1500 then do {
        let s = s\<lparr>app := say ''[APP] Operation complete! Sending 0x71 response.'' [] (app s)\<rparr>;
        s \<leftarrow> tx_write 0 0x71 s;
        s \<leftarrow> tx_write 1 0x01 s;
        (r, s) \<leftarrow> uds_send_response sim_config 2 s;
        Some (0, s) }
      else Some (slow_op_start, s))"

definition sim_turn :: "(u32 \<times> u8 list) option \<Rightarrow> u32 \<times> ecu machine \<Rightarrow> (u32 \<times> ecu machine) option" where
  "sim_turn pkt st = (case st of (slow_op_start, s) \<Rightarrow> do {
     (now, s) \<leftarrow> time_now sim_config s;
     s \<leftarrow> uds_process sim_config s;
     g \<leftarrow> uds_tp_isotp_process now (app s);
     (slow_op_start, s) \<leftarrow> slow_operation now slow_op_start (s\<lparr>app := g\<rparr>);
     s \<leftarrow> (case pkt of None \<Rightarrow> Some s
       | Some (i, data) \<Rightarrow> uds_isotp_rx_callback sim_config no_callbacks i data s);
     Some (slow_op_start, s) })"

inductive sim_reach :: "bool \<Rightarrow> sim \<Rightarrow> ecu machine \<Rightarrow> u32 \<times> ecu machine \<Rightarrow> bool"
  for enable_fd w m where
  boot: "sim_boot enable_fd w m = Some (r, s) \<Longrightarrow> sim_reach enable_fd w m (0, s)"
| turn: "sim_reach enable_fd w m st \<Longrightarrow> \<forall>i data. pkt = Some (i, data) \<longrightarrow> 8 \<le> length data \<and> length data \<le> 64 \<Longrightarrow>
    sim_turn pkt st = Some st' \<Longrightarrow> sim_reach enable_fd w m st'"

section \<open>The contracts of the libraries it links\<close>

lemmas sim_callbacks =
  sim_get_time_ms_def log_event_def mock_reset_def mock_dtc_read_def mock_dtc_clear_def
  mock_security_seed_def mock_security_key_def mock_auth_def mock_routine_control_def
  mock_request_download_def mock_transfer_data_def mock_transfer_exit_def mock_io_control_def
  mock_request_upload_def mock_periodic_read_def

lemma sim_dids: "e \<in> set g_ecu_dids \<Longrightarrow> did_read e = None \<and> did_write e = None \<and> did_security_mask e = 0
    \<and> (\<forall>a. did_storage e = Some a \<longrightarrow> unat (did_size e) \<le> length (sim_storage a))"
  by (auto simp: g_ecu_dids_def sim_storage_def ascii_def)

lemma sim_fields:
  "fn_tp_send sim_config = Some isotp_tp" "get_time_ms sim_config = Some sim_get_time_ms"
  "rx_buffer sim_config" "tx_buffer sim_config" "rx_buffer_size sim_config = 1024" "tx_buffer_size sim_config = 1024"
  "did_table sim_config = g_ecu_dids" "user_services sim_config = []" "fn_nvm_load sim_config = None"
  "fn_periodic_read sim_config = Some mock_periodic_read"
  by (simp_all add: sim_config_def)

lemma sim_say: "(\<And>g w. I (g\<lparr>bus := w\<rparr>) = I g) \<Longrightarrow> I (say f as g) = I g"
  by (simp add: say_def)

lemma sim_safe_bus [simp]: "tx_safe (g\<lparr>bus := w\<rparr>) = tx_safe g" "rx_safe cfg (g\<lparr>bus := w\<rparr>) = rx_safe cfg g"
  by (simp_all add: tx_safe_def rx_safe_def)

text \<open>The callbacks change nothing of the transport but the world below it.\<close>

lemma sim_closed:
  assumes "\<And>g w. I (g\<lparr>bus := w\<rparr>) = I g" "\<And>c g d. I g \<Longrightarrow> I (snd (isotp_tp c g d))"
  shows "app_closed sim_config no_callbacks I"
  using assms sim_say [of I, OF assms(1)]
  by (auto simp: app_closed_def sim_config_def no_callbacks_def sim_callbacks sim_fn_mem_read_def
      sim_fn_mem_write_def case_prod_beta Let_def sim_dids split: option.split)

interpretation sim_tx: closed_app sim_config no_callbacks tx_safe "{}" b for b
  by (intro_locales, rule closed_appI, rule sim_closed) simp_all

interpretation sim_rx: closed_app sim_config no_callbacks "rx_safe sim_config" "{}" b for b
  by (intro_locales, rule closed_appI, rule sim_closed) simp_all

lemma sim_compliant: "compliant sim_config"
proof -
  have "length (snd (fst (sim_fn_mem_read c g a n))) \<le> unat n" for c g a n
    by (auto simp: sim_fn_mem_read_def bytes_at_def split: option.splits if_splits)
  moreover have "\<not> did_secured sim_config" by (auto simp: did_secured_def sim_fields dest: sim_dids)
  ultimately show ?thesis
    using isotp.sdu_transport_axioms
    by (auto simp: compliant_def sim_config_def sim_callbacks fits_def Let_def dest: sim_dids)
qed

lemma sim_system: "system_ok sim_config no_callbacks"
  using sim_compliant
  by (simp add: system_ok_def app_ok_def no_callbacks_ok sim_fields)
    (simp add: periodic_ok_def sim_fields mock_periodic_read_def)

lemma sim_linked: "linked sim_config no_callbacks"
  using sim_system sim_tx.closed sim_rx.closed by (simp add: linked_def sim_fields)

lemma sim_platform: "platform_ok sim_config no_callbacks (sim_machine fd w m)"
  using sim_system
  by (auto simp: platform_ok_def nvm_ok_def memory_ok_def sim_fields sim_machine_def dest: sim_dids)

section \<open>The simulator is a linked stack\<close>

lemma sim_boot_ok: "\<exists>s. sim_boot fd w m = Some (UDS_OK, s)"
proof -
  have "nvm_ok sim_config" "memory_ok sim_config (sim_machine fd w m)"
    using sim_platform by (simp_all add: platform_ok_def)
  from ok_init [OF sim_compliant _ this] show ?thesis
    by (auto simp: sim_boot_def sim_fields ok_iff)
qed

lemma sim_start:
  "iso_safe sim_config (app (sim_machine fd w m))" "length (rx_buf (sim_machine fd w m)) = 1024"
  using iso_safe_init [of sim_config "Some mock_can_send" "0x7E8" "0x7E0" w]
  by (simp_all add: sim_machine_def iso_safe_def rx_safe_def tx_safe_def uds_tp_isotp_set_fd_def)

lemma sim_bus_inv: "bus_reach sim_config no_callbacks (sim_machine fd w m) s \<Longrightarrow> bus_inv sim_config s"
  using bus_reach_inv [OF sim_platform sim_linked sim_start(1)] sim_start(2) by (simp add: sim_fields)

lemma sim_settled: "bus_reach sim_config no_callbacks (sim_machine fd w m) s \<Longrightarrow> \<not> p2_msg_pending s"
  using reach_settled [OF sim_platform, of fd w m s] bus_reach_uds [OF sim_platform sim_linked sim_start(1)] sim_start(2)
  by (simp add: sim_fields)

lemma sim_time: "time_now sim_config s = Some (fst (sim_get_time_ms (app s)), s\<lparr>app := (app s)\<lparr>bus := bus (snd (sim_get_time_ms (app s)))\<rparr>\<rparr>)"
  by (simp add: time_now_def sim_fields sim_get_time_ms_def case_prod_beta)

lemma sim_frame_fits: "8 \<le> length data \<Longrightarrow> length data \<le> 64 \<Longrightarrow> frame_fits sim_config data"
  by (auto simp: frame_fits_def sim_fields)

text \<open>A turn of the loop from a reachable machine: it returns, and its steps are steps of the bus.\<close>

lemma ok_sim_turn:
  assumes r: "bus_reach sim_config no_callbacks (sim_machine fd w m) s"
    and pkt: "\<forall>i data. pkt = Some (i, data) \<longrightarrow> 8 \<le> length data \<and> length data \<le> 64"
  shows "ok (sim_turn pkt (0, s)) (\<lambda>st. fst st = 0 \<and> bus_reach sim_config no_callbacks (sim_machine fd w m) (snd st))"
proof -
  let ?R = "bus_reach sim_config no_callbacks (sim_machine fd w m)"
  define s1 where "s1 = s\<lparr>app := (app s)\<lparr>bus := bus (snd (sim_get_time_ms (app s)))\<rparr>\<rparr>"
  define now where "now = fst (sim_get_time_ms (app s))"
  have t: "time_now sim_config s = Some (now, s1)" by (simp add: sim_time s1_def now_def)
  have r1: "?R s1" unfolding s1_def by (rule bus_reach.step [OF r bus_step.world])
  obtain s2 where p: "uds_process sim_config s1 = Some s2"
    using ok_linked_process [OF sim_linked sim_bus_inv [OF r1]] by (auto simp: ok_iff)
  have r2: "?R s2" by (rule bus_reach.step [OF r1 bus_step.timers [OF p]])
  obtain g where g: "uds_tp_isotp_process now (app s2) = Some g"
    using ok_linked_tick [OF sim_bus_inv [OF r2]] by (auto simp: ok_iff)
  have r3: "?R (s2\<lparr>app := g\<rparr>)" by (rule bus_reach.step [OF r2 bus_step.tick [OF g]])
  have slow: "slow_operation now 0 (s2\<lparr>app := g\<rparr>) = Some (0, s2\<lparr>app := g\<rparr>)"
    using sim_settled [OF r3] by (simp add: slow_operation_def)
  have frame: "ok (uds_isotp_rx_callback sim_config no_callbacks i data (s2\<lparr>app := g\<rparr>)) ?R"
    if "pkt = Some (i, data)" for i data
  proof -
    have f: "frame_fits sim_config data" using pkt that by (simp add: sim_frame_fits)
    then show ?thesis
      using ok_rx_callback [OF sim_linked sim_bus_inv [OF r3] f] bus_reach.step [OF r3 bus_step.frame [OF f]]
      by (fastforce simp: ok_iff)
  qed
  show ?thesis
    using frame r3 by (cases pkt) (auto simp: sim_turn_def t p g slow ok_iff case_prod_beta)
qed

lemma sim_reach_bus:
  "sim_reach fd w m st \<Longrightarrow> fst st = 0 \<and> bus_reach sim_config no_callbacks (sim_machine fd w m) (snd st)"
proof (induction rule: sim_reach.induct)
  case (boot r s)
  then have "sim_boot fd w m = Some (UDS_OK, s)" using sim_boot_ok [of fd w m] by auto
  then show ?case by (simp add: sim_boot_def bus_reach.boot)
next
  case (turn st pkt st')
  then show ?case using okD [OF ok_sim_turn] by (metis prod.collapse)
qed

section \<open>Properties\<close>


definition sim_world :: sim where
  "sim_world = \<lparr>mock_memory = replicate 1024 0, clock = (\<lambda>n. (n, 0)), reads = 0, packets = [], console = [], wild = False\<rparr>"


text \<open>
  C30: the memory of the simulator. An access inside its 1024 bytes reads or writes exactly those
  bytes, and what was written is read back; one outside is refused without effect, unless
  address and size add up to more than 32 bits: when the wrapped sum is in range the access
  is made, outside the memory.
\<close>

theorem simulator_memory:
  assumes "length (mock_memory (bus g)) = 1024" "length data = unat sz" "0 < sz"
  shows "if unat addr + unat sz \<le> 1024 then
      \<exists>g'. sim_fn_mem_write c g addr sz data = (0, g') \<and> g' = g\<lparr>bus := (bus g)\<lparr>mock_memory := mock_memory (bus g')\<rparr>\<rparr>
        \<and> sim_fn_mem_read c g' addr sz = ((0, data), g')
        \<and> (\<forall>i < 1024. i < unat addr \<or> unat addr + unat sz \<le> i \<longrightarrow> mock_memory (bus g') ! i = mock_memory (bus g) ! i)
    else if unat addr + unat sz < 2 ^ 32 \<or> 2 ^ 32 + 1024 < unat addr + unat sz then
      sim_fn_mem_write c g addr sz data = (-0x31, g) \<and> sim_fn_mem_read c g addr sz = ((-0x31, []), g)
    else wild (bus (snd (sim_fn_mem_write c g addr sz data))) \<and> wild (bus (snd (sim_fn_mem_read c g addr sz)))"
proof -
  have sum: "unat (addr + sz) = (unat addr + unat sz) mod 2 ^ 32" by (simp add: unat_word_ariths)
  have u: "unat addr < 2 ^ 32" "unat sz < 2 ^ 32" "0 < unat sz"
    using assms(3) unsigned_less [of addr] unsigned_less [of sz] by (simp_all add: word_less_nat_alt)
  have le: "(1024 < addr + sz) = (1024 < (unat addr + unat sz) mod 2 ^ 32)" using sum by (simp add: word_less_nat_alt)
  have wrap: "(unat addr + unat sz) mod 2 ^ 32 = unat addr + unat sz - 2 ^ 32" if "2 ^ 32 \<le> unat addr + unat sz"
  proof -
    have "unat addr + unat sz - 2 ^ 32 < 2 ^ 32" using u that by linarith
    from le_mod_geq [OF that] mod_less [OF this] show ?thesis by (rule trans)
  qed
  let ?m = "mock_memory (bus g)"
  consider "unat addr + unat sz \<le> 1024" | "1024 < unat addr + unat sz" "unat addr + unat sz < 2 ^ 32"
    | "2 ^ 32 + 1024 < unat addr + unat sz" | "2 ^ 32 \<le> unat addr + unat sz" "unat addr + unat sz \<le> 2 ^ 32 + 1024"
    by linarith
  then show ?thesis
  proof cases
    case 1
    then have "\<not> 1024 < addr + sz" using le by simp
    then show ?thesis using 1 assms
      by (auto simp: sim_fn_mem_write_def sim_fn_mem_read_def bytes_at_def blit_Some nth_append)
  next
    case 2
    then have "1024 < addr + sz" using le by simp
    then show ?thesis using 2 by (simp add: sim_fn_mem_write_def sim_fn_mem_read_def)
  next
    case 3
    then have "1024 < addr + sz" using le wrap by simp
    then show ?thesis using 3 by (simp add: sim_fn_mem_write_def sim_fn_mem_read_def)
  next
    case 4
    then have "\<not> 1024 < addr + sz" using le wrap by simp
    moreover have "bytes_at data 0 (unat sz) = Some data" using assms(2) by (simp add: bytes_at_def)
    moreover have "blit (unat addr) data ?m = None" "bytes_at ?m (unat addr) (unat sz) = None"
      using 4 assms(1,2) u by (auto simp: bytes_at_def blit_def)
    ultimately have "wild (bus (snd (sim_fn_mem_write c g addr sz data)))" "wild (bus (snd (sim_fn_mem_read c g addr sz)))"
      by (simp_all add: sim_fn_mem_write_def sim_fn_mem_read_def)
    moreover have "\<not> unat addr + unat sz \<le> 1024" using 4 by simp
    ultimately show ?thesis using 4 by (simp del: of_nat_add)
  qed
qed

theorem simulator_memory_witness:
  "wild (bus (snd (sim_fn_mem_read (ctx_view (base_machine ())) (isotp_static sim_world) 0xFFFFFFFF 1)))
   \<and> (\<exists>g. sim_fn_mem_write (ctx_view (base_machine ())) (isotp_static sim_world) 1020 4 [1, 2, 3, 4] = (0, g)
        \<and> sim_fn_mem_read (ctx_view (base_machine ())) g 1020 4 = ((0, [1, 2, 3, 4]), g))"
  using simulator_memory [of "isotp_static sim_world" "[0]" 1 "0xFFFFFFFF" "ctx_view (base_machine ())"]
    simulator_memory [of "isotp_static sim_world" "[1, 2, 3, 4]" 4 1020 "ctx_view (base_machine ())"]
  by (auto simp: sim_world_def isotp_static_def)

end
