(* ===== verification/Uds_Client_Demo.thy ===== *)
theory Uds_Client_Demo
  imports Uds_Host_Sim
begin

text \<open>
  The client demo \<open>examples/client_demo/main.c\<close>: a tester built from the same library, which opens
  the extended session and reads the vehicle identification number. Here it talks to the host
  simulator, the other end of its virtual CAN bus.
\<close>

section \<open>The client\<close>

text \<open>Its world: a clock, the datagrams it has sent and what it has printed.\<close>

record client =
  cl_clock :: "nat \<Rightarrow> nat \<times> nat"
  cl_reads :: nat
  outbox :: "(u32 \<times> u8 list) list"
  screen :: "(string \<times> arg list) list"

type_synonym tester = "client isotp"

definition show_line :: "string \<Rightarrow> arg list \<Rightarrow> tester machine \<Rightarrow> tester machine" where
  "show_line fmt args s = with_iso (\<lambda>g. g\<lparr>bus := (bus g)\<lparr>screen := screen (bus g) @ [(fmt, args)]\<rparr>\<rparr>) s"

definition client_get_time_ms :: "tester \<Rightarrow> u32 \<times> tester" where
  "client_get_time_ms g = (let (sec, nsec) = cl_clock (bus g) (cl_reads (bus g)) in
     (of_nat (sec * 1000 + nsec div 1000000), g\<lparr>bus := (bus g)\<lparr>cl_reads := cl_reads (bus g) + 1\<rparr>\<rparr>))"

lift_definition client_can_send :: "client driver" is
  "\<lambda>w i data. (0, w\<lparr>outbox := outbox w @ [(i, data)]\<rparr>)" by simp

definition on_response :: "u8 \<Rightarrow> u8 list \<Rightarrow> tester machine \<Rightarrow> tester machine option" where
  "on_response sid data s = do {
     let s = show_line ''[CLIENT] Response Received: SID=%02X, Len=%d'' [Num (unat sid), Num (length data)] s;
     let s = show_line ''[CLIENT] Data: %02X...'' (map (Num \<circ> unat) data) s;
     let s = (if sid = 0x50 then show_line ''[CLIENT] Session changed OK'' [] s else s);
     let s = (if sid = 0x62 then show_line ''[CLIENT] Read Data OK'' [] s else s);
     Some s }"

text \<open>The program registers one callback, number 0.\<close>

definition client_callbacks :: "tester callbacks" where
  "client_callbacks i sid data s = on_response sid data s"

definition client_config :: "tester config" where
  "client_config = (base_config client_get_time_ms isotp_tp)\<lparr>ecu_address := 0, cfg_p2_ms := 0,
     cfg_p2_star_ms := 0, rx_buffer_size := 1024, tx_buffer_size := 1024, p2_server_max := 0,
     p2_star_server_max := 0\<rparr>"

text \<open>An array of 1024 bytes that \<open>main\<close> does not initialise: it holds what \<open>xs\<close> says, or anything.\<close>

definition local_array :: "u8 list \<Rightarrow> u8 list" where
  "local_array xs = take 1024 (xs @ replicate 1024 0)"

lemma length_local_array [simp]: "length (local_array xs) = 1024"
  by (simp add: local_array_def)

definition client_boot :: "bool \<Rightarrow> client \<Rightarrow> tester machine \<Rightarrow> (int \<times> tester machine) option" where
  "client_boot enable_fd w m = uds_init (Some client_config)
     (m\<lparr>ctx_null := False, tx_buf := local_array (tx_buf m), rx_buf := local_array (rx_buf m),
        did_store := (\<lambda>a. []), tr := [],
        app := uds_tp_isotp_set_fd enable_fd
          (uds_tp_isotp_init (Some client_can_send) 0x7E0 0x7E8 (isotp_static w))\<rparr>)"

text \<open>
  One turn of either waiting loop, \<open>False\<close> when its condition ends it; \<open>pkt\<close> is the datagram
  that is received in this turn.
\<close>

definition client_turn :: "u32 \<Rightarrow> (u32 \<times> u8 list) option \<Rightarrow> tester machine \<Rightarrow> (bool \<times> tester machine) option" where
  "client_turn start pkt s = do {
     (t, s) \<leftarrow> time_now client_config s;
     if \<not> t - start < 1000 then Some (False, s)
     else do {
       s \<leftarrow> uds_process client_config s;
       (t, s) \<leftarrow> time_now client_config s;
       g \<leftarrow> uds_tp_isotp_process t (app s);
       let s = s\<lparr>app := g\<rparr>;
       s \<leftarrow> (case pkt of None \<Rightarrow> Some s
         | Some (i, data) \<Rightarrow> uds_isotp_rx_callback client_config client_callbacks i data s);
       Some (True, s) } }"

fun client_wait :: "u32 \<Rightarrow> (u32 \<times> u8 list) option list \<Rightarrow> tester machine \<Rightarrow> (bool \<times> tester machine) option" where
  "client_wait start [] s = Some (True, s)"
| "client_wait start (p # ps) s = do {
     (waiting, s) \<leftarrow> client_turn start p s;
     if waiting then client_wait start ps s else Some (False, s) }"

text \<open>
  The two requests, each followed by reading the start of its loop. The result of
  \<open>uds_client_request\<close> is ignored, as in the code.
\<close>

definition client_ask_session :: "tester machine \<Rightarrow> (u32 \<times> tester machine) option" where
  "client_ask_session s = do {
     let s = show_line ''[CLIENT] Sending DiagnosticSessionControl (Extended)...'' [] s;
     (r, s) \<leftarrow> uds_client_request client_config 0x10 (Some [0x03]) 1 (Some 0) s;
     time_now client_config s }"

definition client_ask_vin :: "tester machine \<Rightarrow> (u32 \<times> tester machine) option" where
  "client_ask_vin s = do {
     let s = show_line ''[CLIENT] Sending ReadDataByIdentifier (VIN)...'' [] s;
     (r, s) \<leftarrow> uds_client_request client_config 0x22 (Some [0xF1, 0x90]) 2 (Some 0) s;
     time_now client_config s }"

section \<open>What the simulator answers\<close>

lemma isotp_tp_single:
  assumes "length d \<le> sf_room (fd_mode g)"
  shows "isotp_tp c g d = uds_internal_tp_send_frame (sf_frame d) g"
proof -
  have "length d \<le> 62" using assms by (simp add: sf_room_def split: if_splits)
  then show ?thesis using assms
    by (simp add: isotp_tp_def uds_isotp_send_def send_sf_eq sf_room_def)
qed

text \<open>A simulator that has booted and is doing nothing.\<close>

definition sim_idle :: "bool \<Rightarrow> ecu machine \<Rightarrow> bool" where
  "sim_idle fd s \<longleftrightarrow> wfm sim_config s \<and> \<not> p2_msg_pending s \<and> pending_sid s = 0 \<and> periodic_count s = 0
     \<and> \<not> suppress_pos_resp s \<and> did_store s = sim_storage
     \<and> can_send (app s) = Some mock_can_send \<and> tx_id (app s) = 0x7E8 \<and> rx_id (app s) = 0x7E0
     \<and> fd_mode (app s) = fd \<and> iso_state (app s) = ISOTP_IDLE"

definition sim_answers :: "bool \<Rightarrow> u8 list \<Rightarrow> u8 list \<Rightarrow> bool" where
  "sim_answers fd d r \<longleftrightarrow> (\<forall>s. sim_idle fd s \<longrightarrow>
     (\<exists>s'. uds_input_sdu sim_config no_callbacks (Some d) s = Some s' \<and> sim_idle fd s'
        \<and> packets (bus (app s')) = packets (bus (app s)) @ [(0x7E8, sf_frame r)]))"

lemma sim_no_locks [simp]: "mutex_lock sim_config s = s" "mutex_unlock sim_config s = s"
  by (simp_all add: mutex_lock_def mutex_unlock_def sim_config_def)

lemma sim_find: "find_service sim_config 0x10 =
    Some (core_service 0x10 2 (uds_internal_handle_session_control sim_config) (Some UDS_MASK_SUB_10))"
  "find_service sim_config 0x22 =
    Some (core_service 0x22 3 (uds_internal_handle_read_data_by_id sim_config) None)"
  by (simp_all add: find_service_def sim_fields core_services_def core_service_def)

lemma sim_put_fields:
  assumes "can_send g = Some mock_can_send"
  shows "fst (uds_internal_tp_send_frame f g) = 0"
    "packets (bus (snd (uds_internal_tp_send_frame f g))) = packets (bus g) @ [(tx_id g, f)]"
    "can_send (snd (uds_internal_tp_send_frame f g)) = Some mock_can_send"
  using assms by (simp_all add: uds_internal_tp_send_frame_def mock_can_send.rep_eq Let_def printf_def case_prod_beta)

lemma sim_sends:
  assumes "take n (tx_buf s) = r" "n \<le> length (tx_buf s)" "length r \<le> sf_room (fd_mode (app s))"
  shows "tp_send sim_config n s = Some (fst (uds_internal_tp_send_frame (sf_frame r) (app s)),
    emit (ESend r) (s\<lparr>app := snd (uds_internal_tp_send_frame (sf_frame r) (app s))\<rparr>))"
  using assms by (simp add: tp_send_def sim_fields isotp_tp_single Let_def)

lemma six_bytes: "6 \<le> length xs \<Longrightarrow> \<exists>a b c d e f ys. xs = a # b # c # d # e # f # ys"
  by (auto simp: numeral_eq_Suc Suc_le_length_iff)

lemma sim_idle_world [simp]:
  "sim_idle fd (s\<lparr>app := (app s)\<lparr>bus := w\<rparr>\<rparr>) = sim_idle fd s"
  by (simp add: sim_idle_def)

lemma sim_time_packets [simp]: "packets (bus (snd (sim_get_time_ms g))) = packets (bus g)"
  by (simp add: sim_get_time_ms_def case_prod_beta)

lemma sim_idle_timers [simp]:
  "sim_idle fd (s\<lparr>last_msg_time := a\<rparr>) = sim_idle fd s" "sim_idle fd (s\<lparr>p2_timer_start := b\<rparr>) = sim_idle fd s"
  "sim_idle fd (s\<lparr>p2_star_active := c\<rparr>) = sim_idle fd s" "sim_idle fd (s\<lparr>rcrrp_count := e\<rparr>) = sim_idle fd s"
  by (simp_all add: sim_idle_def)

lemma sim_input:
  assumes "sim_idle fd s" "d \<noteq> []"
  shows "\<exists>t. uds_input_sdu sim_config no_callbacks (Some d) s = handle_request sim_config d t \<and> sim_idle fd t
     \<and> packets (bus (app t)) = packets (bus (app s))"
proof -
  let ?a = "(app s)\<lparr>bus := bus (snd (sim_get_time_ms (app s)))\<rparr>"
  let ?t = "s\<lparr>last_msg_time := fst (sim_get_time_ms (app s)), app := ?a\<lparr>bus := bus (snd (sim_get_time_ms ?a))\<rparr>,
    p2_timer_start := fst (sim_get_time_ms ?a), p2_msg_pending := False, p2_star_active := False, rcrrp_count := 0\<rparr>"
  have s: "\<not> ctx_null s" "config_set s" "\<not> p2_msg_pending s" "pending_sid s = 0"
    using assms(1) wfm_basic [of sim_config s] by (simp_all add: sim_idle_def)
  have "sim_idle fd ?t" using assms(1) by (simp add: sim_idle_def)
  moreover have "uds_input_sdu sim_config no_callbacks (Some d) s = handle_request sim_config d ?t"
    using s assms(2) by (simp add: uds_input_sdu_def Let_def sim_time route_def dispatch_def)
  moreover have "packets (bus (app ?t)) = packets (bus (app s))" by simp
  ultimately show ?thesis by blast
qed

lemma sim_idle_tx: "length b = length (tx_buf s) \<Longrightarrow> sim_idle fd (s\<lparr>tx_buf := b\<rparr>) = sim_idle fd s"
  by (simp add: sim_idle_def wfm_def)

lemma sim_more_fields:
  "p2_server_max sim_config = 0" "p2_star_server_max sim_config = 0" "fn_is_safe sim_config = None"
  "fn_nvm_save sim_config = None" "fn_log sim_config = Some log_event" "log_level sim_config = 0"
  by (simp_all add: sim_config_def)

text \<open>A positive response from the transmit buffer puts one single frame on the bus.\<close>

lemma sim_responds:
  assumes i: "sim_idle fd s" and t: "take (unat n) (tx_buf s) = r" "unat n = length r" and l: "length r \<le> sf_room fd" "length r \<le> 1024"
  shows "\<exists>s'. uds_send_response sim_config n s = Some (0, s') \<and> sim_idle fd s'
     \<and> packets (bus (app s')) = packets (bus (app s)) @ [(0x7E8, sf_frame r)]"
proof -
  have f: "can_send (app s) = Some mock_can_send" "tx_id (app s) = 0x7E8" "fd_mode (app s) = fd" "\<not> suppress_pos_resp s"
    and w: "wfm sim_config s" using i by (simp_all add: sim_idle_def)
  note b = wfm_basic [OF w]
  have n: "\<not> 1024 < n" "length (tx_buf s) = 1024" using t l b by (simp_all add: word_less_nat_alt sim_fields)
  let ?s = "s\<lparr>p2_msg_pending := False, rcrrp_count := 0\<rparr>"
  have "tp_send sim_config (unat n) ?s = Some (fst (uds_internal_tp_send_frame (sf_frame r) (app ?s)),
      emit (ESend r) (?s\<lparr>app := snd (uds_internal_tp_send_frame (sf_frame r) (app ?s))\<rparr>))"
    by (rule sim_sends) (use t l n f in simp_all)
  then have "uds_send_response sim_config n s = Some (0, emit (ESend r) (?s\<lparr>app := snd (uds_internal_tp_send_frame (sf_frame r) (app s))\<rparr>))"
    using b n f by (simp add: uds_send_response_def sim_fields sim_put_fields)
  then show ?thesis using i f sim_put_fields [OF f(1)] by (simp add: sim_idle_def emit_def)
qed

lemma sim_session_supported:
  "sim_idle fd s \<Longrightarrow> svc_session_mask e = 0xFF \<Longrightarrow> is_session_supported s e"
  by (auto simp: sim_idle_def wfm_def is_session_supported_def get_session_bit_def)

lemma sim_answersI:
  assumes "d \<noteq> []" "find_service sim_config (d ! 0) = Some e" "svc_session_mask e = 0xFF" "svc_security_mask e = 0"
    "unat (svc_min_len e) \<le> length d"
    "svc_sub_mask e \<noteq> None \<Longrightarrow> 2 \<le> length d \<and> is_subfunction_supported e (d ! 1 AND 0x7F) = Some True \<and> d ! 1 AND 0x80 = 0"
    "\<And>s. sim_idle fd s \<Longrightarrow> \<exists>s'. svc_handler e d s = Some (0, s') \<and> sim_idle fd s'
        \<and> packets (bus (app s')) = packets (bus (app s)) @ [(0x7E8, sf_frame r)]"
  shows "sim_answers fd d r"
  unfolding sim_answers_def
proof (intro allI impI)
  fix s assume "sim_idle fd s"
  from sim_input [OF this assms(1)] obtain t where t: "uds_input_sdu sim_config no_callbacks (Some d) s = handle_request sim_config d t"
    "sim_idle fd t" "packets (bus (app t)) = packets (bus (app s))" by blast
  have q: "t\<lparr>suppress_pos_resp := False\<rparr> = t" using t(2) by (cases t) (simp add: sim_idle_def)
  obtain s' where h: "svc_handler e d t = Some (0, s')" "sim_idle fd s'"
    "packets (bus (app s')) = packets (bus (app t)) @ [(0x7E8, sf_frame r)]" using assms(7) [OF t(2)] by blast
  have c: "check_and_execute sim_config e (d ! 0) d t = Some s'"
    using h(1) assms(4,5) by (simp add: check_and_execute_def execute_handler_def sim_more_fields not_less)
  have b: "byte_at d 0 = Some (d ! 0)" using assms(1) by (simp add: byte_at_def)
  have "handle_request sim_config d t = Some s'"
  proof (cases "svc_sub_mask e = None")
    case True
    then show ?thesis by (simp add: handle_request_def b assms(2) sim_session_supported [OF t(2) assms(3)] c)
  next
    case False
    then have "2 \<le> length d" "is_subfunction_supported e (d ! 1 AND 0x7F) = Some True" "d ! 1 AND 0x80 = 0"
      using assms(6) by blast+
    moreover from this have "byte_at d 1 = Some (d ! 1)" by (simp add: byte_at_def)
    ultimately show ?thesis using False
      by (simp add: handle_request_def b assms(2) sim_session_supported [OF t(2) assms(3)] c q)
  qed
  with t h show "\<exists>s'. uds_input_sdu sim_config no_callbacks (Some d) s = Some s' \<and> sim_idle fd s'
        \<and> packets (bus (app s')) = packets (bus (app s)) @ [(0x7E8, sf_frame r)]" by simp
qed

lemma bytes: "hi8 50 = 0" "lo8 50 = 50" "hi8 500 = 1" "lo8 500 = 0xF4" "be16 0xF1 0x90 = 0xF190"
  "hi8 0xF190 = 0xF1" "lo8 0xF190 = 0x90"
  by code_simp+

lemma sim_answers_session: "sim_answers fd [0x10, 0x03] [0x50, 0x03, 0x00, 0x32, 0x01, 0xF4]"
proof (rule sim_answersI)
  show "\<exists>s'. svc_handler (core_service 0x10 2 (uds_internal_handle_session_control sim_config) (Some UDS_MASK_SUB_10)) [0x10, 0x03] s
      = Some (0, s') \<and> sim_idle fd s'
      \<and> packets (bus (app s')) = packets (bus (app s)) @ [(0x7E8, sf_frame [0x50, 0x03, 0x00, 0x32, 0x01, 0xF4])]"
    if i: "sim_idle fd s" for s
  proof -
    define t where "t = (if active_session s \<noteq> 3 then s\<lparr>security_level := 0\<rparr> else s)\<lparr>active_session := 3\<rparr>"
    have it: "sim_idle fd t" "app t = app s"
      using i by (auto simp: t_def sim_idle_def wfm_def)
    then obtain b0 b1 b2 b3 b4 b5 bs where b: "tx_buf t = b0 # b1 # b2 # b3 # b4 # b5 # bs" and l: "length bs = 1018"
      using six_bytes [of "tx_buf t"] by (auto simp: sim_idle_def wfm_def sim_fields)
    let ?t = "t\<lparr>tx_buf := 0x50 # 0x03 # 0x00 # 0x32 # 0x01 # 0xF4 # bs\<rparr>"
    have "sim_idle fd ?t" using it b l by (simp add: sim_idle_tx)
    from sim_responds [OF this, of 6 "[0x50, 0x03, 0x00, 0x32, 0x01, 0xF4]"]
    obtain s' where s': "uds_send_response sim_config 6 ?t = Some (0, s')" "sim_idle fd s'"
      "packets (bus (app s')) = packets (bus (app s)) @ [(0x7E8, sf_frame [0x50, 0x03, 0x00, 0x32, 0x01, 0xF4])]"
      using it by (cases fd) (auto simp: sf_room_def)
    have "tx_buf s = tx_buf t" by (simp add: t_def)
    then have "uds_internal_handle_session_control sim_config [0x10, 0x03] s = Some (0, s')"
      using s'(1) b
      by (simp add: uds_internal_handle_session_control_def byte_at_def Let_def tx_write_def sim_more_fields
          save_state_def bytes flip: t_def)
    with s' show ?thesis by (simp add: core_service_def)
  qed
qed (simp_all add: sim_find core_service_def is_subfunction_supported_def UDS_MASK_SUB_10_def mask16_def byte_at_def)

lemma sim_vin: "take 14 (sim_storage 0) = ascii ''UDSLIB_SIM_001''"
  by (simp add: sim_storage_def ascii_def)

lemma sim_answers_vin: "sim_answers True [0x22, 0xF1, 0x90] ([0x62, 0xF1, 0x90] @ ascii ''UDSLIB_SIM_001'')"
proof (rule sim_answersI)
  show "\<exists>s'. svc_handler (core_service 0x22 3 (uds_internal_handle_read_data_by_id sim_config) None) [0x22, 0xF1, 0x90] s
      = Some (0, s') \<and> sim_idle True s'
      \<and> packets (bus (app s')) = packets (bus (app s)) @ [(0x7E8, sf_frame ([0x62, 0xF1, 0x90] @ ascii ''UDSLIB_SIM_001''))]"
    if i: "sim_idle True s" for s
  proof -
    have d: "did_store s 0 = sim_storage 0" using i by (simp add: sim_idle_def)
    obtain b0 b1 b2 bs where b: "tx_buf s = b0 # b1 # b2 # bs" and l: "length bs = 1021"
      using i six_bytes [of "tx_buf s"] by (auto simp: sim_idle_def wfm_def sim_fields)
    let ?bs = "0x62 # 0xF1 # 0x90 # ascii ''UDSLIB_SIM_001'' @ drop 14 bs"
    have v: "length (ascii ''UDSLIB_SIM_001'') = 14" by (simp add: ascii_def)
    have c: "\<not> ctx_null s" "config_set s" using i wfm_basic [of sim_config s] by (simp_all add: sim_idle_def)
    have st: "bytes_at (sim_storage 0) 0 14 = Some (ascii ''UDSLIB_SIM_001'')"
      by (simp add: bytes_at_def sim_storage_def ascii_def)
    have fill: "blit (Suc (Suc (Suc 0))) (ascii ''UDSLIB_SIM_001'') (b0 # 0xF1 # 0x90 # bs) = Some (b0 # 0xF1 # 0x90 # ascii ''UDSLIB_SIM_001'' @ drop 14 bs)"
      using l v by (subst blit_Some) (simp_all add: numeral_eq_Suc)
    have loop: "rdbi_loop sim_config [0xF1, 0x90] (Suc 0) s =
        Some (RdbiDone 17 (s\<lparr>tx_buf := b0 # 0xF1 # 0x90 # ascii ''UDSLIB_SIM_001'' @ drop 14 bs\<rparr>))"
      using c d b l st fill
      by (simp add: Let_def bytes uds_internal_find_did_def sim_fields g_ecu_dids_def did_session_denied_def
          did_security_denied_def tx_write_def tx_fill_def)
    have "sim_idle True (s\<lparr>tx_buf := ?bs\<rparr>)" using i b l v by (simp add: sim_idle_tx)
    moreover have "take 17 ?bs = [0x62, 0xF1, 0x90] @ ascii ''UDSLIB_SIM_001''" using v by (simp add: numeral_eq_Suc)
    ultimately obtain s' where s': "uds_send_response sim_config 17 (s\<lparr>tx_buf := ?bs\<rparr>) = Some (0, s')" "sim_idle True s'"
      "packets (bus (app s')) = packets (bus (app s)) @ [(0x7E8, sf_frame ([0x62, 0xF1, 0x90] @ ascii ''UDSLIB_SIM_001''))]"
      using sim_responds [of True "s\<lparr>tx_buf := ?bs\<rparr>" 17] v by (auto simp: sf_room_def)
    have "uds_internal_handle_read_data_by_id sim_config [0x22, 0xF1, 0x90] s = Some (0, s')"
      using s'(1) by (simp add: uds_internal_handle_read_data_by_id_def loop tx_write_def del: rdbi_loop.simps)
    with s' show ?thesis by (simp add: core_service_def)
  qed
qed (simp_all add: sim_find core_service_def)

text \<open>A turn of the simulator's loop on the single frame of such a request.\<close>

lemma sim_idle_process:
  assumes "sim_idle fd s"
  shows "\<exists>s'. uds_process sim_config s = Some s' \<and> sim_idle fd s' \<and> packets (bus (app s')) = packets (bus (app s))"
proof -
  let ?t = "s\<lparr>app := (app s)\<lparr>bus := bus (snd (sim_get_time_ms (app s)))\<rparr>\<rparr>"
  have s: "\<not> ctx_null s" "config_set s" using assms wfm_basic [of sim_config s] by (simp_all add: sim_idle_def)
  have t: "sim_idle fd (s3_tick sim_config n ?t)" "app (s3_tick sim_config n ?t) = app ?t" for n
    using assms by (auto simp: s3_tick_def sim_idle_def wfm_def uds_internal_log_def sim_more_fields)
  have "p2_tick sim_config n u = Some (False, u)" "periodic_scheduler sim_config n u = Some u" if "sim_idle fd u" for n u
    using that by (simp_all add: sim_idle_def p2_tick_def periodic_scheduler_def)
  then show ?thesis using s t by (simp add: uds_process_def Let_def sim_time)
qed

lemma sf_frame_length: "length d \<le> 62 \<Longrightarrow> 8 \<le> length (sf_frame d) \<and> length (sf_frame d) \<le> 64"
  using can_dl_bounds [of "length d + 2"] by (auto simp: sf_frame_def padded_length)

lemma sim_turn_answers:
  assumes "sim_idle fd s" "sim_answers fd d r" "d \<noteq> []" "length d \<le> 62"
  shows "\<exists>s'. sim_turn (Some (0x7E0, sf_frame d)) (0, s) = Some (0, s') \<and> sim_idle fd s'
    \<and> packets (bus (app s')) = packets (bus (app s)) @ [(0x7E8, sf_frame r)]"
proof -
  let ?s = "s\<lparr>app := (app s)\<lparr>bus := bus (snd (sim_get_time_ms (app s)))\<rparr>\<rparr>"
  have "sim_idle fd ?s" using assms(1) by simp
  from sim_idle_process [OF this] obtain t where t: "uds_process sim_config ?s = Some t" "sim_idle fd t"
    "packets (bus (app t)) = packets (bus (app s))" by auto
  have i: "iso_state (app t) = ISOTP_IDLE" "rx_id (app t) = 0x7E0" "\<not> p2_msg_pending t" using t(2) by (simp_all add: sim_idle_def)
  have "with_iso (\<lambda>g. g\<lparr>iso_state := ISOTP_IDLE\<rparr>) t = t" using i(1) by (simp add: with_iso_def)
  then have rx: "uds_isotp_rx_callback sim_config no_callbacks 0x7E0 (sf_frame d) t = uds_input_sdu sim_config no_callbacks (Some d) t"
    using rx_sf_frame [of d "0x7E0" t sim_config no_callbacks] assms(3,4) i by simp
  obtain s' where "uds_input_sdu sim_config no_callbacks (Some d) t = Some s'" "sim_idle fd s'"
    "packets (bus (app s')) = packets (bus (app t)) @ [(0x7E8, sf_frame r)]"
    using assms(2) t(2) by (auto simp: sim_answers_def)
  then show ?thesis using t i rx by (simp add: sim_turn_def sim_time uds_tp_isotp_process_def slow_operation_def)
qed

section \<open>What the client does with it\<close>

text \<open>A client that is waiting for the response to its request \<open>sid\<close>, or for nothing (0).\<close>

definition client_waits :: "bool \<Rightarrow> u8 \<Rightarrow> tester machine \<Rightarrow> bool" where
  "client_waits fd sid s \<longleftrightarrow> wfm client_config s \<and> \<not> p2_msg_pending s \<and> pending_sid s = sid \<and> periodic_count s = 0
     \<and> active_session s = 1 \<and> (sid \<noteq> 0 \<longrightarrow> client_cb s = Some 0)
     \<and> can_send (app s) = Some client_can_send \<and> tx_id (app s) = 0x7E0 \<and> rx_id (app s) = 0x7E8
     \<and> fd_mode (app s) = fd \<and> iso_state (app s) = ISOTP_IDLE"

lemma client_fields:
  "get_time_ms client_config = Some client_get_time_ms" "fn_tp_send client_config = Some isotp_tp"
  "rx_buffer client_config" "tx_buffer client_config" "tx_buffer_size client_config = 1024"
  "rx_buffer_size client_config = 1024" "fn_mutex_lock client_config = None" "fn_mutex_unlock client_config = None"
  "fn_log client_config = None" "did_table client_config = []" "strict_compliance client_config = False"
  "fn_nvm_load client_config = None" "fn_periodic_read client_config = None" "user_services client_config = []"
  "fn_is_safe client_config = None"
  by (simp_all add: client_config_def base_config_def)

lemma client_no_locks [simp]: "mutex_lock client_config s = s" "mutex_unlock client_config s = s"
  by (simp_all add: mutex_lock_def mutex_unlock_def client_fields)

lemma client_log [simp]: "uds_internal_log client_config l m s = s"
  by (simp add: uds_internal_log_def client_fields)

lemma client_time: "time_now client_config s = Some (fst (client_get_time_ms (app s)),
    s\<lparr>app := (app s)\<lparr>bus := bus (snd (client_get_time_ms (app s)))\<rparr>\<rparr>)"
  by (simp add: time_now_def client_fields client_get_time_ms_def case_prod_beta)

lemma client_time_fields [simp]:
  "outbox (bus (snd (client_get_time_ms g))) = outbox (bus g)" "screen (bus (snd (client_get_time_ms g))) = screen (bus g)"
  "cl_clock (bus (snd (client_get_time_ms g))) = cl_clock (bus g)"
  by (simp_all add: client_get_time_ms_def case_prod_beta)

lemma client_waits_world [simp]: "client_waits fd sid (s\<lparr>app := (app s)\<lparr>bus := w\<rparr>\<rparr>) = client_waits fd sid s"
  by (simp add: client_waits_def)

lemma client_process:
  assumes "client_waits fd sid s"
  shows "uds_process client_config s = Some (s\<lparr>app := (app s)\<lparr>bus := bus (snd (client_get_time_ms (app s)))\<rparr>\<rparr>)"
  using assms wfm_basic [of client_config s]
  by (simp add: client_waits_def uds_process_def client_time s3_tick_def p2_tick_def periodic_scheduler_def)

text \<open>Sending: one single frame, and the client waits.\<close>

lemma client_asks:
  assumes "client_waits fd 0 s" "length d = unat len" "length d \<le> 6" "sid \<noteq> 0"
  shows "\<exists>s'. uds_client_request client_config sid (Some d) len (Some 0) s = Some (0, s') \<and> client_waits fd sid s'
    \<and> outbox (bus (app s')) = outbox (bus (app s)) @ [(0x7E0, sf_frame (sid # d))]
    \<and> screen (bus (app s')) = screen (bus (app s)) \<and> cl_clock (bus (app s')) = cl_clock (bus (app s))"
proof -
  have i: "\<not> ctx_null s" "config_set s" "length (tx_buf s) = 1024" "can_send (app s) = Some client_can_send"
    "fd_mode (app s) = fd" "tx_id (app s) = 0x7E0"
    using assms(1) wfm_basic [of client_config s] by (simp_all add: client_waits_def client_fields)
  obtain b0 bs where t: "tx_buf s = b0 # bs" and l: "length bs = 1023" using i(3) by (cases "tx_buf s") auto
  let ?s = "s\<lparr>pending_sid := sid, client_cb := Some 0, tx_buf := sid # d @ drop (length d) bs\<rparr>"
  have tk: "take (Suc (length d)) (tx_buf ?s) = sid # d" by simp
  have "length (sid # d) \<le> sf_room fd" using assms(3) by (simp add: sf_room_def)
  then have tp: "isotp_tp c (app s) (sid # d) = (0, (app s)\<lparr>bus := (bus (app s))\<lparr>outbox := outbox (bus (app s)) @ [(0x7E0, sf_frame (sid # d))]\<rparr>,
      frames := frames (app s) @ [(0x7E0, sf_frame (sid # d))]\<rparr>)" for c
    using i by (simp add: isotp_tp_single uds_internal_tp_send_frame_def client_can_send.rep_eq)
  have fill: "(if len > 0 then do { bs' \<leftarrow> bytes_at d 0 (unat len); tx_fill 1 bs' (s\<lparr>pending_sid := sid, client_cb := Some 0, tx_buf := sid # bs\<rparr>) }
      else Some (s\<lparr>pending_sid := sid, client_cb := Some 0, tx_buf := sid # bs\<rparr>)) = Some ?s"
  proof (cases "len > 0")
    case True
    then have "bytes_at d 0 (unat len) = Some d" "blit 1 d (sid # bs) = Some (sid # d @ drop (length d) bs)"
      using assms(2,3) l by (simp_all add: bytes_at_def blit_Some)
    then show ?thesis using True by (simp add: tx_fill_def)
  next
    case False
    then have "d = []" using assms(2) by (simp add: word_gt_0)
    then show ?thesis using False by simp
  qed
  define e where "e = emit (ESend (sid # d)) (?s\<lparr>app := (app s)\<lparr>bus := (bus (app s))\<lparr>outbox := outbox (bus (app s)) @ [(0x7E0, sf_frame (sid # d))]\<rparr>,
      frames := frames (app s) @ [(0x7E0, sf_frame (sid # d))]\<rparr>\<rparr>)"
  have "tp_send client_config (unat len + 1) ?s = Some (0, e)"
    using assms(2,3) l tp by (simp add: tp_send_def client_fields Let_def e_def flip: assms(2))
  then have "uds_client_request client_config sid (Some d) len (Some 0) s = Some (0, e)"
    using i t fill assms(2,3) by (simp add: uds_client_request_def client_fields tx_write_def Let_def)
  moreover have "client_waits fd sid e" using assms t l by (simp add: client_waits_def e_def emit_def wfm_def client_fields)
  ultimately show ?thesis by (simp add: e_def emit_def)
qed

text \<open>Receiving: the lines that \<open>on_response\<close> prints, and the client waits for nothing.\<close>

definition shown :: "u8 \<Rightarrow> u8 list \<Rightarrow> (string \<times> arg list) list" where
  "shown sid data =
     [(''[CLIENT] Response Received: SID=%02X, Len=%d'', [Num (unat sid), Num (length data)]),
      (''[CLIENT] Data: %02X...'', map (Num \<circ> unat) data)]
     @ (if sid = 0x50 then [(''[CLIENT] Session changed OK'', [])] else [])
     @ (if sid = 0x62 then [(''[CLIENT] Read Data OK'', [])] else [])"

lemma on_response_shows:
  assumes "client_waits fd sid s"
  shows "\<exists>s'. on_response x data s = Some s' \<and> client_waits fd sid s'
    \<and> screen (bus (app s')) = screen (bus (app s)) @ shown x data \<and> outbox (bus (app s')) = outbox (bus (app s))
    \<and> cl_clock (bus (app s')) = cl_clock (bus (app s))"
  using assms by (simp add: on_response_def show_line_def with_iso_def shown_def Let_def client_waits_def)

lemma client_gets:
  assumes w: "client_waits fd sid s" and r: "length r \<le> 61" "sid \<noteq> 0" "x = sid OR 0x40"
    and t: "fst (client_get_time_ms (app s)) - start < 1000"
  shows "\<exists>s'. client_turn start (Some (0x7E8, sf_frame (x # r))) s = Some (True, s') \<and> client_waits fd 0 s'
    \<and> screen (bus (app s')) = screen (bus (app s)) @ shown x r \<and> outbox (bus (app s')) = outbox (bus (app s))
    \<and> cl_clock (bus (app s')) = cl_clock (bus (app s))"
proof -
  let ?tick = "\<lambda>s. s\<lparr>app := (app s)\<lparr>bus := bus (snd (client_get_time_ms (app s)))\<rparr>\<rparr> :: tester machine"
  define u where "u = ?tick (?tick (?tick s))"
  have wu: "client_waits fd sid u" using w by (simp add: u_def client_waits_def)
  have u: "screen (bus (app u)) = screen (bus (app s))" "outbox (bus (app u)) = outbox (bus (app s))"
    "cl_clock (bus (app u)) = cl_clock (bus (app s))" "iso_state (app u) = ISOTP_IDLE" "rx_id (app u) = 0x7E8"
    using w by (simp_all add: u_def client_waits_def)
  have p: "uds_process client_config (?tick s) = Some (?tick (?tick s))" by (rule client_process) (use w in simp)
  have "with_iso (\<lambda>g. g\<lparr>iso_state := ISOTP_IDLE\<rparr>) u = u" using u(4) by (simp add: with_iso_def)
  then have rx: "uds_isotp_rx_callback client_config client_callbacks 0x7E8 (sf_frame (x # r)) u =
      uds_input_sdu client_config client_callbacks (Some (x # r)) u"
    using rx_sf_frame [of "x # r" "0x7E8" u client_config client_callbacks] r(1) u(5) by simp
  let ?v = "(?tick u)\<lparr>last_msg_time := fst (client_get_time_ms (app u))\<rparr>"
  have "client_waits fd sid ?v" using wu by (simp add: client_waits_def)
  from on_response_shows [OF this, of x r] obtain v where v: "on_response x r ?v = Some v" "client_waits fd sid v"
    "screen (bus (app v)) = screen (bus (app u)) @ shown x r" "outbox (bus (app v)) = outbox (bus (app u))"
    "cl_clock (bus (app v)) = cl_clock (bus (app u))" by auto
  have b: "\<not> ctx_null u" "config_set u" "\<not> p2_msg_pending u" "pending_sid u = sid" "client_cb u = Some 0"
    using wu r(2) wfm_basic [of client_config u] by (simp_all add: client_waits_def)
  have "uds_input_sdu client_config client_callbacks (Some (x # r)) u = Some (v\<lparr>client_cb := None, pending_sid := 0\<rparr>)"
    using b r(2) v(1) by (simp add: uds_input_sdu_def client_time route_def is_response_for_def byte_at_def r(3)
        client_response_def client_callbacks_def)
  moreover have "client_waits fd 0 (v\<lparr>client_cb := None, pending_sid := 0\<rparr>)"
    using v(2) by (simp add: client_waits_def)
  moreover have "uds_tp_isotp_process n (app (?tick (?tick (?tick s)))) = Some (app (?tick (?tick (?tick s))))" for n
    using u(4) by (simp add: u_def uds_tp_isotp_process_def)
  ultimately show ?thesis
    using t p v u rx by (simp add: client_turn_def client_time u_def Let_def)
qed

section \<open>The two programs together\<close>

fun sim_run :: "(u32 \<times> u8 list) option list \<Rightarrow> u32 \<times> ecu machine \<Rightarrow> (u32 \<times> ecu machine) option" where
  "sim_run [] st = Some st"
| "sim_run (p # ps) st = do { st \<leftarrow> sim_turn p st; sim_run ps st }"

lemma sim_boot_idle:
  assumes "sim_boot fd w m = Some (r, q)"
  shows "sim_idle fd q \<and> packets (bus (app q)) = packets w"
proof -
  have m: "memory_ok sim_config (sim_machine fd w m)" using sim_platform by (simp add: platform_ok_def)
  have "q = reset_ctx sim_config (sim_machine fd w m)"
    using assms by (simp add: sim_boot_def uds_init_def sim_fields load_state_def uds_internal_log_def sim_more_fields
        Let_def sim_machine_def reset_ctx_fields split: if_splits)
  then show ?thesis
    using wfm_reset_ctx [OF m] by (simp add: sim_idle_def reset_ctx_def Let_def sim_machine_def uds_tp_isotp_set_fd_def
        uds_tp_isotp_init_def isotp_static_def)
qed

lemma client_boot_waits:
  assumes "client_boot fd w m = Some (r, s)"
  shows "client_waits fd 0 s \<and> outbox (bus (app s)) = outbox w \<and> screen (bus (app s)) = screen w
    \<and> cl_clock (bus (app s)) = cl_clock w"
proof -
  let ?m = "m\<lparr>ctx_null := False, tx_buf := local_array (tx_buf m), rx_buf := local_array (rx_buf m), did_store := (\<lambda>a. []), tr := [],
        app := uds_tp_isotp_set_fd fd (uds_tp_isotp_init (Some client_can_send) 0x7E0 0x7E8 (isotp_static w))\<rparr>"
  have m: "memory_ok client_config ?m" by (simp add: memory_ok_def client_fields)
  have "s = reset_ctx client_config ?m"
    using assms by (simp add: client_boot_def uds_init_def client_fields load_state_def Let_def)
  then show ?thesis
    using wfm_reset_ctx [OF m] by (simp add: client_waits_def reset_ctx_def Let_def uds_tp_isotp_set_fd_def
        uds_tp_isotp_init_def isotp_static_def)
qed

lemma sim_idle_turn:
  assumes "sim_idle fd s"
  shows "\<exists>s'. sim_turn None (0, s) = Some (0, s') \<and> sim_idle fd s' \<and> packets (bus (app s')) = packets (bus (app s))"
proof -
  let ?s = "s\<lparr>app := (app s)\<lparr>bus := bus (snd (sim_get_time_ms (app s)))\<rparr>\<rparr>"
  have "sim_idle fd ?s" using assms by simp
  from sim_idle_process [OF this] obtain t where t: "uds_process sim_config ?s = Some t" "sim_idle fd t"
    "packets (bus (app t)) = packets (bus (app s))" by auto
  have "iso_state (app t) = ISOTP_IDLE" "\<not> p2_msg_pending t" using t(2) by (simp_all add: sim_idle_def)
  with t show ?thesis by (simp add: sim_turn_def sim_time uds_tp_isotp_process_def slow_operation_def)
qed

lemma sim_run_idle:
  "sim_idle fd s \<Longrightarrow> \<exists>s'. sim_run (replicate n None @ ps) (0, s) = sim_run ps (0, s') \<and> sim_idle fd s'
     \<and> packets (bus (app s')) = packets (bus (app s))"
proof (induction n arbitrary: s)
  case (Suc n)
  from sim_idle_turn [OF Suc.prems] obtain t where t: "sim_turn None (0, s) = Some (0, t)" "sim_idle fd t"
    "packets (bus (app t)) = packets (bus (app s))" by blast
  with Suc.IH [OF t(2)] show ?case by auto
qed auto

lemma client_idle_turn:
  assumes "client_waits fd 0 s"
  shows "\<exists>b s'. client_turn start None s = Some (b, s') \<and> client_waits fd 0 s' \<and> outbox (bus (app s')) = outbox (bus (app s))
    \<and> screen (bus (app s')) = screen (bus (app s)) \<and> cl_clock (bus (app s')) = cl_clock (bus (app s))"
proof -
  let ?tick = "\<lambda>s. s\<lparr>app := (app s)\<lparr>bus := bus (snd (client_get_time_ms (app s)))\<rparr>\<rparr> :: tester machine"
  have p: "uds_process client_config (?tick s) = Some (?tick (?tick s))" by (rule client_process) (use assms in simp)
  have "iso_state (app s) = ISOTP_IDLE" using assms by (simp add: client_waits_def)
  with p assms show ?thesis by (cases "fst (client_get_time_ms (app s)) - start < 1000")
    (auto simp: client_turn_def client_time uds_tp_isotp_process_def)
qed

lemma client_wait_idle:
  "client_waits fd 0 s \<Longrightarrow> \<exists>b s'. client_wait start (replicate n None) s = Some (b, s') \<and> client_waits fd 0 s'
     \<and> outbox (bus (app s')) = outbox (bus (app s)) \<and> screen (bus (app s')) = screen (bus (app s))
     \<and> cl_clock (bus (app s')) = cl_clock (bus (app s))"
proof (induction n arbitrary: s)
  case (Suc n)
  from client_idle_turn [OF Suc.prems, of start] obtain b t where t: "client_turn start None s = Some (b, t)"
    "client_waits fd 0 t" "outbox (bus (app t)) = outbox (bus (app s))" "screen (bus (app t)) = screen (bus (app s))"
    "cl_clock (bus (app t)) = cl_clock (bus (app s))" by blast
  with Suc.IH [OF t(2)] show ?case by (cases b) auto
qed auto

definition client_ms :: "client \<Rightarrow> nat \<Rightarrow> u32" where
  "client_ms w n = (let (sec, nsec) = cl_clock w n in of_nat (sec * 1000 + nsec div 1000000))"

lemma client_reads_apart:
  assumes "\<forall>n. client_ms w (Suc n) - client_ms w n < 1000" "cl_clock (bus g) = cl_clock w"
  shows "fst (client_get_time_ms (g\<lparr>bus := bus (snd (client_get_time_ms g))\<rparr>)) - fst (client_get_time_ms g) < 1000"
  using assms(1) [rule_format, of "cl_reads (bus g)"] assms(2)
  by (simp add: client_get_time_ms_def client_ms_def case_prod_beta)

text \<open>One request of the client, served by the simulator after any number of idle turns.\<close>

lemma request_served:
  assumes c: "client_waits fd 0 s" and q: "sim_idle fd q" and a: "sim_answers fd (sid # d) (x # r)"
    and l: "length d = unat len" "length d \<le> 6" "length r \<le> 61" "sid \<noteq> 0" "x = sid OR 0x40"
    and ck: "\<forall>n. client_ms w (Suc n) - client_ms w n < 1000" "cl_clock (bus (app s)) = cl_clock w"
  shows "\<exists>start s1 f q1 g s2.
    do { (_, s) \<leftarrow> uds_client_request client_config sid (Some d) len (Some 0) s; time_now client_config s } = Some (start, s1)
    \<and> outbox (bus (app s1)) = outbox (bus (app s)) @ [f]
    \<and> sim_run (replicate n None @ [Some f]) (0, q) = Some (0, q1) \<and> sim_idle fd q1
    \<and> packets (bus (app q1)) = packets (bus (app q)) @ [g]
    \<and> client_turn start (Some g) s1 = Some (True, s2) \<and> client_waits fd 0 s2
    \<and> outbox (bus (app s2)) = outbox (bus (app s)) @ [f]
    \<and> screen (bus (app s2)) = screen (bus (app s)) @ shown x r \<and> cl_clock (bus (app s2)) = cl_clock w"
proof -
  obtain t where t: "uds_client_request client_config sid (Some d) len (Some 0) s = Some (0, t)" "client_waits fd sid t"
    "outbox (bus (app t)) = outbox (bus (app s)) @ [(0x7E0, sf_frame (sid # d))]"
    "screen (bus (app t)) = screen (bus (app s))" "cl_clock (bus (app t)) = cl_clock w"
    using client_asks [OF c l(1,2,4)] ck(2) by auto
  let ?s1 = "t\<lparr>app := (app t)\<lparr>bus := bus (snd (client_get_time_ms (app t)))\<rparr>\<rparr>"
  obtain q' where q': "sim_run (replicate n None @ [Some (0x7E0, sf_frame (sid # d))]) (0, q) =
      sim_run [Some (0x7E0, sf_frame (sid # d))] (0, q')" "sim_idle fd q'" "packets (bus (app q')) = packets (bus (app q))"
    using sim_run_idle [OF q] by blast
  obtain q1 where q1: "sim_turn (Some (0x7E0, sf_frame (sid # d))) (0, q') = Some (0, q1)" "sim_idle fd q1"
    "packets (bus (app q1)) = packets (bus (app q)) @ [(0x7E8, sf_frame (x # r))]"
    using sim_turn_answers [OF q'(2) a] q'(3) l(2) by auto
  have "client_waits fd sid ?s1" using t(2) by simp
  moreover have "fst (client_get_time_ms (app ?s1)) - fst (client_get_time_ms (app t)) < 1000"
    using client_reads_apart [OF ck(1) t(5)] by simp
  ultimately obtain s2 where "client_turn (fst (client_get_time_ms (app t))) (Some (0x7E8, sf_frame (x # r))) ?s1 = Some (True, s2)"
    "client_waits fd 0 s2" "screen (bus (app s2)) = screen (bus (app ?s1)) @ shown x r"
    "outbox (bus (app s2)) = outbox (bus (app ?s1))" "cl_clock (bus (app s2)) = cl_clock (bus (app ?s1))"
    using client_gets [OF _ l(3,4,5)] by blast
  with t q' q1 show ?thesis by (simp add: client_time)
qed

definition exchanged :: "(tester machine \<Rightarrow> (u32 \<times> tester machine) option) \<Rightarrow> (string \<times> arg list) list \<Rightarrow> nat
    \<Rightarrow> client \<Rightarrow> tester machine \<Rightarrow> ecu machine \<Rightarrow> bool" where
  "exchanged ask lines n w s q \<longleftrightarrow> (\<exists>start s1 f q1 g s2. ask s = Some (start, s1)
     \<and> outbox (bus (app s1)) = outbox (bus (app s)) @ [f]
     \<and> sim_run (replicate n None @ [Some f]) (0, q) = Some (0, q1) \<and> sim_idle True q1
     \<and> packets (bus (app q1)) = packets (bus (app q)) @ [g]
     \<and> client_turn start (Some g) s1 = Some (True, s2) \<and> client_waits True 0 s2
     \<and> outbox (bus (app s2)) = outbox (bus (app s)) @ [f]
     \<and> screen (bus (app s2)) = screen (bus (app s)) @ lines \<and> cl_clock (bus (app s2)) = cl_clock w)"

lemma show_line_fields [simp]:
  "client_waits fd sid (show_line l as s) = client_waits fd sid s"
  "screen (bus (app (show_line l as s))) = screen (bus (app s)) @ [(l, as)]"
  "outbox (bus (app (show_line l as s))) = outbox (bus (app s))"
  "cl_clock (bus (app (show_line l as s))) = cl_clock (bus (app s))"
  by (simp_all add: show_line_def with_iso_def client_waits_def)

lemma asks_exchanged:
  assumes ask: "\<And>s. ask s = do { (_, s) \<leftarrow> uds_client_request client_config sid (Some d) len (Some 0) (show_line l [] s);
       time_now client_config s }"
    and c: "client_waits True 0 s" "cl_clock (bus (app s)) = cl_clock w" and q: "sim_idle True q"
    and a: "sim_answers True (sid # d) (x # r)"
    and l: "length d = unat len" "length d \<le> 6" "length r \<le> 61" "sid \<noteq> 0" "x = sid OR 0x40"
    and ck: "\<forall>n. client_ms w (Suc n) - client_ms w n < 1000"
  shows "exchanged ask ((l, []) # shown x r) n w s q"
proof -
  have "client_waits True 0 (show_line l [] s)" "cl_clock (bus (app (show_line l [] s))) = cl_clock w" using c by simp_all
  from request_served [OF this(1) q a l ck this(2), of n] show ?thesis
    unfolding exchanged_def ask by simp
qed

section \<open>Properties\<close>


definition client_world :: client where
  "client_world = \<lparr>cl_clock = (\<lambda>n. (0, n * 1000000)), cl_reads = 0, outbox = [], screen = []\<rparr>"

lemma client_boot_ok: "\<exists>s. client_boot fd w m = Some (0, s)"
  by (simp add: client_boot_def uds_init_def client_fields load_state_def Let_def)


end
