(* ===== verification/Uds_Programs.thy ===== *)
theory Uds_Programs
  imports Uds_Client_Demo
begin

text \<open>
  How the two programs on the virtual bus start: \<open>main\<close> of \<open>examples/host_sim/main.c\<close> up to its loop
  and the whole \<open>main\<close> of \<open>examples/client_demo/main.c\<close>, with their command lines. Of the sockets, the
  result of \<open>bind\<close> is a parameter, and the datagrams received are the arguments of the loops.
\<close>

section \<open>Command lines\<close>

text \<open>
  \<open>atoi\<close> of the C library: white space, a sign, and digits up to the first other character. A value
  that is not an \<open>int\<close> is undefined behaviour.
\<close>

definition is_digit :: "char \<Rightarrow> bool" where
  "is_digit c \<longleftrightarrow> 48 \<le> (of_char c :: nat) \<and> (of_char c :: nat) \<le> 57"

definition is_space :: "char \<Rightarrow> bool" where
  "is_space c \<longleftrightarrow> (of_char c :: nat) = 32 \<or> 9 \<le> (of_char c :: nat) \<and> (of_char c :: nat) \<le> 13"

fun digits_value :: "nat \<Rightarrow> string \<Rightarrow> nat" where
  "digits_value n [] = n"
| "digits_value n (c # cs) = (if is_digit c then digits_value (10 * n + (of_char c - 48)) cs else n)"

definition signed_value :: "string \<Rightarrow> int" where
  "signed_value cs = (case cs of [] \<Rightarrow> 0
     | c # ds \<Rightarrow> if c = CHR ''-'' then - int (digits_value 0 ds)
         else if c = CHR ''+'' then int (digits_value 0 ds) else int (digits_value 0 cs))"

definition atoi :: "string \<Rightarrow> int option" where
  "atoi cs = (let v = signed_value (dropWhile is_space cs) in
     if - (2 ^ 31) \<le> v \<and> v < 2 ^ 31 then Some v else None)"

text \<open>Option \<open>i\<close> of a command line \<open>argv\<close>, which starts with the name of the program.\<close>

definition int_option :: "string list \<Rightarrow> nat \<Rightarrow> int \<Rightarrow> int option" where
  "int_option argv i d = (if length argv > i then atoi (argv ! i) else Some d)"

definition sim_options :: "string list \<Rightarrow> (int \<times> int) option" where
  "sim_options argv = do {
     port \<leftarrow> int_option argv 1 5000;
     enable_fd \<leftarrow> int_option argv 2 1;
     Some (port, enable_fd) }"

definition client_options :: "string list \<Rightarrow> (string \<times> int \<times> int) option" where
  "client_options argv = do {
     let target_ip = (if length argv > 1 then argv ! 1 else ''127.0.0.1'');
     port \<leftarrow> int_option argv 2 5000;
     enable_fd \<leftarrow> int_option argv 3 1;
     Some (target_ip, port, enable_fd) }"

section \<open>The programs\<close>

text \<open>
  The simulator up to its loop: \<open>Inl\<close> when \<open>main\<close> returns -1, with what it has printed, \<open>Inr\<close> when the
  loop begins. \<open>bind_socket\<close> is the result of \<open>bind\<close> for a port, which \<open>htons\<close> takes as 16 bits.
\<close>

definition sim_main :: "(u16 \<Rightarrow> int) \<Rightarrow> string list \<Rightarrow> sim \<Rightarrow> ecu machine \<Rightarrow> (sim + ecu machine) option" where
  "sim_main bind_socket argv w m = do {
     (port, enable_fd) \<leftarrow> sim_options argv;
     let w = printf ''Starting UDS ECU Simulator (ISO-TP over UDP:%d) [CAN-FD: %d]...'' [Dec port, Dec enable_fd] w;
     if bind_socket (word_of_int port) < 0 then Some (Inl (printf ''Bind failed'' [] w))
     else do {
       (r, s) \<leftarrow> sim_boot (enable_fd \<noteq> 0) w m;
       Some (Inr (s\<lparr>app := say ''Waiting for VCAN packets...'' [] (app s)\<rparr>)) } }"

text \<open>
  The client, with the datagrams of its two waiting loops: the result of \<open>main\<close>, which is \<open>None\<close> as
  long as one of the loops waits for more.
\<close>

definition client_main :: "string list \<Rightarrow> (u32 \<times> u8 list) option list \<Rightarrow> (u32 \<times> u8 list) option list
    \<Rightarrow> client \<Rightarrow> tester machine \<Rightarrow> (int option \<times> tester machine) option" where
  "client_main argv pkts1 pkts2 w m = do {
     (target_ip, port, enable_fd) \<leftarrow> client_options argv;
     let w = w\<lparr>screen := screen w @ [(''UDS Client starting (Target: %s:%d) [CAN-FD: %d]'', [Str target_ip, Dec port, Dec enable_fd])]\<rparr>;
     (r, s) \<leftarrow> client_boot (enable_fd \<noteq> 0) w m;
     (start, s) \<leftarrow> client_ask_session s;
     (waiting, s) \<leftarrow> client_wait start pkts1 s;
     if waiting then Some (None, s)
     else do {
       (start, s) \<leftarrow> client_ask_vin s;
       (waiting, s) \<leftarrow> client_wait start pkts2 s;
       Some (if waiting then None else Some 0, s) } }"

section \<open>What they do with their options\<close>

lemma sim_options_default: "length argv \<le> 1 \<Longrightarrow> sim_options argv = Some (5000, 1)"
  by (simp add: sim_options_def int_option_def)

lemma client_options_default: "length argv \<le> 1 \<Longrightarrow> client_options argv = Some (''127.0.0.1'', 5000, 1)"
  by (simp add: client_options_def int_option_def)

text \<open>
  The simulator starts or gives up, whatever its machine holds: with a free port its loop begins in
  the state of \<open>sim_boot\<close>, for CAN-FD unless the second option is 0; with the port taken it has not
  touched the stack.
\<close>

lemma sim_main_starts:
  assumes "sim_options argv = Some (port, fd)"
  shows "if bind_socket (word_of_int port) < 0
    then sim_main bind_socket argv w m = Some (Inl (w\<lparr>console := console w
        @ [(''Starting UDS ECU Simulator (ISO-TP over UDP:%d) [CAN-FD: %d]...'', [Dec port, Dec fd]), (''Bind failed'', [])]\<rparr>))
    else \<exists>w' s. sim_boot (fd \<noteq> 0) w' m = Some (UDS_OK, s) \<and> mock_memory w' = mock_memory w
      \<and> sim_main bind_socket argv w m = Some (Inr (s\<lparr>app := say ''Waiting for VCAN packets...'' [] (app s)\<rparr>))"
proof -
  define w' where "w' = printf ''Starting UDS ECU Simulator (ISO-TP over UDP:%d) [CAN-FD: %d]...'' [Dec port, Dec fd] w"
  obtain s where s: "sim_boot (fd \<noteq> 0) w' m = Some (UDS_OK, s)" using sim_boot_ok by blast
  have "mock_memory w' = mock_memory w" by (simp add: w'_def printf_def)
  then show ?thesis using s assms
    by (auto simp: sim_main_def w'_def [symmetric]) (simp add: w'_def printf_def)
qed

text \<open>The port is not checked: it is taken modulo 65536.\<close>

lemma sim_main_port:
  assumes "sim_options argv = Some (port, fd)" "sim_options argv' = Some (port', fd)" "port mod 65536 = port' mod 65536"
  shows "(\<exists>w1. sim_main b argv w m = Some (Inl w1)) = (\<exists>w2. sim_main b argv' w m = Some (Inl w2))"
proof -
  have "(word_of_int port :: u16) = word_of_int port'"
    using assms(3) by (simp add: word_of_int_eq_iff take_bit_eq_mod)
  moreover have "(\<exists>w1. sim_main b argv w m = Some (Inl w1)) = (b (word_of_int port) < 0)"
    if "sim_options argv = Some (port, fd)" for argv port
    using sim_main_starts [OF that, of b w m] by (auto split: if_splits)
  ultimately show ?thesis using assms(1,2) by simp
qed

lemma sim_main_port_example:
  "sim_options [''host_sim'', ''70000'', ''0''] = Some (70000, 0)" "sim_options [''host_sim'', '' 4464x''] = Some (4464, 1)"
  by (simp_all add: sim_options_def int_option_def atoi_def signed_value_def is_space_def is_digit_def)

end
