(* ===== verification/Uds_Rates.thy ===== *)
theory Uds_Rates
  imports Uds_Timing
begin

text \<open>
  The table of periodic identifiers as a map from identifiers to rates: the interface of a
  map of bounded size as a locale, its interpretation on the eight slots of the context, what
  ReadDataByPeriodicIdentifier does to that map, and when the scheduler reads an identifier.
\<close>

section \<open>Maps of bounded size\<close>

text \<open>
  A store that holds up to \<open>capacity\<close> keys: an insertion may find it full. The boolean that
  \<open>insert\<close> returns tells so.
\<close>

locale bounded_map =
  fixes capacity :: nat
    and key :: "'k \<Rightarrow> bool"
    and inv :: "'s \<Rightarrow> bool"
    and lookup :: "'s \<Rightarrow> 'k \<Rightarrow> 'v option"
    and insert :: "'k \<Rightarrow> 'v \<Rightarrow> 's \<Rightarrow> (bool \<times> 's) option"
    and delete :: "'k \<Rightarrow> 's \<Rightarrow> 's"
  assumes insert: "inv s \<Longrightarrow> key k \<Longrightarrow> ok (insert k v s) (\<lambda>(full, s'). inv s'
      \<and> full = (lookup s k = None \<and> capacity \<le> card (dom (lookup s)))
      \<and> lookup s' = (if full then lookup s else (lookup s)(k \<mapsto> v)))"
    and delete: "inv s \<Longrightarrow> key k \<Longrightarrow> inv (delete k s) \<and> lookup (delete k s) = (lookup s)(k := None)"

text \<open>Inserting keys until one does not fit.\<close>

fun fill :: "nat \<Rightarrow> 'v \<Rightarrow> 'k list \<Rightarrow> ('k \<rightharpoonup> 'v) \<Rightarrow> bool \<times> ('k \<rightharpoonup> 'v)" where
  "fill n v [] m = (False, m)"
| "fill n v (k # ks) m =
     (if m k = None \<and> n \<le> card (dom m) then (True, m) else fill n v ks (m(k \<mapsto> v)))"

context bounded_map
begin

fun inserts :: "'v \<Rightarrow> 'k list \<Rightarrow> 's \<Rightarrow> (bool \<times> 's) option" where
  "inserts v [] s = Some (False, s)"
| "inserts v (k # ks) s = do {
     (full, s) \<leftarrow> insert k v s;
     if full then Some (True, s) else inserts v ks s }"

lemma inserts_fill:
  "inv s \<Longrightarrow> (\<And>k. k \<in> set ks \<Longrightarrow> key k) \<Longrightarrow> ok (inserts v ks s)
    (\<lambda>(full, s'). inv s' \<and> (full, lookup s') = fill capacity v ks (lookup s))"
proof (induction ks arbitrary: s)
  case (Cons k ks)
  obtain full t where t: "insert k v s = Some (full, t)" "inv t"
    "full = (lookup s k = None \<and> capacity \<le> card (dom (lookup s)))"
    "lookup t = (if full then lookup s else (lookup s)(k \<mapsto> v))"
    using insert [OF Cons.prems(1), of k v] Cons.prems(2) by (auto simp: ok_iff)
  show ?case using Cons.IH [OF t(2)] Cons.prems(2) t by (cases full) auto
qed simp

lemma deletes:
  "inv s \<Longrightarrow> (\<And>k. k \<in> set ks \<Longrightarrow> key k) \<Longrightarrow>
   inv (fold delete ks s) \<and> lookup (fold delete ks s) = lookup s |` (- set ks)"
proof (induction ks arbitrary: s)
  case (Cons k ks)
  then have d: "inv (delete k s)" "lookup (delete k s) = (lookup s)(k := None)"
    using delete by auto
  show ?case using Cons.IH [OF d(1)] Cons.prems(2) d(2)
    by (auto simp: restrict_map_def fun_eq_iff)
qed (simp add: restrict_map_def)

end

section \<open>The eight slots\<close>

definition slots :: "'w machine \<Rightarrow> nat set" where
  "slots s = {j. j < 8 \<and> periodic_ids s ! j \<noteq> 0}"

definition table_ok :: "'w machine \<Rightarrow> bool" where
  "table_ok s \<longleftrightarrow> length (periodic_ids s) = 8 \<and> length (periodic_rates s) = 8 \<and> length (periodic_timers s) = 8
     \<and> unat (periodic_count s) = card (slots s) \<and> inj_on ((!) (periodic_ids s)) (slots s)"

definition rate_of :: "'w machine \<Rightarrow> u8 \<Rightarrow> u8 option" where
  "rate_of s i = (if i = 0 then None else map_option ((!) (periodic_rates s)) (find_slot i s))"

lemma finite_slots [simp]: "finite (slots s)"
  by (simp add: slots_def)

lemma find_slot_Some: "find_slot i s = Some j \<Longrightarrow> j < 8 \<and> periodic_ids s ! j = i"
  by (auto simp: find_slot_def find_Some_iff)

lemma find_slot_None: "find_slot i s = None \<longleftrightarrow> (\<forall>j < 8. periodic_ids s ! j \<noteq> i)"
  by (auto simp: find_slot_def find_None_iff)

lemma find_slot_iff:
  assumes "inj_on ((!) (periodic_ids s)) (slots s)" "i \<noteq> 0"
  shows "find_slot i s = Some j \<longleftrightarrow> j < 8 \<and> periodic_ids s ! j = i"
proof
  assume a: "j < 8 \<and> periodic_ids s ! j = i"
  then obtain k where k: "find_slot i s = Some k" using find_slot_None [of i s] by (cases "find_slot i s") auto
  then have "k < 8" "periodic_ids s ! k = i" using find_slot_Some by blast+
  then have "k = j" using a assms by (intro inj_onD [OF assms(1)]) (auto simp: slots_def)
  then show "find_slot i s = Some j" using k by simp
qed (rule find_slot_Some)

lemma rate_of_iff:
  assumes "inj_on ((!) (periodic_ids s)) (slots s)"
  shows "rate_of s i = Some r \<longleftrightarrow> i \<noteq> 0 \<and> (\<exists>j < 8. periodic_ids s ! j = i \<and> periodic_rates s ! j = r)"
  using find_slot_iff [OF assms] by (auto simp: rate_of_def)

lemma dom_rate_of:
  assumes "inj_on ((!) (periodic_ids s)) (slots s)"
  shows "dom (rate_of s) = (!) (periodic_ids s) ` slots s"
  using rate_of_iff [OF assms] by (auto simp: dom_def slots_def image_iff)

lemma card_dom_rate_of: "table_ok s \<Longrightarrow> card (dom (rate_of s)) = unat (periodic_count s)"
  by (simp add: table_ok_def dom_rate_of card_image)

text \<open>Stopping an identifier clears its slots and counts them off; 0 is the mark of a free slot.\<close>

lemma stop_slots:
  "n \<le> 8 \<Longrightarrow> length (periodic_ids s) = 8 \<Longrightarrow> fold (stop_slot i) [0..<n] s = s\<lparr>
     periodic_ids := map (\<lambda>x. if x = i then 0 else x) (take n (periodic_ids s)) @ drop n (periodic_ids s),
     periodic_count := periodic_count s - of_nat (card {j. j < n \<and> periodic_ids s ! j = i})\<rparr>"
proof (induction n)
  case 0
  have "s\<lparr>periodic_ids := periodic_ids s, periodic_count := periodic_count s\<rparr> = s" by (cases s) simp
  then show ?case by simp
next
  case (Suc n)
  let ?ids = "periodic_ids s" and ?p = "map (\<lambda>x. if x = i then 0 else x) (take n (periodic_ids s))"
  have d: "drop n ?ids = ?ids ! n # drop (Suc n) ?ids" using Suc.prems by (simp add: Cons_nth_drop_Suc)
  have tk: "take (Suc n) ?ids = take n ?ids @ [?ids ! n]" using Suc.prems by (simp add: take_Suc_conv_app_nth)
  have lp: "length ?p = n" using Suc.prems by simp
  have nth: "(?p @ drop n ?ids) ! n = ?ids ! n" unfolding d using lp by (simp add: nth_append)
  have up: "(?p @ drop n ?ids)[n := 0] = ?p @ 0 # drop (Suc n) ?ids"
    unfolding d using list_update_length [of ?p] lp by metis
  have split: "{j. j < Suc n \<and> ?ids ! j = i} = {j. j < n \<and> ?ids ! j = i} \<union> (if ?ids ! n = i then {n} else {})"
    by (auto simp: less_Suc_eq)
  have c: "card {j. j < Suc n \<and> ?ids ! j = i} = card {j. j < n \<and> ?ids ! j = i} + (if ?ids ! n = i then 1 else 0)"
    unfolding split by (subst card_Un_disjoint) auto
  show ?case
    using Suc by (simp add: stop_slot_def nth up c tk) (simp add: d)
qed

definition without :: "u8 \<Rightarrow> 'w machine \<Rightarrow> 'w machine" where
  "without i s = s\<lparr>periodic_ids := map (\<lambda>x. if x = i then 0 else x) (periodic_ids s),
     periodic_count := periodic_count s - of_nat (card {j. j < 8 \<and> periodic_ids s ! j = i})\<rparr>"

lemma stop_id_without: "length (periodic_ids s) = 8 \<Longrightarrow> stop_id i s = without i s"
  by (simp add: stop_id_def stop_slots without_def del: upt_Suc)

lemma table_stop:
  assumes "table_ok s" "i \<noteq> 0"
  shows "table_ok (stop_id i s)" "rate_of (stop_id i s) = (rate_of s)(i := None)"
proof -
  have l: "length (periodic_ids s) = 8" using assms(1) by (simp add: table_ok_def)
  have inj: "inj_on ((!) (periodic_ids s)) (slots s)" using assms(1) by (simp add: table_ok_def)
  let ?t = "without i s" and ?S = "{j. j < 8 \<and> periodic_ids s ! j = i}"
  have sub: "?S \<subseteq> slots s" and slots: "slots ?t = slots s - ?S"
    using assms(2) l by (auto simp: slots_def without_def split: if_splits)
  have inj': "inj_on ((!) (periodic_ids ?t)) (slots ?t)"
  proof (rule inj_onI)
    fix j k assume jk: "j \<in> slots ?t" "k \<in> slots ?t" "periodic_ids ?t ! j = periodic_ids ?t ! k"
    then have "periodic_ids s ! j = periodic_ids s ! k" using l by (auto simp: slots_def without_def split: if_splits)
    then show "j = k" using jk slots inj by (auto dest: inj_onD)
  qed
  have le: "card ?S \<le> card (slots s)" using sub by (intro card_mono) simp_all
  moreover have "card (slots s) \<le> 8" using card_mono [of "{..<8}" "slots s"] by (force simp: slots_def)
  moreover have "unat (periodic_count s) = card (slots s)" using assms(1) by (simp add: table_ok_def)
  ultimately have "unat (periodic_count ?t) = card (slots s) - card ?S"
    by (simp add: without_def unat_minus_le unat_of_nat_u8)
  then have "unat (periodic_count ?t) = card (slots ?t)" using sub by (simp add: slots card_Diff_subset)
  then have "table_ok ?t" using assms(1) inj' by (simp add: table_ok_def without_def)
  moreover have "rate_of ?t = (rate_of s)(i := None)"
  proof (rule ext)
    fix k
    have "rate_of ?t k = Some r \<longleftrightarrow> ((rate_of s)(i := None)) k = Some r" for r
      using rate_of_iff [OF inj', of k r] rate_of_iff [OF inj, of k r] l assms(2)
      by (auto simp: without_def split: if_splits)
    then show "rate_of ?t k = ((rate_of s)(i := None)) k"
      by (metis not_Some_eq)
  qed
  ultimately show "table_ok (stop_id i s)" "rate_of (stop_id i s) = (rate_of s)(i := None)"
    using l by (simp_all add: stop_id_without)
qed

text \<open>Adding an identifier: an update of its slot, or an insertion into the first free one.\<close>

lemma slots_Compl: "find_slot 0 s = None \<longleftrightarrow> slots s = {..<8}"
  by (auto simp: find_slot_None slots_def)

lemma rate_of_None: "i \<noteq> 0 \<Longrightarrow> rate_of s i = None \<longleftrightarrow> find_slot i s = None"
  by (simp add: rate_of_def)

lemma table_update:
  assumes "table_ok s" "find_slot i s = Some j" "i \<noteq> 0"
  shows "table_ok (s\<lparr>periodic_rates := (periodic_rates s)[j := m]\<rparr>)"
    "rate_of (s\<lparr>periodic_rates := (periodic_rates s)[j := m]\<rparr>) = (rate_of s)(i \<mapsto> m)"
proof -
  let ?t = "s\<lparr>periodic_rates := (periodic_rates s)[j := m]\<rparr>"
  have inj: "inj_on ((!) (periodic_ids s)) (slots s)" and l: "length (periodic_rates s) = 8"
    using assms(1) by (simp_all add: table_ok_def)
  have sl: "slots ?t = slots s" and fs: "find_slot k ?t = find_slot k s" for k
    by (simp_all add: slots_def find_slot_def)
  show "table_ok ?t" using assms(1) by (simp add: table_ok_def sl)
  have j: "j < 8" "periodic_ids s ! j = i" using find_slot_Some [OF assms(2)] by auto
  show "rate_of ?t = (rate_of s)(i \<mapsto> m)"
  proof (rule ext)
    fix k
    have "q \<noteq> j" if "find_slot k s = Some q" "k \<noteq> i" for q using that j find_slot_Some by blast
    then show "rate_of ?t k = ((rate_of s)(i \<mapsto> m)) k"
      using j l assms(2,3) by (cases "find_slot k s") (auto simp: rate_of_def fs nth_list_update)
  qed
qed

lemma table_insert:
  assumes "table_ok s" "find_slot i s = None" "find_slot 0 s = Some j" "i \<noteq> 0" "card (slots s) < 8"
    "t = s\<lparr>periodic_ids := (periodic_ids s)[j := i], periodic_rates := (periodic_rates s)[j := m],
      app := w, periodic_timers := (periodic_timers s)[j := now], periodic_count := periodic_count s + 1\<rparr>"
  shows "table_ok t" "rate_of t = (rate_of s)(i \<mapsto> m)"
proof -
  have inj: "inj_on ((!) (periodic_ids s)) (slots s)" and l: "length (periodic_rates s) = 8" "length (periodic_ids s) = 8"
    using assms(1) by (simp_all add: table_ok_def)
  have j: "j < 8" "periodic_ids s ! j = 0" using find_slot_Some [OF assms(3)] by auto
  have new: "periodic_ids s ! k \<noteq> i" if "k < 8" for k using assms(2) that by (simp add: find_slot_None)
  have sl: "slots t = insert j (slots s)" and nj: "j \<notin> slots s"
    using j l assms(4) by (auto simp: slots_def assms(6) nth_list_update)
  have inj': "inj_on ((!) (periodic_ids t)) (slots t)"
    unfolding sl
  proof (rule inj_onI)
    fix a b assume a: "a \<in> insert j (slots s)" "b \<in> insert j (slots s)" "periodic_ids t ! a = periodic_ids t ! b"
    show "a = b"
    proof (cases "a = j \<or> b = j")
      case True
      then show ?thesis using a j l new by (auto simp: assms(6) nth_list_update slots_def split: if_splits)
    next
      case False
      then show ?thesis using a inj by (auto simp: assms(6) dest: inj_onD)
    qed
  qed
  have "unat (periodic_count s + 1) = Suc (card (slots s))"
    using assms(1,5) by (simp add: table_ok_def unat_word_ariths)
  then show "table_ok t"
    using assms(1) inj' nj sl by (simp add: table_ok_def) (simp add: assms(6))
  show "rate_of t = (rate_of s)(i \<mapsto> m)"
  proof (rule ext)
    fix k
    have "rate_of t k = Some r \<longleftrightarrow> ((rate_of s)(i \<mapsto> m)) k = Some r" for r
      using rate_of_iff [OF inj', of k r] rate_of_iff [OF inj, of k r] l j new assms(4)
      by (auto simp: assms(6) nth_list_update)
    then show "rate_of t k = ((rate_of s)(i \<mapsto> m)) k" by (metis not_Some_eq)
  qed
qed

text \<open>The slots implement a map of eight keys; the request itself changes nothing else.\<close>

definition table_at :: "'w config \<Rightarrow> 'w machine \<Rightarrow> 'w machine \<Rightarrow> bool" where
  "table_at cfg s0 s \<longleftrightarrow> table_ok s \<and> wfm cfg s \<and> tr s = tr s0 \<and> suppress_pos_resp s = suppress_pos_resp s0"

lemma time_now_eq: "compliant cfg \<Longrightarrow> \<exists>t w. time_now cfg s = Some (t, s\<lparr>app := w\<rparr>)"
  by (auto simp: time_now_def compliant_def)

lemma time_now_table:
  assumes "compliant cfg" obtains t w where "time_now cfg s = Some (t, s\<lparr>app := w\<rparr>)"
  using time_now_eq [OF assms] by blast

lemma table_add:
  assumes c: "compliant cfg" and t: "table_at cfg s0 s" and i: "i \<noteq> 0"
  shows "ok (add_id cfg m i s) (\<lambda>(full, s'). table_at cfg s0 s'
      \<and> full = (rate_of s i = None \<and> 8 \<le> card (dom (rate_of s)))
      \<and> rate_of s' = (if full then rate_of s else (rate_of s)(i \<mapsto> m)))"
proof -
  have ok: "table_ok s" and w: "wfm cfg s" using t by (simp_all add: table_at_def)
  have card: "card (dom (rate_of s)) = unat (periodic_count s)" "unat (periodic_count s) = card (slots s)"
    using ok by (simp_all add: card_dom_rate_of table_ok_def)
  show ?thesis
  proof (cases "find_slot i s")
    case (Some j)
    then have "table_at cfg s0 (s\<lparr>periodic_rates := (periodic_rates s)[j := m]\<rparr>)"
      using table_update(1) [OF ok Some i] t by (simp add: table_at_def wfm_def)
    then show ?thesis using Some table_update(2) [OF ok Some i] i
      by (auto simp: add_id_def rate_of_def)
  next
    case None
    then have r: "rate_of s i = None" using i by (simp add: rate_of_None)
    show ?thesis
    proof (cases "card (slots s) < 8")
      case False
      then show ?thesis using None r card t by (simp add: add_id_def word_le_nat_alt)
    next
      case True
      then obtain j where j: "find_slot 0 s = Some j" using slots_Compl [of s] by fastforce
      let ?u = "s\<lparr>periodic_ids := (periodic_ids s)[j := i], periodic_rates := (periodic_rates s)[j := m]\<rparr>"
      obtain now w' where now: "time_now cfg ?u = Some (now, ?u\<lparr>app := w'\<rparr>)" by (rule time_now_table [OF c])
      let ?t = "?u\<lparr>app := w', periodic_timers := (periodic_timers s)[j := now], periodic_count := periodic_count s + 1\<rparr>"
      have e: "add_id cfg m i s = Some (False, ?t)"
        using None j True card by (simp add: add_id_def word_le_nat_alt Let_def now)
      have "table_ok ?t" "rate_of ?t = (rate_of s)(i \<mapsto> m)"
        using table_insert [OF ok None j i True refl, where m = m and w = w' and now = now] by simp_all
      moreover have "wfm cfg ?t" using w by (simp add: wfm_def)
      ultimately show ?thesis using True card t unfolding e by (simp add: table_at_def)
    qed
  qed
qed

interpretation rate_table: bounded_map 8 "\<lambda>i. i \<noteq> 0" "\<lambda>s. compliant cfg \<and> table_at cfg s0 s" rate_of
    "\<lambda>i m. add_id cfg m i" stop_id
  for cfg :: "'w config" and s0 :: "'w machine"
proof
  fix s :: "'w machine" and k v :: u8
  assume a: "compliant cfg \<and> table_at cfg s0 s" "k \<noteq> 0"
  show "ok (add_id cfg v k s) (\<lambda>(full, s'). (compliant cfg \<and> table_at cfg s0 s')
      \<and> full = (rate_of s k = None \<and> 8 \<le> card (dom (rate_of s)))
      \<and> rate_of s' = (if full then rate_of s else (rate_of s)(k \<mapsto> v)))"
    using table_add [of cfg s0 s k v] a by (auto elim!: ok_mono)
  have t: "table_ok s" "wfm cfg s" using a by (simp_all add: table_at_def)
  have "working cfg s (stop_id k s)" using t by simp
  then have "wfm cfg (stop_id k s)" by (rule working_wfm)
  moreover have "tr (stop_id k s) = tr s" "suppress_pos_resp (stop_id k s) = suppress_pos_resp s"
    using t by (simp_all add: stop_id_without table_ok_def without_def)
  ultimately show "(compliant cfg \<and> table_at cfg s0 (stop_id k s)) \<and> rate_of (stop_id k s) = (rate_of s)(k := None)"
    using table_stop [OF t(1) a(2)] a(1) by (simp add: table_at_def)
qed

lemma add_ids_inserts: "add_ids cfg m ids s = bounded_map.inserts (\<lambda>i m. add_id cfg m i) m ids s"
proof (induction ids arbitrary: s)
  case (Cons a ids)
  show ?case by (cases "add_id cfg m a s") (auto simp: rate_table.inserts.simps Cons.IH split: prod.split)
qed (simp add: rate_table.inserts.simps)

lemma ok_add_ids_fill:
  assumes "compliant cfg" "wfm cfg s" "table_ok s" "0 \<notin> set ids"
  shows "ok (add_ids cfg m ids s) (\<lambda>(full, s'). table_at cfg s s' \<and> (full, rate_of s') = fill 8 m ids (rate_of s))"
proof -
  have "compliant cfg \<and> table_at cfg s s" using assms by (simp add: table_at_def)
  moreover have "k \<noteq> 0" if "k \<in> set ids" for k using assms(4) that by auto
  ultimately have "ok (rate_table.inserts cfg m ids s) (\<lambda>(full, s'). (compliant cfg \<and> table_at cfg s s')
      \<and> (full, rate_of s') = fill 8 m ids (rate_of s))"
    by (rule rate_table.inserts_fill)
  then show ?thesis unfolding add_ids_inserts by (rule ok_mono) auto
qed

lemma stop_all:
  assumes "wfm cfg s"
  shows "table_at cfg s (s\<lparr>periodic_ids := replicate 8 0, periodic_count := 0\<rparr>)"
    "rate_of (s\<lparr>periodic_ids := replicate 8 0, periodic_count := 0\<rparr>) = Map.empty"
proof -
  let ?t = "s\<lparr>periodic_ids := replicate 8 0, periodic_count := 0\<rparr>"
  have "slots ?t = {}" by (simp add: slots_def)
  then show "table_at cfg s ?t" using assms by (simp add: table_at_def table_ok_def wfm_def)
  show "rate_of ?t = Map.empty" by (auto simp: rate_of_def find_slot_None fun_eq_iff)
qed

lemma table_same:
  assumes "periodic_ids s' = periodic_ids s" "periodic_rates s' = periodic_rates s"
    "periodic_timers s' = periodic_timers s" "periodic_count s' = periodic_count s"
  shows "table_ok s' = table_ok s \<and> rate_of s' = rate_of s"
proof -
  have "slots s' = slots s" "\<And>i. find_slot i s' = find_slot i s"
    using assms by (simp_all add: slots_def find_slot_def)
  with assms show ?thesis by (simp add: table_ok_def rate_of_def fun_eq_iff)
qed

lemma table_sent:
  "responded bs s s' \<Longrightarrow> table_ok s' = table_ok s \<and> rate_of s' = rate_of s"
  "nrc_sent sid nrc s s' \<Longrightarrow> table_ok s' = table_ok s \<and> rate_of s' = rate_of s"
  by (rule table_same; simp add: responded_fields nrc_sent_fields)+

lemma ok_periodic_answer:
  assumes c: "compliant cfg" and t: "table_at cfg s0 t"
  shows "ok (do { s \<leftarrow> tx_write 0 0x6A t; uds_send_response cfg 1 s })
    (\<lambda>r. table_ok (snd r) \<and> rate_of (snd r) = rate_of t \<and>
       tr (snd r) = tr s0 @ (if suppress_pos_resp s0 then [] else [ESend [0x6A]]))"
proof -
  have w: "wfm cfg t" using t by (simp add: table_at_def)
  note b = wfm_basic [OF w] compliant_basic [OF c]
  let ?t = "t\<lparr>tx_buf := (tx_buf t)[0 := 0x6A]\<rparr>"
  have tk: "take 1 (tx_buf ?t) = [0x6A]" using b by (cases "tx_buf t") auto
  have "ok (uds_send_response cfg 1 ?t) (\<lambda>r. fst r \<le> 0 \<and> responded (take (unat (1 :: u16)) (tx_buf ?t)) ?t (snd r))"
    using b w by (intro send_response_sent [OF c]) simp_all
  then have "ok (uds_send_response cfg 1 ?t) (\<lambda>r. responded [0x6A] ?t (snd r))"
    using tk by (auto elim!: ok_mono)
  moreover have "table_ok ?t = table_ok t" "rate_of ?t = rate_of t"
    using table_same [of ?t t] by simp_all
  ultimately show ?thesis using t b
    by (auto simp: tx_write_eq table_at_def elim!: ok_mono dest: responded_fields(1) table_sent)
qed

lemma ok_periodic_refused:
  assumes c: "compliant cfg" and t: "table_at cfg s0 t"
  shows "ok (uds_send_nrc cfg UDS_SID_READ_BY_PER_ID nrc t)
    (\<lambda>r. table_ok (snd r) \<and> rate_of (snd r) = rate_of t \<and> tr (snd r) = tr s0 @ [ESend [0x7F, 0x2A, nrc]])"
proof -
  have "wfm cfg t" using t by (simp add: table_at_def)
  from send_nrc_sent [OF c this, of UDS_SID_READ_BY_PER_ID nrc] show ?thesis
    using t by (auto simp: table_at_def elim!: ok_mono dest: nrc_sent_fields(1) table_sent)
qed

section \<open>The scheduler\<close>

definition due :: "u32 \<Rightarrow> 'w machine \<Rightarrow> nat \<Rightarrow> bool" where
  "due now s j \<longleftrightarrow> periodic_ids s ! j \<noteq> 0 \<and> periodic_timers s ! j \<le> now"

lemma tp_send_frame:
  "tp_send cfg n s = Some (r, s') \<Longrightarrow> \<exists>w bs. s' = s\<lparr>app := w, tr := tr s @ [ESend bs]\<rparr>"
  by (auto simp: tp_send_def Let_def emit_def split: option.splits if_splits)

definition visited :: "u32 \<Rightarrow> nat \<Rightarrow> 'w machine \<Rightarrow> 'w machine \<Rightarrow> bool" where
  "visited now i s s' \<longleftrightarrow> periodic_ids s' = periodic_ids s \<and> periodic_rates s' = periodic_rates s
     \<and> periodic_timers s' = (if due now s i
          then (periodic_timers s)[i := now + periodic_interval (periodic_rates s ! i)] else periodic_timers s)
     \<and> hooks_of (tr s') = hooks_of (tr s) @ (if due now s i then [HPeriodicRead (periodic_ids s ! i)] else [])"

lemma periodic_slot_visited: "periodic_slot cfg now i s = Some s' \<Longrightarrow> visited now i s s'"
  by (auto simp: periodic_slot_def visited_def due_def Let_def bind_eq_Some_conv case_prod_beta tx_write_def tx_fill_def
      dest!: tp_send_frame split: if_splits option.splits)

lemma ok_periodic_scan_due:
  assumes "compliant cfg" "periodic_ok cfg"
  shows "wfm cfg s \<Longrightarrow> distinct is \<Longrightarrow> (\<And>i. i \<in> set is \<Longrightarrow> i < 8) \<Longrightarrow> ok (periodic_scan cfg now is s)
    (\<lambda>s'. periodic_ids s' = periodic_ids s \<and> periodic_rates s' = periodic_rates s
      \<and> hooks_of (tr s') = hooks_of (tr s) @ map (\<lambda>j. HPeriodicRead (periodic_ids s ! j)) (filter (due now s) is)
      \<and> (\<forall>j < 8. periodic_timers s' ! j = (if j \<in> set is \<and> due now s j
           then now + periodic_interval (periodic_rates s ! j) else periodic_timers s ! j)))"
proof (induction "is" arbitrary: s)
  case (Cons i "is")
  obtain t where t: "periodic_slot cfg now i s = Some t" "wfm cfg t"
    using ok_periodic_slot [OF assms, of s s now i] Cons.prems(1) by (auto simp: ok_iff kept_refl kept_def)
  have v: "visited now i s t" using t(1) by (rule periodic_slot_visited)
  have due: "due now t j = due now s j" if "j \<in> set is" for j
  proof -
    have "j \<noteq> i" using that Cons.prems(2) by auto
    then show ?thesis using v by (auto simp: due_def visited_def)
  qed
  have f: "filter (due now t) is = filter (due now s) is" using due by (intro filter_cong refl)
  have "i < 8" "length (periodic_timers s) = 8" using Cons.prems wfm_basic(6) by auto
  then show ?case using Cons.IH [OF t(2)] Cons.prems(2,3) v
    by (auto simp: t(1) f visited_def due nth_list_update elim!: ok_mono)
qed simp

section \<open>Properties\<close>


lemma clock_table: "table_ok (base_machine w)"
proof -
  have "slots (base_machine w) = {}" by (simp add: slots_def machine_fields)
  then show ?thesis by (simp add: table_ok_def machine_fields)
qed


text \<open>
  Identifier 0 is not a key of that map. Stopping it "finds" every free slot and counts it
  off, so the 8-bit counter wraps: from an empty table of eight free slots it becomes 248, and
  from then on no identifier can be added any more; the request is answered positively.
\<close>

lemma periodic_stop_zero:
  "\<exists>r s r' s'. uds_internal_handle_periodic_read clock_config [0x2A, 0x04, 0x00] (base_machine 0) = Some (r, s)
    \<and> tr s = [ESend [0x6A]] \<and> periodic_count s = 248 \<and> \<not> table_ok s
    \<and> uds_internal_handle_periodic_read clock_config [0x2A, 0x01, 0x10] s = Some (r', s')
    \<and> tr s' = [ESend [0x6A], ESend [0x7F, 0x2A, 0x14]]"
proof -
  let ?m = "base_machine (0 :: u32)"
  let ?n = "?m\<lparr>periodic_count := 248\<rparr>"
  have same: "?m\<lparr>periodic_ids := replicate 8 0, periodic_count := 248\<rparr> = ?n"
    by (simp add: base_machine_def)
  have "{j. j < 8 \<and> periodic_ids ?m ! j = 0} = {..<8}" by (auto simp: machine_fields)
  then have "stop_id 0 ?m = ?n"
    by (simp add: stop_id_without without_def machine_fields flip: same)
  then have h: "uds_internal_handle_periodic_read clock_config [0x2A, 0x04, 0x00] ?m
      = do { s \<leftarrow> tx_write 0 0x6A ?n; uds_send_response clock_config 1 s }"
    by (simp add: uds_internal_handle_periodic_read_def byte_at_ok Let_def)
  let ?t = "?n\<lparr>tx_buf := (tx_buf ?n)[0 := 0x6A]\<rparr>"
  have w: "wfm clock_config ?t" using clock_wfm [of 0] by simp
  have tk: "take 1 (tx_buf ?t) = [0x6A]" by (simp add: machine_fields buffer_64)
  have "ok (uds_send_response clock_config 1 ?t) (\<lambda>r. fst r \<le> 0 \<and> responded (take (unat (1 :: u16)) (tx_buf ?t)) ?t (snd r))"
    using w by (intro send_response_sent [OF clock_compliant]) (simp_all add: clock_fields)
  then obtain r s where "uds_send_response clock_config 1 ?t = Some (r, s)" and d: "responded [0x6A] ?t s"
    using tk by (auto simp: ok_iff)
  then have s: "uds_internal_handle_periodic_read clock_config [0x2A, 0x04, 0x00] ?m = Some (r, s)"
    unfolding h by (simp add: tx_write_eq machine_fields)
  note f = responded_fields [OF d]
  have "wfm clock_config s" by (rule wfm_sent(1) [OF d w])
  then obtain r' s' where s': "uds_send_nrc clock_config 0x2A 0x14 s = Some (r', s')" "nrc_sent 0x2A 0x14 s s'"
    using send_nrc_sent [OF clock_compliant, of s "0x2A" "0x14"] by (auto simp: ok_iff)
  have "find_slot 0x10 s = None" using f by (simp add: find_slot_None machine_fields)
  then have "add_ids clock_config 1 [0x10] s = Some (True, s)"
    using f by (simp add: add_id_def)
  then have "uds_internal_handle_periodic_read clock_config [0x2A, 0x01, 0x10] s = Some (r', s')"
    using s' by (simp add: uds_internal_handle_periodic_read_def byte_at_ok Let_def)
  moreover have "\<not> table_ok s"
  proof
    assume "table_ok s"
    then have "card (slots s) = 248" using f by (simp add: table_ok_def)
    moreover have "card (slots s) \<le> 8" using card_mono [of "{..<8}" "slots s"] by (force simp: slots_def)
    ultimately show False by simp
  qed
  ultimately show ?thesis using s f nrc_sent_fields [OF s'(2)] by (auto simp: machine_fields)
qed



end
