(* ===== verification/Uds_Transfer.thy ===== *)
theory Uds_Transfer
  imports Uds_Requests
begin

text \<open>
  Addresses and transfers: the address-and-length format that the memory and flash services
  share, the data that WriteMemoryByAddress hands to the application, and the blocks of a
  download.
\<close>

section \<open>The address and length format\<close>

text \<open>The value of big-endian bytes, and the \<open>n\<close> bytes of a value.\<close>

definition be_nat :: "u8 list \<Rightarrow> nat" where
  "be_nat bs = foldl (\<lambda>n b. 256 * n + unat b) 0 bs"

fun be_bytes :: "nat \<Rightarrow> nat \<Rightarrow> u8 list" where
  "be_bytes 0 x = []"
| "be_bytes (Suc n) x = be_bytes n (x div 256) @ [of_nat x]"

lemma length_be_bytes [simp]: "length (be_bytes n x) = n"
  by (induction n arbitrary: x) simp_all

lemma be_nat_snoc: "be_nat (bs @ [b]) = 256 * be_nat bs + unat b"
  by (simp add: be_nat_def)

lemma be_nat_less: "be_nat bs < 256 ^ length bs"
proof (induction bs rule: rev_induct)
  case (snoc b bs)
  have "256 * be_nat bs + unat b < 256 * (be_nat bs + 1)" by simp
  also have "\<dots> \<le> 256 * 256 ^ length bs" using snoc by (intro mult_le_mono2) simp
  finally show ?case by (simp add: be_nat_snoc)
qed (simp add: be_nat_def)

lemma be_nat_bytes: "x < 256 ^ n \<Longrightarrow> be_nat (be_bytes n x) = x"
proof (induction n arbitrary: x)
  case (Suc n)
  have "x div 256 < 256 ^ n" using Suc.prems by (simp add: less_mult_imp_div_less mult.commute)
  then show ?case using Suc.IH by (simp add: be_nat_snoc unat_of_nat take_bit_eq_mod)
qed (simp add: be_nat_def)

lemma of_nat_snoc: "(of_nat (256 * n + unat b) :: u8) = b"
  by (simp add: word_unat_eq_iff unat_of_nat take_bit_eq_mod del: of_nat_add of_nat_mult)

lemma be_bytes_nat: "be_bytes (length bs) (be_nat bs) = bs"
  by (induction bs rule: rev_induct) (simp_all add: be_nat_snoc of_nat_snoc del: of_nat_add of_nat_mult)

lemma be_value_nat: "be_value bs = of_nat (be_nat bs)"
proof (induction bs rule: rev_induct)
  case (snoc b bs)
  then show ?case by (simp add: be_value_def be_nat_def shift_or_byte)
qed (simp add: be_value_def be_nat_def)

lemma unat_be_value:
  assumes "length bs \<le> 4" shows "unat (be_value bs) = be_nat bs"
proof -
  have "(256 :: nat) ^ length bs \<le> 256 ^ 4" using assms by (intro power_increasing) simp_all
  then have "be_nat bs < 2 ^ 32" using be_nat_less [of bs] by simp
  then show ?thesis by (simp add: be_value_nat unat_of_nat take_bit_nat_eq_self_iff)
qed

text \<open>A run of bytes has the value \<open>x\<close> exactly when it is the encoding of \<open>x\<close>.\<close>

lemma be_value_iff:
  assumes "length bs \<le> 4"
  shows "be_value bs = x \<longleftrightarrow> bs = be_bytes (length bs) (unat x) \<and> unat x < 256 ^ length bs"
proof
  assume "be_value bs = x"
  then show "bs = be_bytes (length bs) (unat x) \<and> unat x < 256 ^ length bs"
    using unat_be_value [OF assms] be_nat_less [of bs] by (auto simp: be_bytes_nat)
next
  assume a: "bs = be_bytes (length bs) (unat x) \<and> unat x < 256 ^ length bs"
  then have "be_nat bs = unat x" using be_nat_bytes by metis
  then show "be_value bs = x" by (simp add: be_value_nat)
qed

definition alfid :: "nat \<Rightarrow> nat \<Rightarrow> u8" where
  "alfid i j = of_nat (16 * j + i)"

lemma and_0f: "(x :: u8) AND 0x0F = take_bit 4 x"
  by (simp add: take_bit_eq_mask mask_eq_exp_minus_1)

lemma alfid_lens:
  assumes "i < 16" "j < 16"
  shows "alfid_addr_len (alfid i j) = i" "alfid_size_len (alfid i j) = j"
proof -
  have u: "unat (alfid i j) = 16 * j + i" unfolding alfid_def by (rule unat_of_nat_u8) (use assms in simp)
  show "alfid_addr_len (alfid i j) = i" using assms u
    by (simp add: alfid_addr_len_def and_0f unsigned_take_bit_eq take_bit_eq_mod unat_mod_distrib)
  show "alfid_size_len (alfid i j) = j" using assms u
    by (simp add: alfid_size_len_def and_0f unsigned_take_bit_eq unsigned_drop_bit_eq take_bit_eq_mod drop_bit_eq_div unat_mod_distrib unat_div_distrib)
qed

section \<open>Writing memory\<close>

lemma echo_bytes_append:
  "echo_bytes data (is @ js) s = Option.bind (echo_bytes data is s) (echo_bytes data js)"
proof (induction "is" arbitrary: s)
  case (Cons i "is")
  show ?case
    by (cases "byte_at data (2 + i)"; cases "tx_write (2 + i) (the (byte_at data (2 + i))) s") (simp_all add: Cons)
qed simp

lemma echo_bytes_copies:
  "2 + k \<le> length data \<Longrightarrow> 2 + k \<le> length (tx_buf s) \<Longrightarrow> echo_bytes data [0..<k] s =
    Some (s\<lparr>tx_buf := take 2 (tx_buf s) @ take k (drop 2 data) @ drop (2 + k) (tx_buf s)\<rparr>)"
proof (induction k)
  case 0
  have "s\<lparr>tx_buf := tx_buf s\<rparr> = s" by (cases s) simp
  then show ?case by simp
next
  case (Suc k)
  have "take (Suc k) (drop 2 data) = take k (drop 2 data) @ [data ! (2 + k)]"
    using Suc.prems(1) by (subst take_Suc_conv_app_nth) simp_all
  moreover have "drop (2 + k) (tx_buf s) = tx_buf s ! (2 + k) # drop (Suc (2 + k)) (tx_buf s)"
    using Suc.prems(2) by (subst Cons_nth_drop_Suc [symmetric]) simp_all
  moreover define p where "p = take 2 (tx_buf s) @ take k (drop 2 data)"
  moreover have "length p = 2 + k" using Suc.prems by (simp add: p_def)
  moreover have "tx_write (2 + k) v (s\<lparr>tx_buf := p @ y # zs\<rparr>) = Some (s\<lparr>tx_buf := p @ v # zs\<rparr>)" for v y zs
    using calculation(4) by (simp add: tx_write_def list_update_length [of p y, unfolded calculation(4)] del: add_2_eq_Suc)
  ultimately show ?case using Suc
    by (simp add: echo_bytes_append byte_at_ok del: add_2_eq_Suc)
qed

lemma gate_fields:
  assumes "gate cfg sid data s = (b, t)"
  shows "suppress_pos_resp t = suppress_pos_resp s" "tx_buf t = tx_buf s" "wfm cfg t = wfm cfg s"
  using assms by (auto simp: gate_def called_def emit_def wfm_def split: option.splits)

lemma length_fits:
  assumes "c + n < 65536"
  shows "(of_nat (c + n) :: u16) = of_nat c + ucast (sz :: u32) \<longleftrightarrow> n = unat sz mod 65536"
proof -
  have "unat (ucast sz :: u16) = unat sz mod 65536" by (simp add: unsigned_ucast_eq take_bit_eq_mod)
  moreover have "unat (of_nat n :: u16) = n" using assms by (intro unat_of_nat_u16) simp
  moreover have "(of_nat (c + n) :: u16) = of_nat c + ucast sz \<longleftrightarrow> (of_nat n :: u16) = ucast sz" by simp
  ultimately show ?thesis by (simp only: word_unat_eq_iff)
qed

lemma ok_write_memory:
  assumes c: "compliant cfg" and w: "wfm cfg s" and f: "fn_mem_write cfg = Some f"
    and ij: "i \<in> {1..4}" "j \<in> {1..4}"
    and p: "uds_internal_parse_addr_len (x @ bs) (alfid i j) = Some (addr, sz)" "length x = i + j"
    and len: "length bs + 10 < 65536"
    and g: "gate cfg UDS_SID_WRITE_MEM_BY_ADDR (UDS_SID_WRITE_MEM_BY_ADDR # alfid i j # x @ bs) s = (True, t)"
    and res: "fst (f (ctx_view t) (app t) addr sz bs) = res"
  shows "ok (uds_internal_handle_write_memory_by_addr cfg (UDS_SID_WRITE_MEM_BY_ADDR # alfid i j # x @ bs) s)
    (\<lambda>r. if length bs \<noteq> unat sz mod 65536 then nrc_sent UDS_SID_WRITE_MEM_BY_ADDR 0x13 s (snd r)
      else (let u = snd (called (HMemWrite addr sz bs) (f (ctx_view t) (app t) addr sz bs) t) in
        if res < 0 then nrc_sent UDS_SID_WRITE_MEM_BY_ADDR (nrc_of_int res) u (snd r)
        else responded (0x7D # alfid i j # x) u (snd r)))"
proof -
  let ?data = "UDS_SID_WRITE_MEM_BY_ADDR # alfid i j # x @ bs"
  note b = wfm_basic [OF w] compliant_basic [OF c] and gf = gate_fields [OF g]
  have "i < 16" "j < 16" using ij by auto
  note l = alfid_lens [OF this]
  have bad: "\<not> alfid_bad (alfid i j)" using ij by (auto simp: alfid_bad_def l)
  have sum: "(of_nat (length ?data) :: u16) = of_nat (2 + (i + j)) + ucast sz \<longleftrightarrow> length bs = unat sz mod 65536"
    using length_fits [of "2 + (i + j)" "length bs" sz] p(2) len ij by (simp add: add.assoc)
  have gate: "(case fn_is_safe cfg of None \<Rightarrow> (True, s)
      | Some g \<Rightarrow> called (HSafe UDS_SID_WRITE_MEM_BY_ADDR ?data) (g (ctx_view s) (app s) UDS_SID_WRITE_MEM_BY_ADDR ?data) s) = (True, t)"
    using g by (simp add: gate_def)
  let ?rw = "f (ctx_view t) (app t) addr sz bs"
  let ?u = "snd (called (HMemWrite addr sz bs) ?rw t)"
  have wu: "wfm cfg ?u" using w gf(3) by (simp add: called_def)
  let ?b = "0x7D # alfid i j # x @ drop (2 + (i + j)) (tx_buf s)"
  obtain y z zs where tx: "tx_buf s = y # z # zs"
    using b by (cases "tx_buf s"; cases "tl (tx_buf s)") auto
  have lb: "length ?b = length (tx_buf s)" using tx p(2) b ij by auto
  have echo: "echo_bytes ?data [0..<i + j] (?u\<lparr>tx_buf := 0x7D # alfid i j # zs\<rparr>) = Some (?u\<lparr>tx_buf := ?b\<rparr>)"
    using echo_bytes_copies [of "i + j" ?data "?u\<lparr>tx_buf := 0x7D # alfid i j # zs\<rparr>"] p(2) b tx ij by simp
  have n: "unat (2 + of_nat (i + j) :: u16) = 2 + (i + j)"
    using ij unat_of_nat_u16 [of "2 + (i + j)"] by simp
  have "ok (uds_send_response cfg (2 + of_nat (i + j)) (?u\<lparr>tx_buf := ?b\<rparr>))
      (\<lambda>r. fst r \<le> 0 \<and> responded (0x7D # alfid i j # x) (?u\<lparr>tx_buf := ?b\<rparr>) (snd r))"
    using send_response_sent [OF c, of "?u\<lparr>tx_buf := ?b\<rparr>" "2 + of_nat (i + j)"] n wu lb gf(2) b ij p(2) by simp
  then have resp: "ok (uds_send_response cfg (2 + of_nat (i + j)) (?u\<lparr>tx_buf := ?b\<rparr>))
      (\<lambda>r. responded (0x7D # alfid i j # x) ?u (snd r))"
    by (rule ok_mono) (use lb gf(2) in \<open>auto simp: responded_def\<close>)
  show ?thesis
  proof (cases "length bs = unat sz mod 65536")
    case False
    then show ?thesis
      using sum by (auto simp: uds_internal_handle_write_memory_by_addr_def byte_at_ok bad p l Let_def
          intro!: ok_mono [OF send_nrc_sent [OF c w]])
  next
    case True
    have go: "uds_internal_handle_write_memory_by_addr cfg ?data s =
        (if res < 0 then uds_send_nrc cfg UDS_SID_WRITE_MEM_BY_ADDR (nrc_of_int res) ?u
         else do {
           s \<leftarrow> tx_write 0 0x7D ?u;
           s \<leftarrow> tx_write 1 (alfid i j) s;
           s \<leftarrow> echo_bytes ?data [0..<i + j] s;
           uds_send_response cfg (2 + of_nat (i + j)) s })"
      using sum True res p ij
      by (simp add: uds_internal_handle_write_memory_by_addr_def byte_at_ok bad l Let_def f gate)
    have echo': "do {
           s \<leftarrow> tx_write 0 0x7D ?u;
           s \<leftarrow> tx_write 1 (alfid i j) s;
           s \<leftarrow> echo_bytes ?data [0..<i + j] s;
           uds_send_response cfg (2 + of_nat (i + j)) s } =
        uds_send_response cfg (2 + of_nat (i + j)) (?u\<lparr>tx_buf := ?b\<rparr>)"
      using tx gf(2) by (simp add: tx_write_eq echo)
    show ?thesis
      using ok_mono [OF send_nrc_sent [OF c wu, of UDS_SID_WRITE_MEM_BY_ADDR "nrc_of_int res"]] resp
      unfolding go echo' by (auto simp: True Let_def del: of_nat_add)
  qed
qed

section \<open>Downloading\<close>

text \<open>
  A tester that sends blocks with TransferData: each request carries a sequence number and
  data.
\<close>

fun transfer_blocks :: "'w config \<Rightarrow> (u8 \<times> u8 list) list \<Rightarrow> 'w machine \<Rightarrow> 'w machine option" where
  "transfer_blocks cfg [] s = Some s"
| "transfer_blocks cfg ((n, d) # bs) s = do {
     (_, s) \<leftarrow> uds_internal_handle_transfer_data cfg (UDS_SID_TRANSFER_DATA # n # d) s;
     transfer_blocks cfg bs s }"

text \<open>The blocks in sequence, beginning after number \<open>q\<close>; all others are left out.\<close>

fun in_sequence :: "u8 \<Rightarrow> (u8 \<times> u8 list) list \<Rightarrow> (u8 \<times> u8 list) list" where
  "in_sequence q [] = []"
| "in_sequence q ((n, d) # bs) = (if n = q + 1 then (n, d) # in_sequence n bs else in_sequence q bs)"

lemma expected_block: "(if q = 0 then 0x01 else if q = 0xFF then 0x00 else q + 1) = (q + 1 :: u8)"
  by auto

definition transferred :: "u8 \<Rightarrow> u8 list \<Rightarrow> 'w machine \<Rightarrow> 'w machine \<Rightarrow> bool" where
  "transferred n d s s' \<longleftrightarrow>
     (if n = flash_sequence s + 1
      then flash_sequence s' = n \<and> hooks_of (tr s') = hooks_of (tr s) @ [HTransferData n d]
      else flash_sequence s' = flash_sequence s \<and> hooks_of (tr s') = hooks_of (tr s))"

lemma ok_transfer_block:
  assumes c: "compliant cfg" and w: "wfm cfg s" and f: "fn_transfer_data cfg = Some f"
    and acc: "\<And>c w n d. 0 \<le> fst (f c w n d)"
  shows "ok (uds_internal_handle_transfer_data cfg (UDS_SID_TRANSFER_DATA # n # d) s)
    (\<lambda>r. wfm cfg (snd r) \<and> transferred n d s (snd r))"
proof -
  note b = wfm_basic [OF w] compliant_basic [OF c]
  have answer: "ok (do { s \<leftarrow> tx_write 0 0x76 t; s \<leftarrow> tx_write 1 n s; uds_send_response cfg 2 s })
      (\<lambda>r. wfm cfg (snd r) \<and> flash_sequence (snd r) = flash_sequence t \<and> hooks_of (tr (snd r)) = hooks_of (tr t))"
    if "wfm cfg t" for t
  proof -
    note bt = wfm_basic [OF that]
    let ?t = "t\<lparr>tx_buf := (tx_buf t)[0 := 0x76, Suc 0 := n]\<rparr>"
    have wt: "wfm cfg ?t" using that by simp
    have "ok (uds_send_response cfg 2 ?t) (\<lambda>r. fst r \<le> 0 \<and> responded (take (unat (2 :: u16)) (tx_buf ?t)) ?t (snd r))"
      using b by (intro send_response_sent [OF c wt]) simp
    then have "ok (uds_send_response cfg 2 ?t)
        (\<lambda>r. wfm cfg (snd r) \<and> flash_sequence (snd r) = flash_sequence t \<and> hooks_of (tr (snd r)) = hooks_of (tr t))"
      using wt by (auto elim!: ok_mono dest: hooks_of_sent responded_fields(17) intro: wfm_sent)
    then show ?thesis using b bt by (simp add: tx_write_eq)
  qed
  have refuse: "ok (uds_send_nrc cfg UDS_SID_TRANSFER_DATA nrc s)
      (\<lambda>r. wfm cfg (snd r) \<and> flash_sequence (snd r) = flash_sequence s \<and> hooks_of (tr (snd r)) = hooks_of (tr s))" for nrc
    using w by (auto intro!: ok_mono [OF send_nrc_sent [OF c w]] dest: hooks_of_sent nrc_sent_fields intro: wfm_sent)
  let ?u = "(snd (called (HTransferData n d) (f (ctx_view s) (app s) n d) s))\<lparr>flash_sequence := n\<rparr>"
  have wu: "wfm cfg ?u" using w by (simp add: called_def)
  show ?thesis
    using f acc [of "ctx_view s" "app s" n d] answer [OF w] answer [OF wu] refuse
    by (auto simp: uds_internal_handle_transfer_data_def byte_at_ok expected_block Let_def transferred_def elim!: ok_mono)
qed

lemma ok_transfer_blocks:
  assumes "compliant cfg" "fn_transfer_data cfg = Some f" "\<And>c w n d. 0 \<le> fst (f c w n d)"
  shows "wfm cfg s \<Longrightarrow> ok (transfer_blocks cfg bs s) (\<lambda>s'. hooks_of (tr s') =
    hooks_of (tr s) @ map (\<lambda>(n, d). HTransferData n d) (in_sequence (flash_sequence s) bs))"
proof (induction bs arbitrary: s)
  case (Cons b bs)
  obtain n d where b: "b = (n, d)" by (cases b)
  obtain r t where t: "uds_internal_handle_transfer_data cfg (UDS_SID_TRANSFER_DATA # n # d) s = Some (r, t)"
    "wfm cfg t" "transferred n d s t"
    using ok_transfer_block [OF assms(1) Cons.prems assms(2,3), of n d] by (auto simp: ok_iff)
  then show ?case using Cons.IH [OF t(2)]
    by (auto simp: b transferred_def split: if_splits elim!: ok_mono)
qed simp

text \<open>The blocks \<open>ds\<close> with the numbers a tester gives them, and each sent once or more.\<close>

fun numbered :: "u8 \<Rightarrow> u8 list list \<Rightarrow> (u8 \<times> u8 list) list" where
  "numbered q [] = []"
| "numbered q (d # ds) = (q + 1, d) # numbered (q + 1) ds"

definition repeats :: "nat list \<Rightarrow> 'a list \<Rightarrow> 'a list" where
  "repeats ks xs = concat (map2 (\<lambda>k x. replicate (Suc k) x) ks xs)"

lemma in_sequence_repeated: "in_sequence q (replicate k (q, d) @ bs) = in_sequence q bs"
  by (induction k) simp_all

lemma in_sequence_numbered:
  "length ks = length ds \<Longrightarrow> in_sequence q (repeats ks (numbered q ds)) = numbered q ds"
proof (induction ds arbitrary: ks q)
  case (Cons d ds)
  then show ?case by (cases ks) (simp_all add: repeats_def in_sequence_repeated)
qed (simp add: repeats_def)

section \<open>Properties\<close>

text \<open>
  The address-and-length parser inverts the big-endian encoding. With \<open>i\<close> address bytes
  and \<open>j\<close> size bytes it returns an address and a size exactly when the data starts with their
  encodings, and so when they fit.
\<close>

lemma parse_addr_len_inverts:
  assumes "i \<in> {1..4}" "j \<in> {1..4}"
  shows "uds_internal_parse_addr_len data (alfid i j) = Some (addr, sz) \<longleftrightarrow>
    (\<exists>rest. data = be_bytes i (unat addr) @ be_bytes j (unat sz) @ rest
       \<and> unat addr < 256 ^ i \<and> unat sz < 256 ^ j)"
proof -
  let ?a = "take i data" and ?b = "take j (drop i data)"
  have "i < 16" "j < 16" using assms by auto
  note l = alfid_lens [OF this]
  have p: "uds_internal_parse_addr_len data (alfid i j) = Some (addr, sz) \<longleftrightarrow>
      i + j \<le> length data \<and> be_value ?a = addr \<and> be_value ?b = sz"
    using assms by (auto simp: uds_internal_parse_addr_len_def Let_def l)
  show ?thesis
  proof
    assume "uds_internal_parse_addr_len data (alfid i j) = Some (addr, sz)"
    then have len: "length ?a = i" "length ?b = j" and v: "be_value ?a = addr" "be_value ?b = sz"
      using p by auto
    have "?a = be_bytes i (unat addr) \<and> unat addr < 256 ^ i"
      using v(1) be_value_iff [of ?a] len assms by auto
    moreover have "?b = be_bytes j (unat sz) \<and> unat sz < 256 ^ j"
      using v(2) be_value_iff [of ?b] len assms by auto
    moreover have "data = ?a @ ?b @ drop j (drop i data)" by (metis append_take_drop_id)
    ultimately show "\<exists>rest. data = be_bytes i (unat addr) @ be_bytes j (unat sz) @ rest
       \<and> unat addr < 256 ^ i \<and> unat sz < 256 ^ j" by metis
  next
    assume "\<exists>rest. data = be_bytes i (unat addr) @ be_bytes j (unat sz) @ rest
       \<and> unat addr < 256 ^ i \<and> unat sz < 256 ^ j"
    then obtain rest where d: "data = be_bytes i (unat addr) @ be_bytes j (unat sz) @ rest"
      "unat addr < 256 ^ i" "unat sz < 256 ^ j" by auto
    have "be_value (be_bytes i (unat addr)) = addr" "be_value (be_bytes j (unat sz)) = sz"
      using d(2,3) assms be_value_iff [of "be_bytes i (unat addr)" addr] be_value_iff [of "be_bytes j (unat sz)" sz]
      by auto
    then show "uds_internal_parse_addr_len data (alfid i j) = Some (addr, sz)"
      unfolding p using d(1) by simp
  qed
qed

lemma parse_addr_len_inverts_example:
  "uds_internal_parse_addr_len [0x12, 0x34, 0x05, 0xFF] (alfid 2 1) = Some (0x1234, 5)"
proof -
  have be: "be_bytes 2 x = [of_nat (x div 256), of_nat x]" "be_bytes (Suc 0) x = [of_nat x]" for x
    by (simp_all add: numeral_2_eq_2)
  have "be_bytes 2 (unat (0x1234 :: u32)) = [0x12, 0x34]" "be_bytes 1 (unat (5 :: u32)) = [0x05]"
    by (simp_all add: be)
  then show ?thesis
    using parse_addr_len_inverts [of 2 1 "[0x12, 0x34, 0x05, 0xFF]" "0x1234" 5] by simp
qed

text \<open>
  C26: WriteMemoryByAddress. A request whose data has the announced size modulo 65536 is passed
  to the application with the address and the full 32-bit size, and answered with its result:
  the echo of address and size, or its negative response. Any other is refused with
  incorrectMessageLength and has no effect. The comparison is made on 16 bits, so a size of
  65536 or more is accepted with less data than the application is told to write.
\<close>

theorem write_memory_data:
  assumes "compliant cfg" "wfm cfg s" "fn_mem_write cfg = Some f" "i \<in> {1..4}" "j \<in> {1..4}"
    "uds_internal_parse_addr_len (x @ bs) (alfid i j) = Some (addr, sz)" "length x = i + j"
    "data = UDS_SID_WRITE_MEM_BY_ADDR # alfid i j # x @ bs" "length bs + 10 < 65536"
    "gate cfg UDS_SID_WRITE_MEM_BY_ADDR data s = (True, t)" "fst (f (ctx_view t) (app t) addr sz bs) = res"
  shows "\<exists>r s'. uds_internal_handle_write_memory_by_addr cfg data s = Some (r, s') \<and>
    tr s' = (if length bs \<noteq> unat sz mod 65536 then tr s @ [ESend [0x7F, 0x3D, 0x13]]
      else tr t @ [EHook (HMemWrite addr sz bs)] @
        (if res < 0 then [ESend [0x7F, 0x3D, nrc_of_int res]]
         else if suppress_pos_resp s then [] else [ESend (0x7D # alfid i j # x)]))"
proof -
  have "suppress_pos_resp t = suppress_pos_resp s" using gate_fields(1) [OF assms(10)] .
  then show ?thesis
    using ok_write_memory [OF assms(1-7,9) assms(10) [unfolded assms(8)] assms(11)] assms(8)
    by (auto simp: ok_iff Let_def dest: nrc_sent_fields(1) responded_fields(1) split: if_splits)
qed

theorem write_memory_data_witness:
  "\<exists>r s'. uds_internal_handle_write_memory_by_addr (clock_config\<lparr>fn_mem_write := Some (\<lambda>c w a n d. (0, w))\<rparr>)
      [0x3D, 0x31, 0x00, 0x01, 0x00, 0x01, 0xAB] (base_machine 0) = Some (r, s')
    \<and> tr s' = [EHook (HMemWrite 0 0x10001 [0xAB]), ESend [0x7D, 0x31, 0x00, 0x01, 0x00, 0x01]]"
proof -
  let ?cfg = "clock_config\<lparr>fn_mem_write := Some (\<lambda>c w a n d. (0 :: int, w))\<rparr>"
  have c: "compliant ?cfg" using clock_compliant by (simp add: compliant_def did_secured_def)
  have w: "wfm ?cfg (base_machine 0)" using clock_wfm [of 0] by (simp add: wfm_def did_secured_def)
  have a: "alfid (Suc 0) 3 = 0x31" by (simp add: alfid_def)
  have p: "uds_internal_parse_addr_len ([0x00, 0x01, 0x00, 0x01] @ [0xAB]) (alfid 1 3) = Some (0, 0x10001)"
    by (simp add: uds_internal_parse_addr_len_def alfid_lens be_value_def Let_def)
  show ?thesis
    using write_memory_data [OF c w _ _ _ p _ refl, where f = "\<lambda>c w a n d. (0, w)" and t = "base_machine 0" and res = 0]
    by (auto simp: a gate_def clock_fields machine_fields)
qed



end
