(* ===== verification/Uds_Unchecked.thy ===== *)
theory Uds_Unchecked
  imports Uds_Rates Uds_Transfer Uds_Frame
begin

text \<open>
  What the stack does not check. An optional callback that is called all the same:
  \<open>fn_periodic_read\<close>, used by \<open>uds_process\<close> in \<open>src/core/uds_core.c\<close>; and the blocks of a transfer
  that no download has opened, in \<open>src/services/uds_service_flash.c\<close>.
\<close>

section \<open>A request that reaches its handler\<close>

text \<open>
  The machine as a handler gets it: the two clock readings of \<open>uds_input_sdu\<close> done and the timers
  reset, \<open>f\<close> being the clock.
\<close>

definition entered :: "('w \<Rightarrow> u32 \<times> 'w) \<Rightarrow> 'w machine \<Rightarrow> 'w machine" where
  "entered f s = s\<lparr>last_msg_time := fst (f (app s)), app := snd (f (snd (f (app s)))),
     p2_timer_start := fst (f (snd (f (app s)))), p2_msg_pending := False, p2_star_active := False, rcrrp_count := 0\<rparr>"

lemma input_handled:
  assumes c: "get_time_ms cfg = Some f" "fn_mutex_lock cfg = None" "fn_mutex_unlock cfg = None" "fn_is_safe cfg = None"
    and s: "wfm cfg s" "\<not> p2_msg_pending s" "pending_sid s = 0"
    and e: "find_service cfg (d ! 0) = Some e" "svc_session_mask e = 0xFF" "svc_security_mask e = 0"
      "unat (svc_min_len e) \<le> length d" "d \<noteq> []"
      "svc_sub_mask e \<noteq> None \<Longrightarrow> 2 \<le> length d \<and> is_subfunction_supported e (d ! 1 AND 0x7F) = Some True"
    and h: "svc_handler e d (if svc_sub_mask e = None then entered f s
      else (entered f s)\<lparr>suppress_pos_resp := (d ! 1 AND 0x80 \<noteq> 0)\<rparr>) = Some (r, s')" "r \<noteq> 1"
  shows "uds_input_sdu cfg cbs (Some d) s = Some s'"
proof -
  have b: "\<not> ctx_null s" "config_set s" using wfm_basic [OF s(1)] by simp_all
  have b0: "byte_at d 0 = Some (d ! 0)" using e(5) by (simp add: byte_at_def)
  have ses: "is_session_supported (entered f s) e"
    using s(1) e(2) by (auto simp: wfm_def entered_def is_session_supported_def get_session_bit_def)
  have input: "uds_input_sdu cfg cbs (Some d) s = handle_request cfg d (entered f s)"
    using b s(2,3) c e(5)
    by (simp add: uds_input_sdu_def Let_def mutex_lock_def mutex_unlock_def time_now_def route_def dispatch_def entered_def)
  show ?thesis
  proof (cases "svc_sub_mask e = None")
    case True
    then have "check_and_execute cfg e (d ! 0) d (entered f s) = Some s'"
      using h c e(3,4) by (simp add: check_and_execute_def execute_handler_def not_less)
    then show ?thesis using True by (simp add: input handle_request_def b0 e(1) ses)
  next
    case False
    then have d: "2 \<le> length d" "is_subfunction_supported e (d ! 1 AND 0x7F) = Some True" "byte_at d 1 = Some (d ! 1)"
      using e(6) by (auto simp: byte_at_def)
    from h(1) have "svc_handler e d ((entered f s)\<lparr>suppress_pos_resp := (d ! 1 AND 0x80 \<noteq> 0)\<rparr>) = Some (r, s')"
      unfolding if_not_P [OF False] .
    then have "check_and_execute cfg e (d ! 0) d ((entered f s)\<lparr>suppress_pos_resp := (d ! 1 AND 0x80 \<noteq> 0)\<rparr>) = Some s'"
      using h(2) c e(3,4) by (simp add: check_and_execute_def execute_handler_def not_less)
    then show ?thesis using False d by (simp add: input handle_request_def b0 e(1) ses)
  qed
qed

section \<open>A missing callback\<close>

lemma add_first_id:
  assumes "periodic_ids s = replicate 8 0" "periodic_count s = 0" "i \<noteq> 0" "get_time_ms cfg = Some f"
  shows "add_ids cfg mode [i] s = Some (False, s\<lparr>periodic_ids := (replicate 8 0)[0 := i], periodic_rates := (periodic_rates s)[0 := mode],
     app := snd (f (app s)), periodic_timers := (periodic_timers s)[0 := fst (f (app s))], periodic_count := 1\<rparr>)"
proof -
  have "find_slot i s = None" "find_slot 0 s = Some 0"
    using assms(1,3) by (simp_all add: find_slot_def upt_rec)
  then show ?thesis using assms by (simp add: add_id_def time_now_def)
qed

text \<open>A periodic identifier is due, and there is no callback to read it.\<close>

definition unreadable :: "'w config \<Rightarrow> 'w machine \<Rightarrow> bool" where
  "unreadable cfg s \<longleftrightarrow> \<not> ctx_null s \<and> config_set s \<and> \<not> p2_msg_pending s \<and> periodic_count s = 1 \<and> periodic_ids s ! 0 \<noteq> 0"

lemma unreadable_process:
  assumes "fn_periodic_read cfg = None" "fn_mutex_lock cfg = None" "get_time_ms cfg = Some f"
    "unreadable cfg s" "periodic_timers s ! 0 \<le> fst (f (app s))"
  shows "uds_process cfg s = None"
proof -
  have u: "\<not> ctx_null s" "config_set s" "\<not> p2_msg_pending s" "periodic_count s = 1" "periodic_ids s ! 0 \<noteq> 0"
    using assms(4) by (simp_all add: unreadable_def)
  let ?n = "fst (f (app s))"
  define t where "t = s3_tick cfg ?n (s\<lparr>app := snd (f (app s))\<rparr>)"
  have t: "\<not> p2_msg_pending t" "periodic_count t = 1" "periodic_ids t ! 0 = periodic_ids s ! 0" "periodic_timers t ! 0 = periodic_timers s ! 0"
    using u by (simp_all add: t_def s3_tick_def)
  have "p2_tick cfg ?n t = Some (False, t)" using t by (simp add: p2_tick_def)
  moreover have "periodic_scheduler cfg ?n t = None"
    using t u assms(1,5) by (simp add: periodic_scheduler_def upt_rec periodic_slot_def)
  ultimately show ?thesis
    using u assms(2,3) by (simp add: uds_process_def Let_def mutex_lock_def time_now_def flip: t_def)
qed

lemma missing_read:
  assumes c: "compliant cfg" "user_services cfg = []" "fn_is_safe cfg = None" "fn_periodic_read cfg = None"
      "fn_mutex_lock cfg = None" "fn_mutex_unlock cfg = None" "get_time_ms cfg = Some f"
    and s: "wfm cfg s" "\<not> p2_msg_pending s" "pending_sid s = 0" "periodic_ids s = replicate 8 0" "periodic_count s = 0" "i \<noteq> 0"
    and g: "fn_tp_send cfg = Some g" "sdu_transport g"
  shows "\<exists>s' w c. uds_input_sdu cfg cbs (Some [0x2A, 0x01, i]) s = Some s' \<and> unreadable cfg s'
    \<and> periodic_timers s' ! 0 = fst (f w) \<and> app s' = snd (g c (snd (f w)) [0x6A])"
proof -
  have e: "find_service cfg 0x2A = Some (core_service 0x2A 2 (uds_internal_handle_periodic_read cfg) (Some UDS_MASK_SUB_2A))"
    using c(2) by (simp add: find_service_def core_services_def core_service_def)
  have b: "\<not> ctx_null s" "config_set s" "10 \<le> length (tx_buf s)" "length (periodic_rates s) = 8" "length (periodic_timers s) = 8"
    "length (tx_buf s) = unat (tx_buffer_size cfg)"
    using wfm_basic [OF s(1)] compliant_basic [OF c(1)] by simp_all
  obtain x xs where x: "tx_buf s = x # xs" using b(3) by (cases "tx_buf s") auto
  define u where "u = (entered f s)\<lparr>suppress_pos_resp := False\<rparr>"
  define p where "p = u\<lparr>periodic_ids := (replicate 8 0)[0 := i], periodic_rates := (periodic_rates u)[0 := 1],
     app := snd (f (app u)), periodic_timers := (periodic_timers u)[0 := fst (f (app u))], periodic_count := 1\<rparr>"
  have u: "\<not> ctx_null u" "config_set u" "tx_buf u = x # xs" "periodic_ids u = replicate 8 0" "periodic_count u = 0"
    "length (periodic_timers u) = 8" "\<not> suppress_pos_resp u"
    using b x s by (simp_all add: u_def entered_def)
  have add: "add_ids cfg 1 [i] u = Some (False, p)"
    unfolding p_def by (rule add_first_id) (use u s c in simp_all)
  have p: "\<not> ctx_null p" "config_set p" "tx_buf p = x # xs" "periodic_ids p ! 0 = i" "periodic_count p = 1"
    "periodic_timers p ! 0 = fst (f (app u))" "\<not> suppress_pos_resp p"
    using u by (simp_all add: p_def)
  have one: "\<not> tx_buffer_size cfg < 1" "tx_buffer cfg" using b compliant_basic [OF c(1)] by (simp_all add: word_less_nat_alt)
  define q where "q = p\<lparr>tx_buf := 0x6A # xs, p2_msg_pending := False, rcrrp_count := 0\<rparr>"
  let ?rw = "g (ctx_view q) (app p) [0x6A]"
  let ?s' = "emit (ESend [0x6A]) (q\<lparr>app := snd ?rw\<rparr>)"
  have "uds_internal_handle_periodic_read cfg [0x2A, 0x01, i] u = Some (fst ?rw, ?s')"
    using g(1) p one
    by (simp add: uds_internal_handle_periodic_read_def byte_at_def tx_write_def uds_send_response_def tp_send_def Let_def add q_def
        del: add_ids.simps)
  then have "uds_input_sdu cfg cbs (Some [0x2A, 0x01, i]) s = Some ?s'"
    using sdu_transport.not_pending [OF g(2), of "ctx_view q" "app p" "[0x6A]"]
    by (intro input_handled [OF c(7,5,6,3) s(1-3), where e = "core_service 0x2A 2 (uds_internal_handle_periodic_read cfg) (Some UDS_MASK_SUB_2A)"])
       (simp_all add: e u_def core_service_def is_subfunction_supported_def UDS_MASK_SUB_2A_def mask16_def byte_at_def)
  moreover have "unreadable cfg ?s'" "periodic_timers ?s' ! 0 = fst (f (app u))" "app ?s' = snd (g (ctx_view q) (snd (f (app u))) [0x6A])"
    using p s by (simp_all add: unreadable_def emit_def q_def p_def)
  ultimately show ?thesis by blast
qed

text \<open>
  \<open>fn_periodic_read\<close> is optional, and all of the example configurations but the host simulator's
  leave it out. On such a server any tester starts a periodic read with three bytes, without a
  session or security level; the request is served, and the next \<open>uds_process\<close> calls the missing
  function, unless the clock has wrapped in between.
\<close>

lemma missing_read_stops:
  assumes "compliant cfg" "user_services cfg = []" "fn_is_safe cfg = None" "fn_periodic_read cfg = None"
      "fn_mutex_lock cfg = None" "fn_mutex_unlock cfg = None" "get_time_ms cfg = Some f"
    and "wfm cfg s" "\<not> p2_msg_pending s" "pending_sid s = 0" "periodic_ids s = replicate 8 0" "periodic_count s = 0" "i \<noteq> 0"
    and "fn_tp_send cfg = Some g"
      "\<And>w. fst (f w) \<le> fst (f (snd (f w)))" "\<And>w c d. fst (f w) \<le> fst (f (snd (g c w d)))"
  shows "\<exists>s'. uds_input_sdu cfg cbs (Some [0x2A, 0x01, i]) s = Some s' \<and> uds_process cfg s' = None"
proof -
  have "sdu_transport g" using assms(1,14) by (auto simp: compliant_def)
  from missing_read [OF assms(1-14) this] obtain s' w c
    where s': "uds_input_sdu cfg cbs (Some [0x2A, 0x01, i]) s = Some s'" "unreadable cfg s'"
      "periodic_timers s' ! 0 = fst (f w)" "app s' = snd (g c (snd (f w)) [0x6A])" by blast
  have "periodic_timers s' ! 0 \<le> fst (f (app s'))"
    unfolding s'(3,4) using assms(15) [of w] assms(16) [of "snd (f w)" c "[0x6A]"] by (rule order_trans)
  from unreadable_process [OF assms(4,5,7) s'(2) this] s'(1) show ?thesis by blast
qed

section \<open>Nothing periodic\<close>

text \<open>
  As long as no request of service 0x2A comes, such a server is safe: there is no identifier to read.
\<close>

lemma quiet_frame: "user_services cfg = [] \<Longrightarrow> closed_app cfg no_callbacks (\<lambda>_. True) {UDS_SID_READ_BY_PER_ID}"
  by unfold_locales (simp_all add: app_closed_def no_callbacks_def)

lemma ok_quiet_input:
  assumes "compliant cfg" "user_services cfg = []" "wfm cfg s" "periodic_count s = 0"
    "length data < 65536" "data \<noteq> []" "data ! 0 \<noteq> UDS_SID_READ_BY_PER_ID"
  shows "ok (uds_input_sdu cfg no_callbacks (Some data) s) (\<lambda>s'. wfm cfg s' \<and> periodic_count s' = 0)"
proof -
  have "app_ok cfg" using assms(1,2) by (simp add: app_ok_def)
  from ok_input_sdu [OF this no_callbacks_ok assms(3,5,6)]
    closed_app.may_input [OF quiet_frame [OF assms(2)], of "rx_buf s" s "Some data"] assms(4,7)
  show ?thesis by (auto simp: ok_iff may_def framed_def served_once_def)
qed

lemma ok_quiet_process:
  assumes "compliant cfg" "user_services cfg = []" "wfm cfg s" "periodic_count s = 0"
  shows "ok (uds_process cfg s) (\<lambda>s'. wfm cfg s' \<and> periodic_count s' = 0)"
proof -
  obtain f where f: "get_time_ms cfg = Some f" using compliant_basic [OF assms(1)] by auto
  let ?now = "fst (f (app (mutex_lock cfg s)))"
  define t where "t = s3_tick cfg ?now ((mutex_lock cfg s)\<lparr>app := snd (f (app (mutex_lock cfg s)))\<rparr>)"
  have "working cfg (mutex_lock cfg s) t" unfolding t_def by (intro working_s3_tick) (use assms(3) in simp)
  from ok_p2_tick [OF assms(1) this, of ?now] obtain b u where u: "p2_tick cfg ?now t = Some (b, u)" "wfm cfg u"
    by (auto simp: ok_iff kept_def)
  have "framed (\<lambda>_. True) {UDS_SID_READ_BY_PER_ID} (rx_buf s) t"
    using assms(4) closed_app.fr_lock(1) [OF quiet_frame [OF assms(2)], of "rx_buf s" s]
    unfolding t_def by (intro closed_app.fr_s3 [OF quiet_frame [OF assms(2)]]) (simp add: framed_def)
  with closed_app.may_p2 [OF quiet_frame [OF assms(2)], of "rx_buf s" t
      "\<lambda>r. framed (\<lambda>_. True) {UDS_SID_READ_BY_PER_ID} (rx_buf s) (snd r)" ?now] u(1)
  have "periodic_count u = 0" by (simp add: framed_def)
  then have "periodic_scheduler cfg ?now u = Some u" by (simp add: periodic_scheduler_def)
  moreover have "wfm cfg (mutex_unlock cfg u)" "periodic_count (mutex_unlock cfg u) = 0"
    using u(2) \<open>periodic_count u = 0\<close> by (auto simp: mutex_unlock_def emit_def split: option.splits)
  ultimately show ?thesis using u \<open>periodic_count u = 0\<close> f wfm_basic [OF assms(3)]
    by (simp add: uds_process_def Let_def time_now_def flip: t_def)
qed

end
