(* ===== verification/Uds_Flash_Tool.thy ===== *)
theory Uds_Flash_Tool
  imports Uds_Unchecked Uds_Client_Demo
begin

text \<open>
  The flash tool \<open>examples/pro_flash_tool.c\<close>: a client that prints the three requests of a download
  instead of sending them, and what a server of this library makes of these requests.
\<close>

section \<open>The tool\<close>

text \<open>Its world is what it has printed.\<close>

type_synonym printed = "(string \<times> arg list) list"

definition flash_log :: "printed \<Rightarrow> u8 \<Rightarrow> string \<Rightarrow> printed" where
  "flash_log w level msg = w @ [(''[UDS-PRO] %s'', [Str msg])]"

definition flash_get_time :: "printed \<Rightarrow> u32 \<times> printed" where
  "flash_get_time w = (0, w)"

definition flash_tp_send :: "uds_ctx \<Rightarrow> printed \<Rightarrow> u8 list \<Rightarrow> int \<times> printed" where
  "flash_tp_send c w data = (0, w @ [(''>> TP TX: %02X...'', map (Num \<circ> unat) data)])"

interpretation flash_tp: sdu_transport flash_tp_send
  by unfold_locales (simp add: flash_tp_send_def)

definition flash_config :: "printed config" where
  "flash_config = (base_config flash_get_time flash_tp_send)\<lparr>ecu_address := 0, cfg_p2_ms := 0, cfg_p2_star_ms := 0,
     fn_log := Some flash_log, rx_buffer_size := 1024, tx_buffer_size := 1024, log_level := UDS_LOG_INFO,
     strict_compliance := True, p2_server_max := 0, p2_star_server_max := 0\<rparr>"

definition print_line :: "string \<Rightarrow> arg list \<Rightarrow> printed machine \<Rightarrow> printed machine" where
  "print_line fmt args s = s\<lparr>app := app s @ [(fmt, args)]\<rparr>"

definition req_34 :: "u8 list" where
  "req_34 = [0x44, 0x08, 0x00, 0x00, 0x00, 0x00, 0x00, 0x10, 0x00]"

definition req_36 :: "u8 list" where
  "req_36 = 0x01 # replicate 256 0xAA"

text \<open>
  \<open>main\<close>, from a machine \<open>m\<close> with any contents to its result and the machine it leaves behind.
\<close>

definition flash_main :: "printed machine \<Rightarrow> (int \<times> printed machine) option" where
  "flash_main m = do {
     (r, s) \<leftarrow> uds_init (Some flash_config) (m\<lparr>ctx_null := False, tx_buf := local_array (tx_buf m),
       rx_buf := local_array (rx_buf m), did_store := (\<lambda>a. []), tr := [], app := []\<rparr>);
     if r \<noteq> UDS_OK then Some (1, s)
     else do {
       let s = print_line ''--- UDSLib Pro: Starting Flash Sequence ---'' [] s;
       let s = print_line ''Step 1: Requesting Download (Address=0x08000000, Size=0x1000)'' [] s;
       (_, s) \<leftarrow> uds_client_request flash_config 0x34 (Some req_34) 9 None s;
       let s = print_line ''Step 2: Transferring Data Block 0x01'' [] s;
       (_, s) \<leftarrow> uds_client_request flash_config 0x36 (Some req_36) 257 None s;
       let s = print_line ''Step 3: Exiting Transfer'' [] s;
       (_, s) \<leftarrow> uds_client_request flash_config 0x37 None 0 None s;
       let s = print_line ''--- Sequence Sent Successfully ---'' [] s;
       Some (0, s) } }"

lemma flash_fields:
  "tx_buffer flash_config" "tx_buffer_size flash_config = 1024" "fn_tp_send flash_config = Some flash_tp_send"
  "fn_mutex_lock flash_config = None" "fn_mutex_unlock flash_config = None" "rx_buffer flash_config"
  "get_time_ms flash_config = Some flash_get_time" "fn_nvm_load flash_config = None"
  "fn_log flash_config = Some flash_log" "log_level flash_config = UDS_LOG_INFO" "strict_compliance flash_config"
  "cfg_p2_ms flash_config = 0" "cfg_p2_star_ms flash_config = 0"
  by (simp_all add: flash_config_def base_config_def)

definition tool_ready :: "printed machine \<Rightarrow> bool" where
  "tool_ready s \<longleftrightarrow> \<not> ctx_null s \<and> config_set s \<and> length (tx_buf s) = 1024"

lemma print_line_fields [simp]:
  "tool_ready (print_line f as s) = tool_ready s" "tr (print_line f as s) = tr s"
  by (simp_all add: print_line_def tool_ready_def)

lemma tool_requests:
  assumes "tool_ready s" "length d = unat len" "length d < 1024" "data = (if len = 0 then None else Some d)"
  shows "\<exists>s'. uds_client_request flash_config sid data len None s = Some (0, s') \<and> tool_ready s' \<and> tr s' = tr s @ [ESend (sid # d)]"
proof -
  have i: "\<not> ctx_null s" "config_set s" "length (tx_buf s) = 1024" using assms(1) by (simp_all add: tool_ready_def)
  obtain b bs where t: "tx_buf s = b # bs" and l: "length bs = 1023" using i(3) by (cases "tx_buf s") auto
  have n: "\<not> 1024 < unat len + 1" "unat len < 1024" using assms(2,3) by simp_all
  have "bytes_at d 0 (unat len) = Some d" "blit 1 d (sid # bs) = Some (sid # d @ drop (length d) bs)"
    using assms(2,3) l by (simp_all add: bytes_at_def blit_Some)
  moreover have "d = []" if "len = 0" using that assms(2) by simp
  ultimately show ?thesis using i t l n assms(2-4)
    by (cases "len = 0")
       (simp_all add: uds_client_request_def flash_fields mutex_lock_def mutex_unlock_def tx_write_def tx_fill_def
         tp_send_def flash_tp_send_def Let_def tool_ready_def emit_def word_gt_0)
qed

text \<open>Printing and sending leave the tool ready; \<open>uds_init\<close> makes it so.\<close>

lemma tool_starts:
  "\<exists>s. uds_init (Some flash_config) (m\<lparr>ctx_null := False, tx_buf := local_array (tx_buf m),
       rx_buf := local_array (rx_buf m), did_store := (\<lambda>a. []), tr := [], app := []\<rparr>) = Some (0, s) \<and> tool_ready s \<and> sent (tr s) = []"
  by (simp add: uds_init_def flash_fields load_state_def Let_def uds_internal_log_def tool_ready_def reset_ctx_def emit_def)

lemma flash_main_sends:
  "\<exists>s. flash_main m = Some (0, s) \<and> sent (tr s) = [0x34 # req_34, 0x36 # req_36, [0x37]]"
proof -
  let ?l = "''Step 1: Requesting Download (Address=0x08000000, Size=0x1000)''"
  obtain s0 where s0: "uds_init (Some flash_config) (m\<lparr>ctx_null := False, tx_buf := local_array (tx_buf m),
       rx_buf := local_array (rx_buf m), did_store := (\<lambda>a. []), tr := [], app := []\<rparr>) = Some (0, s0)" "tool_ready s0" "sent (tr s0) = []"
    using tool_starts by blast
  define s1 where "s1 = print_line ?l [] (print_line ''--- UDSLib Pro: Starting Flash Sequence ---'' [] s0)"
  obtain s2 where s2: "uds_client_request flash_config 0x34 (Some req_34) 9 None s1 = Some (0, s2)" "tool_ready s2"
    "tr s2 = tr s1 @ [ESend (0x34 # req_34)]"
    using tool_requests [of s1 req_34 9 "Some req_34" "0x34"] s0(2) by (auto simp: s1_def req_34_def)
  define s3 where "s3 = print_line ''Step 2: Transferring Data Block 0x01'' [] s2"
  obtain s4 where s4: "uds_client_request flash_config 0x36 (Some req_36) 257 None s3 = Some (0, s4)" "tool_ready s4"
    "tr s4 = tr s3 @ [ESend (0x36 # req_36)]"
    using tool_requests [of s3 req_36 257 "Some req_36" "0x36"] s2(2) by (auto simp: s3_def req_36_def simp del: replicate.simps)
  define s5 where "s5 = print_line ''Step 3: Exiting Transfer'' [] s4"
  obtain s6 where s6: "uds_client_request flash_config 0x37 None 0 None s5 = Some (0, s6)" "tr s6 = tr s5 @ [ESend [0x37]]"
    using tool_requests [of s5 "[]" 0 None "0x37"] s4(2) by (auto simp: s5_def)
  have "flash_main m = Some (0, print_line ''--- Sequence Sent Successfully ---'' [] s6)"
    using s2(1) s4(1) s6(1) by (simp add: flash_main_def s0(1) Let_def flip: s1_def s3_def s5_def)
  moreover have "sent (tr s6) = [0x34 # req_34, 0x36 # req_36, [0x37]]"
    by (simp add: s6 s5_def s4 s3_def s2 s1_def s0 sent_append)
  ultimately show ?thesis by simp
qed


section \<open>A server of this library\<close>

text \<open>
  What the request for the download looks like to \<open>uds_internal_handle_request_download\<close>: the byte
  0x08 of the address is in the place of the address and length format.
\<close>

lemma download_refused:
  assumes "compliant cfg" "wfm cfg s"
  shows "\<exists>r s'. uds_internal_handle_request_download cfg (0x34 # req_34) s = Some (r, s') \<and> r \<le> 0 \<and> nrc_sent 0x34 0x31 s s'"
proof -
  have "ok (uds_send_nrc cfg 0x34 0x31 s) (replied cfg 0x34 s)" by (rule ok_send_nrc) (use assms in simp_all)
  moreover note send_nrc_sent [OF assms, of "0x34" "0x31"]
  moreover have "uds_internal_handle_request_download cfg (0x34 # req_34) s = uds_send_nrc cfg 0x34 0x31 s"
    by (simp add: uds_internal_handle_request_download_def req_34_def byte_at_def alfid_bad_def alfid_addr_len_def alfid_size_len_def)
  ultimately show ?thesis by (auto simp: ok_iff replied_def)
qed

lemma block_stored:
  assumes c: "compliant cfg" and w: "wfm cfg s" and f: "fn_transfer_data cfg = Some f" "0 \<le> fst (f (ctx_view s) (app s) 1 d)"
    and s: "flash_sequence s = 0" "\<not> suppress_pos_resp s"
  shows "\<exists>r s'. uds_internal_handle_transfer_data cfg (0x36 # 1 # d) s = Some (r, s') \<and> r \<le> 0
    \<and> tr s' = tr s @ [EHook (HTransferData 1 d), ESend [0x76, 1]]"
proof -
  define t where "t = (snd (called (HTransferData 1 d) (f (ctx_view s) (app s) 1 d) s))\<lparr>flash_sequence := 1\<rparr>"
  let ?t = "t\<lparr>tx_buf := (tx_buf t)[0 := 0x76, Suc 0 := 1]\<rparr>"
  have t: "wfm cfg t" "tr t = tr s @ [EHook (HTransferData 1 d)]" "\<not> suppress_pos_resp t"
    using w s by (simp_all add: t_def called_def emit_def)
  note b = compliant_basic [OF c] wfm_basic [OF t(1)]
  obtain x y xs where x: "tx_buf t = x # y # xs"
    using b by (cases "tx_buf t" rule: list.exhaust; cases "tl (tx_buf t)") auto
  have "ok (uds_send_response cfg 2 ?t) (\<lambda>r. fst r \<le> 0 \<and> responded (take (unat (2 :: u16)) (tx_buf ?t)) ?t (snd r))"
    using b t by (intro send_response_sent [OF c]) simp_all
  then obtain r s' where r: "uds_send_response cfg 2 ?t = Some (r, s')" "r \<le> 0" "responded [0x76, 1] ?t s'"
    using x by (auto simp: ok_iff)
  have "uds_internal_handle_transfer_data cfg (0x36 # 1 # d) s = uds_send_response cfg 2 ?t"
    using f s(1) b by (simp add: uds_internal_handle_transfer_data_def byte_at_ok Let_def tx_write_eq t_def called_def)
  with r responded_fields(1) [OF r(3)] t show ?thesis by simp
qed

lemma find_flash:
  assumes "user_services cfg = []"
  shows "find_service cfg 0x34 = Some (core_service 0x34 4 (uds_internal_handle_request_download cfg) None)"
    "find_service cfg 0x36 = Some (core_service 0x36 2 (uds_internal_handle_transfer_data cfg) None)"
  using assms by (simp_all add: find_service_def core_services_def core_service_def)

section \<open>Properties\<close>

text \<open>
  C37: the flash tool sends three requests whatever is in its memory when it starts. A server of this
  library that is open to downloads refuses the first, because it lacks the data format byte and is
  read one byte off; yet it takes the second, the block of data, hands it to the application and
  answers that the block has been received, although no download is open.
\<close>

theorem flash_tool_served:
  assumes "compliant cfg" "user_services cfg = []" "fn_is_safe cfg = None" "fn_mutex_lock cfg = None" "fn_mutex_unlock cfg = None"
    and "fn_transfer_data cfg = Some f" "\<forall>c w n d. 0 \<le> fst (f c w n d)"
    and "wfm cfg s" "\<not> p2_msg_pending s" "pending_sid s = 0" "flash_sequence s = 0" "\<not> suppress_pos_resp s"
  shows "\<exists>t request block. flash_main m = Some (0, t) \<and> sent (tr t) = [request, block, [0x37]]
    \<and> (\<exists>s1 s2. uds_input_sdu cfg cbs (Some request) s = Some s1 \<and> tr s1 = tr s @ [ESend [0x7F, 0x34, 0x31]]
      \<and> uds_input_sdu cfg cbs (Some block) s1 = Some s2
      \<and> tr s2 = tr s1 @ [EHook (HTransferData 1 (replicate 256 0xAA)), ESend [0x76, 1]])"
proof -
  obtain clock where k: "get_time_ms cfg = Some clock" using compliant_basic [OF assms(1)] by auto
  note up = input_handled [OF k assms(4,5,3)]
  have e1: "wfm cfg (entered clock s)" using assms(8) by (simp add: entered_def)
  obtain r1 s1 where h1: "uds_internal_handle_request_download cfg (0x34 # req_34) (entered clock s) = Some (r1, s1)"
    "r1 \<le> 0" "nrc_sent 0x34 0x31 (entered clock s) s1" using download_refused [OF assms(1) e1] by blast
  have i1: "uds_input_sdu cfg cbs (Some (0x34 # req_34)) s = Some s1"
    using h1(1,2) by (intro up [OF assms(8-10), where e = "core_service 0x34 4 (uds_internal_handle_request_download cfg) None" and r = r1])
      (simp_all add: find_flash [OF assms(2)] core_service_def req_34_def)
  have s1: "wfm cfg s1" "\<not> p2_msg_pending s1" "pending_sid s1 = 0" "flash_sequence s1 = 0" "\<not> suppress_pos_resp s1"
    "tr s1 = tr s @ [ESend [0x7F, 0x34, 0x31]]"
    using nrc_sent_fields [OF h1(3)] assms(9-12) wfm_sent(2) [OF h1(3)] e1 by (simp_all add: entered_def)
  have e2: "wfm cfg (entered clock s1)" "flash_sequence (entered clock s1) = 0" "\<not> suppress_pos_resp (entered clock s1)"
    using s1 by (simp_all add: entered_def)
  obtain r2 s2 where h2: "uds_internal_handle_transfer_data cfg (0x36 # 1 # replicate 256 0xAA) (entered clock s1) = Some (r2, s2)" "r2 \<le> 0"
    "tr s2 = tr (entered clock s1) @ [EHook (HTransferData 1 (replicate 256 0xAA)), ESend [0x76, 1]]"
    using block_stored [OF assms(1) e2(1) assms(6) assms(7) [rule_format] e2(2,3)] by blast
  have i2: "uds_input_sdu cfg cbs (Some (0x36 # req_36)) s1 = Some s2"
    using h2(1,2) by (intro up [OF s1(1-3), where e = "core_service 0x36 2 (uds_internal_handle_transfer_data cfg) None" and r = r2])
      (simp_all add: find_flash [OF assms(2)] core_service_def req_36_def)
  obtain t where "flash_main m = Some (0, t)" "sent (tr t) = [0x34 # req_34, 0x36 # req_36, [0x37]]"
    using flash_main_sends by blast
  with i1 i2 s1(6) h2(3) show ?thesis by (auto simp: entered_def intro!: exI)
qed

theorem flash_tool_served_witness:
  "\<exists>t request block. flash_main (base_machine []) = Some (0, t) \<and> sent (tr t) = [request, block, [0x37]]
    \<and> (\<exists>s1 s2. uds_input_sdu (clock_config\<lparr>fn_transfer_data := Some (\<lambda>c w n d. (0, w))\<rparr>) no_callbacks (Some request) (base_machine 5) = Some s1
      \<and> tr s1 = [ESend [0x7F, 0x34, 0x31]]
      \<and> uds_input_sdu (clock_config\<lparr>fn_transfer_data := Some (\<lambda>c w n d. (0, w))\<rparr>) no_callbacks (Some block) s1 = Some s2
      \<and> tr s2 = tr s1 @ [EHook (HTransferData 1 (replicate 256 0xAA)), ESend [0x76, 1]])"
proof -
  let ?cfg = "clock_config\<lparr>fn_transfer_data := Some (\<lambda>c w n d. (0 :: int, w))\<rparr>"
  have "compliant ?cfg" using clock_compliant by (simp add: compliant_def did_secured_def)
  moreover have "wfm ?cfg (base_machine 5)" using clock_wfm [of 5] by (simp add: wfm_def did_secured_def)
  ultimately show ?thesis
    using flash_tool_served [of ?cfg "\<lambda>c w n d. (0, w)" "base_machine 5" "base_machine []" no_callbacks]
    by (simp add: clock_fields machine_fields)
qed

end
