(* ===== verification/Uds_Zephyr.thy ===== *)
theory Uds_Zephyr
  imports Uds_Unchecked Uds_Host_Sim
begin

text \<open>
  The Zephyr port: \<open>zephyr/uds_zephyr_port.c\<close>, the two transports \<open>zephyr/uds_zephyr_isotp.c\<close> (ISO-TP
  sockets of the kernel) and \<open>zephyr/uds_zephyr_tp_fallback.c\<close> (the library's own ISO-TP over a CAN
  driver), and the server of \<open>examples/zephyr_uds_server/src/main.c\<close> on each of them.
\<close>

section \<open>The kernel\<close>

text \<open>
  The functions of the Zephyr kernel that the port calls, a parameter of everything below. \<open>'k\<close> is
  the state of the kernel and of all hardware. Results that report an error give the error number:
  \<open>Inl\<close>, or a positive number where the function returns it negated. Descriptors are natural numbers,
  and \<open>recv\<close> gives the bytes it has put into the buffer of the given size.
\<close>

record 'k kernel =
  k_uptime_get_32 :: "'k \<Rightarrow> u32 \<times> 'k"
  printk :: "'k \<Rightarrow> string \<Rightarrow> arg list \<Rightarrow> 'k"
  k_sleep :: "'k \<Rightarrow> 'k"
  socket :: "'k \<Rightarrow> (nat + nat) \<times> 'k"
  bind_socket :: "'k \<Rightarrow> nat \<Rightarrow> u32 \<Rightarrow> u32 \<Rightarrow> (nat + unit) \<times> 'k"
  close_socket :: "'k \<Rightarrow> nat \<Rightarrow> 'k"
  set_nonblock :: "'k \<Rightarrow> nat \<Rightarrow> 'k"
  send_socket :: "'k \<Rightarrow> nat \<Rightarrow> u8 list \<Rightarrow> (nat + nat) \<times> 'k"
  recv_socket :: "'k \<Rightarrow> nat \<Rightarrow> nat \<Rightarrow> (nat + u8 list) \<times> 'k"
  would_block :: "nat \<Rightarrow> bool"
  device_is_ready :: "'k \<Rightarrow> bool \<times> 'k"
  can_send_frame :: "'k \<Rightarrow> u32 \<Rightarrow> u8 list \<Rightarrow> nat \<times> 'k"
  can_add_rx_filter :: "'k \<Rightarrow> u32 \<Rightarrow> int \<times> 'k"

definition uds_get_time_ms_zephyr :: "'k kernel \<Rightarrow> 'k \<Rightarrow> u32 \<times> 'k" where
  "uds_get_time_ms_zephyr K k = k_uptime_get_32 K k"

definition uds_log_zephyr :: "'k kernel \<Rightarrow> 'k \<Rightarrow> u8 \<Rightarrow> string \<Rightarrow> 'k" where
  "uds_log_zephyr K k level msg = printk K k ''[%u] UDS: %s'' [Num (unat level), Str msg]"

section \<open>The socket transport\<close>

text \<open>\<open>None\<close> is the descriptor \<open>-1\<close>.\<close>

record 'k zephyr =
  g_isotp_fd :: "nat option"
  kern :: 'k

definition uds_zephyr_isotp_init :: "'k kernel \<Rightarrow> u32 \<Rightarrow> u32 \<Rightarrow> 'k zephyr \<Rightarrow> int \<times> 'k zephyr" where
  "uds_zephyr_isotp_init K rx tx z = (case socket K (kern z) of
       (Inl e, k) \<Rightarrow> (-1, z\<lparr>g_isotp_fd := None, kern := printk K k ''Failed to create ISO-TP socket: %d'' [Num e]\<rparr>)
     | (Inr fd, k) \<Rightarrow> (case bind_socket K k fd rx tx of
           (Inl e, k) \<Rightarrow> (-1, z\<lparr>g_isotp_fd := None,
              kern := close_socket K (printk K k ''Failed to bind ISO-TP socket: %d'' [Num e]) fd\<rparr>)
         | (Inr _, k) \<Rightarrow> (0, z\<lparr>g_isotp_fd := Some fd, kern := set_nonblock K k fd\<rparr>)))"

definition uds_zephyr_isotp_send :: "'k kernel \<Rightarrow> uds_ctx \<Rightarrow> 'k zephyr \<Rightarrow> u8 list \<Rightarrow> int \<times> 'k zephyr" where
  "uds_zephyr_isotp_send K c z data = (case g_isotp_fd z of
       None \<Rightarrow> (-1, z)
     | Some fd \<Rightarrow> (case send_socket K (kern z) fd data of
           (ret, k) \<Rightarrow> (if ret = Inr (length data) then 0 else -1, z\<lparr>kern := k\<rparr>)))"

text \<open>The result and the bytes in the buffer.\<close>

definition uds_zephyr_isotp_recv :: "'k kernel \<Rightarrow> nat \<Rightarrow> 'k zephyr \<Rightarrow> (int \<times> u8 list) \<times> 'k zephyr" where
  "uds_zephyr_isotp_recv K sz z = (case g_isotp_fd z of
       None \<Rightarrow> ((0, []), z)
     | Some fd \<Rightarrow> (case recv_socket K (kern z) fd sz of
           (Inl e, k) \<Rightarrow> ((if would_block K e then 0 else -1, []), z\<lparr>kern := k\<rparr>)
         | (Inr bs, k) \<Rightarrow> ((int (length bs), bs), z\<lparr>kern := k\<rparr>)))"

text \<open>The socket keeps the contract of the transport below the stack.\<close>

interpretation zephyr_socket: sdu_transport "uds_zephyr_isotp_send K" for K :: "'k kernel"
  by unfold_locales (simp add: uds_zephyr_isotp_send_def split: option.split prod.split)

section \<open>The server\<close>

text \<open>
  The configuration, with the transport and the kernel lifted to its state; \<open>rx\<close> and \<open>tx\<close> are
  \<open>CONFIG_UDSLIB_RX_BUFFER_SIZE\<close> and \<open>CONFIG_UDSLIB_TX_BUFFER_SIZE\<close>.
\<close>

definition server_config :: "u16 \<Rightarrow> u16 \<Rightarrow> ('w \<Rightarrow> u32 \<times> 'w) \<Rightarrow> ('w \<Rightarrow> u8 \<Rightarrow> string \<Rightarrow> 'w)
    \<Rightarrow> (uds_ctx \<Rightarrow> 'w \<Rightarrow> u8 list \<Rightarrow> int \<times> 'w) \<Rightarrow> 'w config" where
  "server_config rx tx timer logger transport = (base_config timer transport)\<lparr>ecu_address := 0, fn_log := Some logger,
     rx_buffer_size := rx, tx_buffer_size := tx, p2_server_max := 0, p2_star_server_max := 0\<rparr>"

definition native_config :: "'k kernel \<Rightarrow> u16 \<Rightarrow> u16 \<Rightarrow> 'k zephyr config" where
  "native_config K rx tx = server_config rx tx
     (\<lambda>z. (fst (uds_get_time_ms_zephyr K (kern z)), z\<lparr>kern := snd (uds_get_time_ms_zephyr K (kern z))\<rparr>))
     (\<lambda>z level msg. z\<lparr>kern := uds_log_zephyr K (kern z) level msg\<rparr>)
     (uds_zephyr_isotp_send K)"

definition zephyr_print :: "'k kernel \<Rightarrow> string \<Rightarrow> 'k zephyr \<Rightarrow> 'k zephyr" where
  "zephyr_print K msg z = z\<lparr>kern := printk K (kern z) msg []\<rparr>"

text \<open>
  \<open>main\<close> up to its loop, from the static variables, which are zero: the buffers \<open>uds_rx_buf\<close> and
  \<open>uds_tx_buf\<close>, and \<open>uds_ctx\<close>, whose members \<open>uds_init\<close> sets anyway, with the contents of \<open>m\<close>.
\<close>

definition native_boot :: "'k kernel \<Rightarrow> u16 \<Rightarrow> u16 \<Rightarrow> 'k \<Rightarrow> 'k zephyr machine \<Rightarrow> (int \<times> 'k zephyr machine) option" where
  "native_boot K rx tx k m = do {
     let z = zephyr_print K ''Starting LibUDS Zephyr Server Example (Fallback Mode)...'' \<lparr>g_isotp_fd = None, kern = k\<rparr>;
     let (r, z) = uds_zephyr_isotp_init K 0x7E0 0x7E8 z;
     let s = m\<lparr>ctx_null := False, tx_buf := replicate (unat tx) 0, rx_buf := replicate (unat rx) 0,
       did_store := (\<lambda>a. []), tr := [], app := z\<rparr>;
     if r < 0 then Some (-1, s\<lparr>app := zephyr_print K ''Failed to init ISO-TP shim'' z\<rparr>)
     else do {
       (r, s) \<leftarrow> uds_init (Some (native_config K rx tx)) s;
       if r \<noteq> 0 then Some (-1, s\<lparr>app := zephyr_print K ''Failed to init UDS stack'' (app s)\<rparr>)
       else Some (0, s\<lparr>app := zephyr_print K ''UDS Server ready. Waiting for requests (0x7E0 RX / 0x7E8 TX)...'' (app s)\<rparr>) } }"

text \<open>One turn of the loop; \<open>sdu\<close> is \<open>CONFIG_UDSLIB_MAX_SDU_SIZE\<close>, the size of \<open>frame\<close>.\<close>

definition native_turn :: "'k kernel \<Rightarrow> u16 \<Rightarrow> u16 \<Rightarrow> nat \<Rightarrow> 'k zephyr machine \<Rightarrow> 'k zephyr machine option" where
  "native_turn K rx tx sdu s = do {
     let ((len, frame), z) = uds_zephyr_isotp_recv K sdu (app s);
     let s = s\<lparr>app := z\<rparr>;
     s \<leftarrow> (if len > 0 then do {
             bs \<leftarrow> bytes_at frame 0 (unat (of_int len :: u16));
             uds_input_sdu (native_config K rx tx) no_callbacks (Some bs) s }
           else Some s);
     s \<leftarrow> uds_process (native_config K rx tx) s;
     Some (s\<lparr>app := (app s)\<lparr>kern := k_sleep K (kern (app s))\<rparr>\<rparr>) }"


section \<open>The server on the sockets\<close>

lemma native_fields:
  "user_services (native_config K rx tx) = []" "fn_is_safe (native_config K rx tx) = None"
  "fn_periodic_read (native_config K rx tx) = None" "fn_mutex_lock (native_config K rx tx) = None"
  "fn_mutex_unlock (native_config K rx tx) = None" "tx_buffer_size (native_config K rx tx) = tx"
  "fn_tp_send (native_config K rx tx) = Some (uds_zephyr_isotp_send K)" "rx_buffer (native_config K rx tx)"
  "get_time_ms (native_config K rx tx) = Some (\<lambda>z. (fst (k_uptime_get_32 K (kern z)), z\<lparr>kern := snd (k_uptime_get_32 K (kern z))\<rparr>))"
  "did_table (native_config K rx tx) = []" "fn_nvm_load (native_config K rx tx) = None"
  by (simp_all add: native_config_def server_config_def base_config_def uds_get_time_ms_zephyr_def)

lemma native_compliant:
  assumes "10 \<le> unat tx" shows "compliant (native_config K rx tx)"
  using assms zephyr_socket.sdu_transport_axioms [of K]
  by (simp add: compliant_def native_config_def server_config_def base_config_def)

lemma native_init: "\<not> ctx_null s \<Longrightarrow> uds_init (Some (native_config K rx tx)) s = Some (0, reset_ctx (native_config K rx tx) s)"
  by (simp add: uds_init_def native_config_def server_config_def base_config_def Let_def uds_internal_log_def load_state_def)

text \<open>The machine behind a successful start.\<close>

lemma native_booted:
  assumes "native_boot K rx tx k m = Some (0, s)"
  shows "wfm (native_config K rx tx) s" "\<not> p2_msg_pending s" "pending_sid s = 0" "periodic_ids s = replicate 8 0"
    "periodic_count s = 0" "\<exists>fd. g_isotp_fd (app s) = Some fd"
proof -
  obtain r z where z: "uds_zephyr_isotp_init K 0x7E0 0x7E8
      (zephyr_print K ''Starting LibUDS Zephyr Server Example (Fallback Mode)...'' \<lparr>g_isotp_fd = None, kern = k\<rparr>) = (r, z)"
    by (cases "uds_zephyr_isotp_init K 0x7E0 0x7E8
      (zephyr_print K ''Starting LibUDS Zephyr Server Example (Fallback Mode)...'' \<lparr>g_isotp_fd = None, kern = k\<rparr>)")
  have r: "\<not> r < 0" using assms(1) by (auto simp: native_boot_def Let_def z)
  then have fd: "\<exists>fd. g_isotp_fd z = Some fd"
    using z by (auto simp: uds_zephyr_isotp_init_def split: prod.splits sum.splits)
  let ?m = "m\<lparr>ctx_null := False, tx_buf := replicate (unat tx) 0, rx_buf := replicate (unat rx) 0,
       did_store := (\<lambda>a. []), tr := [], app := z\<rparr>"
  let ?t = "reset_ctx (native_config K rx tx) ?m"
  have s: "s = ?t\<lparr>app := zephyr_print K ''UDS Server ready. Waiting for requests (0x7E0 RX / 0x7E8 TX)...'' (app ?t)\<rparr>"
    using assms(1) r by (simp add: native_boot_def Let_def z native_init)
  have "memory_ok (native_config K rx tx) ?m" by (simp add: memory_ok_def native_fields)
  from wfm_reset_ctx [OF this] show "wfm (native_config K rx tx) s" by (simp add: s)
  show "\<not> p2_msg_pending s" "pending_sid s = 0" "periodic_ids s = replicate 8 0" "periodic_count s = 0"
    by (simp_all add: s reset_ctx_def Let_def)
  show "\<exists>fd. g_isotp_fd (app s) = Some fd" using fd by (simp add: s reset_ctx_def Let_def zephyr_print_def)
qed

text \<open>The datagram that the next \<open>recv\<close> of the loop takes from the socket.\<close>

definition next_sdu :: "'k kernel \<Rightarrow> nat \<Rightarrow> 'k zephyr machine \<Rightarrow> u8 list" where
  "next_sdu K sdu s = snd (fst (uds_zephyr_isotp_recv K sdu (app s)))"

lemma native_turn_eq:
  assumes "length (next_sdu K sdu s) < 65536"
  shows "\<exists>z. native_turn K rx tx sdu s = do {
     s \<leftarrow> (if next_sdu K sdu s \<noteq> [] then uds_input_sdu (native_config K rx tx) no_callbacks (Some (next_sdu K sdu s)) (s\<lparr>app := z\<rparr>)
           else Some (s\<lparr>app := z\<rparr>));
     s \<leftarrow> uds_process (native_config K rx tx) s;
     Some (s\<lparr>app := (app s)\<lparr>kern := k_sleep K (kern (app s))\<rparr>\<rparr>) }"
proof -
  obtain len bs z where r: "uds_zephyr_isotp_recv K sdu (app s) = ((len, bs), z)" by (metis surj_pair)
  then have bs: "next_sdu K sdu s = bs" by (simp add: next_sdu_def)
  have "(len > 0) = (bs \<noteq> [])" and len: "bs \<noteq> [] \<Longrightarrow> len = int (length bs)"
    using r by (auto simp: uds_zephyr_isotp_recv_def split: option.splits prod.splits sum.splits if_splits)
  moreover have "bytes_at bs 0 (unat (of_int len :: u16)) = Some bs" if "bs \<noteq> []"
  proof -
    have "unat (of_int len :: u16) = length bs"
      using assms len [OF that] by (simp add: bs unat_of_nat_u16)
    then show ?thesis by (simp add: bytes_at_def)
  qed
  ultimately show ?thesis
    by (intro exI [of _ z]) (simp add: native_turn_def r bs Let_def)
qed

inductive native_reach :: "'k kernel \<Rightarrow> u16 \<Rightarrow> u16 \<Rightarrow> nat \<Rightarrow> 'k \<Rightarrow> 'k zephyr machine \<Rightarrow> 'k zephyr machine \<Rightarrow> bool"
  for K rx tx sdu k m where
  boot: "native_boot K rx tx k m = Some (0, s) \<Longrightarrow> native_reach K rx tx sdu k m s"
| turn: "native_reach K rx tx sdu k m s \<Longrightarrow> native_turn K rx tx sdu s = Some s' \<Longrightarrow>
    next_sdu K sdu s \<noteq> [] \<longrightarrow> next_sdu K sdu s ! 0 \<noteq> UDS_SID_READ_BY_PER_ID \<Longrightarrow> native_reach K rx tx sdu k m s'"

text \<open>What the kernel documents of \<open>recv\<close>: it puts no more than the given number of bytes into the buffer.\<close>

definition recv_fits :: "'k kernel \<Rightarrow> bool" where
  "recv_fits K \<longleftrightarrow> (\<forall>k fd n bs. fst (recv_socket K k fd n) = Inr bs \<longrightarrow> length bs \<le> n)"

lemma next_sdu_fits: "recv_fits K \<Longrightarrow> length (next_sdu K sdu s) \<le> sdu"
  unfolding recv_fits_def next_sdu_def uds_zephyr_isotp_recv_def
  by (auto split: option.split prod.split sum.split) (metis fst_conv)

definition native_inv :: "'k kernel \<Rightarrow> u16 \<Rightarrow> u16 \<Rightarrow> 'k zephyr machine \<Rightarrow> bool" where
  "native_inv K rx tx s \<longleftrightarrow> wfm (native_config K rx tx) s \<and> periodic_count s = 0"

lemma native_inv_app [simp]: "native_inv K rx tx (s\<lparr>app := z\<rparr>) = native_inv K rx tx s"
  by (simp add: native_inv_def)

lemma ok_native_turn:
  assumes "native_inv K rx tx s" "10 \<le> unat tx" "length (next_sdu K sdu s) < 65536"
    "next_sdu K sdu s \<noteq> [] \<longrightarrow> next_sdu K sdu s ! 0 \<noteq> UDS_SID_READ_BY_PER_ID"
  shows "ok (native_turn K rx tx sdu s) (native_inv K rx tx)"
proof -
  let ?c = "native_config K rx tx"
  note c = native_compliant [OF assms(2), of K rx] native_fields(1) [of K rx tx]
  obtain z where e: "native_turn K rx tx sdu s = do {
     s \<leftarrow> (if next_sdu K sdu s \<noteq> [] then uds_input_sdu ?c no_callbacks (Some (next_sdu K sdu s)) (s\<lparr>app := z\<rparr>)
           else Some (s\<lparr>app := z\<rparr>));
     s \<leftarrow> uds_process ?c s;
     Some (s\<lparr>app := (app s)\<lparr>kern := k_sleep K (kern (app s))\<rparr>\<rparr>) }"
    using native_turn_eq [OF assms(3)] by blast
  have "ok (if next_sdu K sdu s \<noteq> [] then uds_input_sdu ?c no_callbacks (Some (next_sdu K sdu s)) (s\<lparr>app := z\<rparr>)
           else Some (s\<lparr>app := z\<rparr>)) (native_inv K rx tx)"
    using assms ok_quiet_input [OF c, of "s\<lparr>app := z\<rparr>" "next_sdu K sdu s"]
    by (simp add: native_inv_def [abs_def])
  then show ?thesis unfolding e ok_bind
    by (rule ok_mono) (use ok_quiet_process [OF c] in \<open>auto simp: native_inv_def elim!: ok_mono\<close>)
qed

lemma native_reach_inv:
  assumes "recv_fits K" "10 \<le> unat tx" "sdu < 65536"
  shows "native_reach K rx tx sdu k m s \<Longrightarrow> native_inv K rx tx s"
proof (induction rule: native_reach.induct)
  case (boot s)
  then show ?case by (simp add: native_inv_def native_booted)
next
  case (turn s s')
  have "length (next_sdu K sdu s) < 65536" using next_sdu_fits [OF assms(1), of sdu s] assms(3) by simp
  from ok_native_turn [OF turn.IH assms(2) this turn.hyps(3)] turn.hyps(2) show ?case by (simp add: ok_iff)
qed

section \<open>Properties\<close>

text \<open>
  C14: the Zephyr server on the kernel's ISO-TP sockets runs. Whatever the kernel does, and whatever
  requests arrive in whatever order, as long as none is for service 0x2A every turn of the loop
  returns, and leaves the machine well formed.
\<close>

theorem native_server_runs:
  assumes "recv_fits K" "10 \<le> unat tx" "sdu < 65536"
    "native_reach K rx tx sdu k m s" "next_sdu K sdu s \<noteq> [] \<longrightarrow> next_sdu K sdu s ! 0 \<noteq> UDS_SID_READ_BY_PER_ID"
  shows "\<exists>s'. native_turn K rx tx sdu s = Some s' \<and> native_reach K rx tx sdu k m s' \<and> wfm (native_config K rx tx) s'"
proof -
  have l: "length (next_sdu K sdu s) < 65536" using next_sdu_fits [OF assms(1), of sdu s] assms(3) by simp
  obtain s' where "native_turn K rx tx sdu s = Some s'" "native_inv K rx tx s'"
    using ok_native_turn [OF native_reach_inv [OF assms(1-4)] assms(2) l assms(5)] by (auto simp: ok_iff)
  then show ?thesis using native_reach.turn [OF assms(4) _ assms(5)] by (auto simp: native_inv_def)
qed



text \<open>A kernel that counts its calls in its clock and has one datagram, again and again.\<close>

definition toy_kernel :: "u8 list \<Rightarrow> u32 kernel" where
  "toy_kernel d = \<lparr>k_uptime_get_32 = (\<lambda>k. (k, k)), printk = (\<lambda>k fmt args. k), k_sleep = (\<lambda>k. k),
     socket = (\<lambda>k. (Inr 3, k)), bind_socket = (\<lambda>k fd rx tx. (Inr (), k)), close_socket = (\<lambda>k fd. k),
     set_nonblock = (\<lambda>k fd. k), send_socket = (\<lambda>k fd d. (Inr (length d), k)),
     recv_socket = (\<lambda>k fd n. (Inr (take n d), k)), would_block = (\<lambda>e. e = 11),
     device_is_ready = (\<lambda>k. (True, k)), can_send_frame = (\<lambda>k i d. (0, k)), can_add_rx_filter = (\<lambda>k i. (0, k))\<rparr>"

lemma toy_fits: "recv_fits (toy_kernel d)"
  by (auto simp: recv_fits_def toy_kernel_def)

lemma toy_boot:
  "\<exists>s. native_boot (toy_kernel d) 4096 4096 5 m = Some (0, s) \<and> next_sdu (toy_kernel d) 4095 s = take 4095 d"
  by (simp add: native_boot_def uds_zephyr_isotp_init_def toy_kernel_def zephyr_print_def Let_def native_init
      next_sdu_def uds_zephyr_isotp_recv_def reset_ctx_def)

theorem native_server_runs_witness:
  "\<exists>s s'. native_boot (toy_kernel [0x3E, 0x00]) 4096 4096 5 (base_machine \<lparr>g_isotp_fd = None, kern = 5\<rparr>) = Some (0, s)
     \<and> native_turn (toy_kernel [0x3E, 0x00]) 4096 4096 4095 s = Some s'"
proof -
  obtain s where s: "native_boot (toy_kernel [0x3E, 0x00]) 4096 4096 5 (base_machine \<lparr>g_isotp_fd = None, kern = 5\<rparr>) = Some (0, s)"
    "next_sdu (toy_kernel [0x3E, 0x00]) 4095 s = [0x3E, 0x00]" using toy_boot [of "[0x3E, 0x00]"] by auto
  from native_server_runs [OF toy_fits _ _ native_reach.boot [OF s(1), of 4095]] s show ?thesis by auto
qed


end
