(* ===== verification/Uds_Zephyr_Can.thy ===== *)
theory Uds_Zephyr_Can
  imports Uds_Zephyr Uds_Linked
begin

text \<open>
  The other transport of the Zephyr port, \<open>zephyr/uds_zephyr_tp_fallback.c\<close>: the library's own ISO-TP
  over a CAN controller, whose frames arrive in an interrupt; and the server on it.
\<close>

section \<open>The driver\<close>

text \<open>
  The world below ISO-TP: the kernel, whether \<open>g_current_uds_ctx\<close> is set, and a flag for a copy behind
  the 8 bytes of \<open>can_frame.data\<close> (which \<open>memcpy\<close> does not check).
\<close>

record 'k can =
  ck :: 'k
  g_current_uds_ctx :: bool
  overrun :: bool

lift_definition uds_internal_zephyr_can_send :: "'k kernel \<Rightarrow> 'k can driver" is
  "\<lambda>K w i data. case device_is_ready K (ck w) of (ready, k) \<Rightarrow>
     if \<not> ready then (-1, w\<lparr>ck := k\<rparr>)
     else (case can_send_frame K k i data of (e, k) \<Rightarrow>
       (- int e, w\<lparr>ck := k, overrun := (overrun w \<or> 8 < length data)\<rparr>))"
  by (simp split: prod.split)

definition fallback_config :: "'k kernel \<Rightarrow> u16 \<Rightarrow> u16 \<Rightarrow> 'k can isotp config" where
  "fallback_config K rx tx = server_config rx tx
     (\<lambda>g. let (t, k) = uds_get_time_ms_zephyr K (ck (bus g)) in (t, g\<lparr>bus := (bus g)\<lparr>ck := k\<rparr>\<rparr>))
     (\<lambda>g level msg. g\<lparr>bus := (bus g)\<lparr>ck := uds_log_zephyr K (ck (bus g)) level msg\<rparr>\<rparr>)
     isotp_tp"

text \<open>
  A received frame, its identifier and its \<open>dlc\<close> bytes. The bytes of \<open>can_frame.data\<close> behind them are
  not modelled: below, frames have 8 bytes, as ISO-TP frames of classic CAN do.
\<close>

definition uds_internal_zephyr_can_rx_cb :: "'k kernel \<Rightarrow> u16 \<Rightarrow> u16 \<Rightarrow> u32 \<times> u8 list
    \<Rightarrow> 'k can isotp machine \<Rightarrow> 'k can isotp machine option" where
  "uds_internal_zephyr_can_rx_cb K rx tx frame s =
     (if g_current_uds_ctx (bus (app s))
      then uds_isotp_rx_callback (fallback_config K rx tx) no_callbacks (fst frame) (snd frame) s
      else Some s)"

definition can_print :: "'k kernel \<Rightarrow> string \<Rightarrow> 'k can isotp \<Rightarrow> 'k can isotp" where
  "can_print K msg g = g\<lparr>bus := (bus g)\<lparr>ck := printk K (ck (bus g)) msg []\<rparr>\<rparr>"

definition uds_zephyr_tp_fallback_init :: "'k kernel \<Rightarrow> u32 \<Rightarrow> u32 \<Rightarrow> 'k can isotp \<Rightarrow> int \<times> 'k can isotp" where
  "uds_zephyr_tp_fallback_init K rx tx g = (case device_is_ready K (ck (bus g)) of (ready, k) \<Rightarrow>
     let g = g\<lparr>bus := (bus g)\<lparr>ck := k\<rparr>\<rparr> in
     if \<not> ready then (-1, can_print K ''CAN device not ready'' g)
     else (let g = g\<lparr>bus := (bus g)\<lparr>g_current_uds_ctx := True\<rparr>\<rparr>;
               g = uds_tp_isotp_init (Some (uds_internal_zephyr_can_send K)) tx rx g
       in case can_add_rx_filter K (ck (bus g)) rx of (r, k) \<Rightarrow> (r, g\<lparr>bus := (bus g)\<lparr>ck := k\<rparr>\<rparr>)))"

section \<open>The server\<close>

text \<open>
  The first half of \<open>main\<close>, up to \<open>uds_init\<close>: the context is a static variable and all zero, so its
  configuration pointer is null. Then the second half.
\<close>

definition fallback_start :: "'k kernel \<Rightarrow> u16 \<Rightarrow> u16 \<Rightarrow> 'k \<Rightarrow> 'k can isotp machine \<Rightarrow> int \<times> 'k can isotp machine" where
  "fallback_start K rx tx k m =
     (let g = can_print K ''Starting LibUDS Zephyr Server Example (Fallback Mode)...''
            (isotp_static \<lparr>ck = k, g_current_uds_ctx = False, overrun = False\<rparr>);
          (r, g) = uds_zephyr_tp_fallback_init K 0x7E0 0x7E8 g;
          s = m\<lparr>ctx_null := False, config_set := False, tx_buf := replicate (unat tx) 0,
            rx_buf := replicate (unat rx) 0, did_store := (\<lambda>a. []), tr := [], app := g\<rparr>
      in if r < 0 then (-1, s\<lparr>app := can_print K ''Failed to init Fallback ISO-TP shim'' g\<rparr>) else (0, s))"

definition fallback_boot :: "'k kernel \<Rightarrow> u16 \<Rightarrow> u16 \<Rightarrow> 'k can isotp machine \<Rightarrow> (int \<times> 'k can isotp machine) option" where
  "fallback_boot K rx tx s = do {
     (r, s) \<leftarrow> uds_init (Some (fallback_config K rx tx)) s;
     if r \<noteq> 0 then Some (-1, s\<lparr>app := can_print K ''Failed to init UDS stack'' (app s)\<rparr>)
     else Some (0, s\<lparr>app := can_print K ''UDS Server ready. Waiting for requests (0x7E0 RX / 0x7E8 TX)...'' (app s)\<rparr>) }"

definition fallback_turn :: "'k kernel \<Rightarrow> u16 \<Rightarrow> u16 \<Rightarrow> 'k can isotp machine \<Rightarrow> 'k can isotp machine option" where
  "fallback_turn K rx tx s = do {
     let (now, k) = uds_get_time_ms_zephyr K (ck (bus (app s)));
     g \<leftarrow> uds_tp_isotp_process now ((app s)\<lparr>bus := (bus (app s))\<lparr>ck := k\<rparr>\<rparr>);
     s \<leftarrow> uds_process (fallback_config K rx tx) (s\<lparr>app := g\<rparr>);
     Some (s\<lparr>app := (app s)\<lparr>bus := (bus (app s))\<lparr>ck := k_sleep K (ck (bus (app s)))\<rparr>\<rparr>\<rparr>) }"

text \<open>
  The running server: turns of the loop, and between two of them any number of frames. That an
  interrupt can come while \<open>uds_process\<close> runs is not modelled.
\<close>

inductive fallback_reach :: "'k kernel \<Rightarrow> u16 \<Rightarrow> u16 \<Rightarrow> 'k \<Rightarrow> 'k can isotp machine \<Rightarrow> 'k can isotp machine \<Rightarrow> bool"
  for K rx tx k m where
  boot: "fallback_start K rx tx k m = (0, s) \<Longrightarrow> fallback_boot K rx tx s = Some (0, s') \<Longrightarrow> fallback_reach K rx tx k m s'"
| turn: "fallback_reach K rx tx k m s \<Longrightarrow> fallback_turn K rx tx s = Some s' \<Longrightarrow> fallback_reach K rx tx k m s'"
| frame: "fallback_reach K rx tx k m s \<Longrightarrow> uds_internal_zephyr_can_rx_cb K rx tx f s = Some s' \<Longrightarrow>
    fallback_reach K rx tx k m s'"

section \<open>Frames of classic CAN\<close>

text \<open>What keeps every frame at 8 bytes: CAN-FD is off, and nothing else than this driver is below.\<close>

definition classic :: "'k kernel \<Rightarrow> 'k can isotp \<Rightarrow> bool" where
  "classic K g \<longleftrightarrow> \<not> fd_mode g \<and> \<not> overrun (bus g) \<and> can_send g \<in> {None, Some (uds_internal_zephyr_can_send K)}"

lemma classic_send_frame:
  assumes "classic K g" "length f \<le> 8" shows "classic K (snd (uds_internal_tp_send_frame f g))"
  using assms
  by (auto simp: classic_def uds_internal_tp_send_frame_def uds_internal_zephyr_can_send.rep_eq Let_def case_prod_beta
      split: option.splits if_splits prod.splits)

lemma may_build_frame: "may (build_frame h p dl) (\<lambda>f. length f = dl)"
  by (auto simp: build_frame_def may_def bytes_at_def Option.bind_eq_Some_conv split: if_splits)

lemma classic_state [simp]:
  "classic K (g\<lparr>pending_tx_sdu := x1\<rparr>) = classic K g" "classic K (g\<lparr>pending_tx_len := x2\<rparr>) = classic K g"
  "classic K (g\<lparr>msg_len := x3\<rparr>) = classic K g" "classic K (g\<lparr>bytes_processed := x4\<rparr>) = classic K g"
  "classic K (g\<lparr>iso_state := x5\<rparr>) = classic K g" "classic K (g\<lparr>iso_sn := x6\<rparr>) = classic K g"
  "classic K (g\<lparr>bs_counter := x7\<rparr>) = classic K g" "classic K (g\<lparr>timer_st := x8\<rparr>) = classic K g"
  "classic K (g\<lparr>block_size := x9\<rparr>) = classic K g" "classic K (g\<lparr>st_min := y1\<rparr>) = classic K g"
  "classic K (g\<lparr>bus := (bus g)\<lparr>ck := y2\<rparr>\<rparr>) = classic K g"
  by (simp_all add: classic_def)

lemma classic_isotp:
  assumes "classic K g" shows "classic K (snd (isotp_tp c g d))"
proof -
  have fd: "use_can_fd g = 0" using assms by (simp add: classic_def)
  have sf: "may (uds_send_sf d g) (\<lambda>r. classic K (snd r))" if "length d \<le> 7"
    using that assms unfolding uds_send_sf_def Let_def
    by (auto intro!: may_mono [OF may_build_frame] classic_send_frame)
  have mf: "may (uds_send_mf d g) (\<lambda>r. classic K (snd r))"
    unfolding uds_send_mf_def Let_def case_prod_beta
    by (rule may_if)
       (use assms fd in \<open>auto intro!: may_any may_mono [OF may_build_frame] classic_send_frame\<close>)
  have "may (uds_isotp_send d g) (\<lambda>r. classic K (snd r))"
    using sf mf fd by (simp add: uds_isotp_send_def)
  then show ?thesis using assms by (cases "uds_isotp_send d g") (simp_all add: isotp_tp_def)
qed

lemma may_classic_tick:
  assumes "classic K g" shows "may (uds_tp_isotp_process t g) (classic K)"
proof -
  have fd: "use_can_fd g = 0" using assms by (simp add: classic_def)
  have "may (uds_send_cf t n g) (classic K)" for n
    unfolding uds_send_cf_def Let_def case_prod_beta
    using assms fd by (auto intro!: may_any may_mono [OF may_build_frame] simp: classic_send_frame)
  then show ?thesis using assms by (simp add: uds_tp_isotp_process_def Let_def)
qed


lemma classic_closed: "app_closed (fallback_config K rx tx) no_callbacks (classic K)"
  using classic_isotp
  by (auto simp: app_closed_def fallback_config_def server_config_def base_config_def no_callbacks_def
      uds_get_time_ms_zephyr_def uds_log_zephyr_def case_prod_beta Let_def)

interpretation zephyr_can: closed_app "fallback_config K rx tx" no_callbacks "classic K" "{}" b for K rx tx b
  by (rule closed_appI [OF classic_closed])

lemma may_classic_input:
  "classic K (app s) \<Longrightarrow> may (uds_input_sdu (fallback_config K rx tx) no_callbacks d s) (\<lambda>s'. classic K (app s'))"
  by (rule may_mono [OF may_stack_input [OF classic_closed]]) simp_all

lemma may_classic_rx:
  assumes "classic K (app s)"
  shows "may (uds_isotp_rx_callback (fallback_config K rx tx) no_callbacks i data s) (\<lambda>s'. classic K (app s'))"
proof -
  let ?c = "fallback_config K rx tx" and ?P = "\<lambda>s'. classic K (app s')"
  have sf: "may (uds_rx_sf ?c no_callbacks data s) ?P"
    using assms by (auto simp: uds_rx_sf_def Let_def with_iso_def intro!: may_if may_any may_classic_input)
  have ff: "may (uds_rx_ff ?c data s) ?P"
    using assms by (auto simp: uds_rx_ff_def Let_def with_iso_def intro!: may_if may_any classic_send_frame)
  have cf: "may (uds_rx_cf ?c no_callbacks data s) ?P"
    using assms by (auto simp: uds_rx_cf_def Let_def with_iso_def intro!: may_if may_any may_classic_input)
  show ?thesis using assms sf ff cf
    by (auto simp: uds_isotp_rx_callback_def uds_rx_fc_def Let_def intro!: may_if may_any)
qed

lemma classic_started:
  "fallback_start K rx tx k m = (r, s) \<Longrightarrow> classic K (app s) \<and> \<not> config_set s \<and> \<not> ctx_null s
    \<and> (r = 0 \<longrightarrow> g_current_uds_ctx (bus (app s)) \<and> rx_id (app s) = 0x7E0)"
  by (auto simp: fallback_start_def uds_zephyr_tp_fallback_init_def uds_tp_isotp_init_def can_print_def isotp_static_def
      classic_def Let_def split: prod.splits if_splits)

lemma fallback_reach_classic: "fallback_reach K rx tx k m s \<Longrightarrow> classic K (app s)"
proof (induction rule: fallback_reach.induct)
  case (boot s s')
  obtain t where t: "uds_init (Some (fallback_config K rx tx)) s = Some (0, t)" "app s' = can_print K
      ''UDS Server ready. Waiting for requests (0x7E0 RX / 0x7E8 TX)...'' (app t)"
    using boot(2) by (auto simp: fallback_boot_def Option.bind_eq_Some_conv split: if_splits)
  have "framed (classic K) {} (rx_buf s) s" using classic_started [OF boot(1)] by (simp add: framed_def)
  from zephyr_can.may_init [OF this, of rx tx] t show ?case by (simp add: framed_def can_print_def may_def)
next
  case (turn s s')
  obtain now y where k: "uds_get_time_ms_zephyr K (ck (bus (app s))) = (now, y)" by (metis surj_pair)
  obtain g u where g: "uds_tp_isotp_process now ((app s)\<lparr>bus := (bus (app s))\<lparr>ck := y\<rparr>\<rparr>) = Some g"
    and u: "uds_process (fallback_config K rx tx) (s\<lparr>app := g\<rparr>) = Some u"
    and s': "s' = u\<lparr>app := (app u)\<lparr>bus := (bus (app u))\<lparr>ck := k_sleep K (ck (bus (app u)))\<rparr>\<rparr>\<rparr>"
    using turn.hyps(2) by (auto simp: fallback_turn_def k Option.bind_eq_Some_conv)
  have "classic K g" using may_classic_tick [of K "(app s)\<lparr>bus := (bus (app s))\<lparr>ck := y\<rparr>\<rparr>" now] turn.IH g
    by (simp add: may_def)
  then have "framed (classic K) {} (rx_buf s) (s\<lparr>app := g\<rparr>)" by (simp add: framed_def)
  from zephyr_can.may_process [OF this, of rx tx] u s' show ?case by (simp add: framed_def may_def)
next
  case (frame s f s')
  then show ?case using may_classic_rx [of K s rx tx "fst f" "snd f"]
    by (auto simp: uds_internal_zephyr_can_rx_cb_def may_def split: if_splits)
qed

section \<open>Properties\<close>

text \<open>
  C35: the copy into \<open>can_frame.data\<close> is safe. The driver copies as many bytes as it is given without
  looking; in this server that is never more than the 8 bytes there are, whatever frames arrive and
  however the kernel answers.
\<close>

theorem fallback_frames_fit:
  assumes "fallback_reach K rx tx k m s" shows "\<not> overrun (bus (app s))"
  using fallback_reach_classic [OF assms] by (simp add: classic_def)

lemma toy_start: "\<exists>s. fallback_start (toy_kernel []) 4096 4096 5 m = (0, s)"
  by (simp add: fallback_start_def uds_zephyr_tp_fallback_init_def toy_kernel_def can_print_def Let_def)

lemma fallback_boot_ok: "\<not> ctx_null s \<Longrightarrow> \<exists>s'. fallback_boot K rx tx s = Some (0, s')"
  by (simp add: fallback_boot_def uds_init_def fallback_config_def server_config_def base_config_def Let_def
      uds_internal_log_def load_state_def)

theorem fallback_frames_fit_witness:
  "\<exists>s. fallback_reach (toy_kernel []) 4096 4096 5 (base_machine (isotp_static \<lparr>ck = 5, g_current_uds_ctx = False, overrun = False\<rparr>)) s
     \<and> \<not> overrun (bus (app s))"
proof -
  obtain s where s: "fallback_start (toy_kernel []) 4096 4096 5
      (base_machine (isotp_static \<lparr>ck = 5, g_current_uds_ctx = False, overrun = False\<rparr>)) = (0, s)" using toy_start by blast
  obtain s' where "fallback_boot (toy_kernel []) 4096 4096 s = Some (0, s')"
    using fallback_boot_ok classic_started [OF s] by blast
  from fallback_reach.boot [OF s this] fallback_frames_fit [OF fallback_reach.boot [OF s this]] show ?thesis by blast
qed

text \<open>
  The server takes frames before it is ready for them. The interrupt is enabled before
  \<open>uds_init\<close> has set the configuration of the context; a first frame of any length from 8 on
  that arrives in between reads through the null pointer.
\<close>

lemma fallback_early_frame:
  assumes "fallback_start K rx tx k m = (0, s)" "data ! 0 AND 0xF0 = 0x10" "2 \<le> length data"
    "8 \<le> be16 (data ! 0 AND 0x0F) (data ! 1)"
  shows "uds_internal_zephyr_can_rx_cb K rx tx (0x7E0, data) s = None"
proof -
  have "byte_at data 0 = Some (data ! 0)" "byte_at data 1 = Some (data ! 1)" using assms(3) by (auto simp: byte_at_def)
  then show ?thesis using classic_started [OF assms(1)] assms(2,4)
    by (simp add: uds_internal_zephyr_can_rx_cb_def uds_isotp_rx_callback_def uds_rx_ff_def with_iso_def Let_def not_less)
qed

lemma fallback_early_frame_example:
  "\<exists>s. fallback_start (toy_kernel []) 4096 4096 5 (base_machine (isotp_static \<lparr>ck = 5, g_current_uds_ctx = False, overrun = False\<rparr>)) = (0, s)
     \<and> uds_internal_zephyr_can_rx_cb (toy_kernel []) 4096 4096 (0x7E0, [0x10, 0x14, 0x2E, 0xF1, 0x90, 1, 2, 3]) s = None"
proof -
  obtain s where s: "fallback_start (toy_kernel []) 4096 4096 5
      (base_machine (isotp_static \<lparr>ck = 5, g_current_uds_ctx = False, overrun = False\<rparr>)) = (0, s)" using toy_start by blast
  have "(8 :: u16) \<le> be16 (0x10 AND 0x0F) 0x14" by code_simp
  with fallback_early_frame [OF s, of "[0x10, 0x14, 0x2E, 0xF1, 0x90, 1, 2, 3]"] s show ?thesis by simp
qed

end
