(* ===== verification/Uds_Zephyr_Run.thy ===== *)
theory Uds_Zephyr_Run
  imports Uds_Zephyr_Can
begin

text \<open>
  The Zephyr server on the library's own transport runs: as long as no frame brings the first
  byte of a request for service 0x2A, every turn of its loop and every reception returns. The
  request may be in one frame or spread over several, so the first byte is followed through
  the reassembly.
\<close>

section \<open>The first byte of a request under way\<close>

text \<open>The frames that bring the first byte of a request for service 0x2A.\<close>

definition asks_periodic :: "u8 list \<Rightarrow> bool" where
  "asks_periodic data \<longleftrightarrow>
     data ! 0 AND 0xF0 = ISOTP_PCI_SF
       \<and> data ! (if data ! 0 AND 0x0F = 0 then 2 else 1) = UDS_SID_READ_BY_PER_ID
     \<or> data ! 0 AND 0xF0 = ISOTP_PCI_FF \<and> data ! 2 = UDS_SID_READ_BY_PER_ID"

text \<open>While a request is received, its first byte is in the buffer and is another service.\<close>

definition receiving :: "u8 list \<Rightarrow> 'c isotp \<Rightarrow> bool" where
  "receiving b g \<longleftrightarrow> (iso_state g = ISOTP_RX_WAIT_CF \<longrightarrow>
     0 < bytes_processed g \<and> bytes_processed g \<le> msg_len g \<and> b \<noteq> [] \<and> b ! 0 \<noteq> UDS_SID_READ_BY_PER_ID)"

definition calm :: "'c isotp machine \<Rightarrow> bool" where
  "calm s \<longleftrightarrow> periodic_count s = 0 \<and> receiving (rx_buf s) (app s)"

lemma receiving_not: "iso_state g \<noteq> ISOTP_RX_WAIT_CF \<Longrightarrow> receiving b g"
  by (simp add: receiving_def)

lemma receiving_send_frame [simp]: "receiving b (snd (uds_internal_tp_send_frame f g)) = receiving b g"
  by (simp add: receiving_def)

lemma receiving_isotp:
  assumes "receiving b g" shows "receiving b (snd (isotp_tp c g d))"
proof -
  have sf: "may (uds_send_sf d g) (\<lambda>r. receiving b (snd r))"
    using assms by (auto simp: uds_send_sf_def Let_def intro!: may_if may_any)
  have mf: "may (uds_send_mf d g) (\<lambda>r. receiving b (snd r))"
    using assms unfolding uds_send_mf_def Let_def case_prod_beta
    by (rule_tac may_if) (simp, simp only: may_bind may_Some, intro may_any, simp add: receiving_def)
  have "may (uds_isotp_send d g) (\<lambda>r. receiving b (snd r))"
    using sf mf by (simp add: uds_isotp_send_def)
  then show ?thesis using assms by (cases "uds_isotp_send d g") (simp_all add: isotp_tp_def)
qed

lemma may_result: "(\<And>x. m = Some x \<Longrightarrow> P x) \<Longrightarrow> may m P"
  by (simp add: may_def)

text \<open>An application whose callbacks leave a reception alone, and that serves nothing periodic.\<close>

locale calm_app =
  fixes cfg :: "'c isotp config"
  assumes closed: "app_closed cfg no_callbacks (receiving b)"
    and services: "user_services cfg = []"
begin

lemma frame: "closed_app cfg no_callbacks (receiving b) {UDS_SID_READ_BY_PER_ID}"
  by unfold_locales (simp_all add: closed services no_callbacks_def)

lemma calm_framed: "calm s = framed (receiving (rx_buf s)) {UDS_SID_READ_BY_PER_ID} (rx_buf s) s"
  by (auto simp: calm_def framed_def)

lemma framed_calm: "framed (receiving b) {UDS_SID_READ_BY_PER_ID} b s \<Longrightarrow> calm s"
  by (auto simp: calm_def framed_def)

lemma calm_input:
  assumes "calm s" "d ! 0 \<noteq> UDS_SID_READ_BY_PER_ID"
  shows "may (uds_input_sdu cfg no_callbacks (Some d) s) calm"
  by (rule may_mono [OF closed_app.may_input [OF frame assms(1) [unfolded calm_framed]]])
     (use assms(2) in \<open>auto intro: framed_calm\<close>)

lemma calm_process:
  assumes "calm s" shows "may (uds_process cfg s) calm"
  by (rule may_mono [OF closed_app.may_process [OF frame assms [unfolded calm_framed]] framed_calm])

lemma calm_sf:
  assumes "calm s" "8 \<le> length data" "data ! (if data ! 0 AND 0x0F = 0 then 2 else 1) \<noteq> UDS_SID_READ_BY_PER_ID"
  shows "may (uds_rx_sf cfg no_callbacks data s) calm"
proof -
  have idle: "calm (s\<lparr>app := (app s)\<lparr>iso_state := ISOTP_IDLE\<rparr>\<rparr>)"
    using assms(1) by (simp add: calm_def receiving_not)
  have b: "byte_at data 0 = Some (data ! 0)" "byte_at data (Suc 0) = Some (data ! Suc 0)"
    using assms(2) by (auto simp: byte_at_def)
  have "take n (drop off data) ! 0 = data ! off" if "n \<noteq> 0" "off \<le> 2" for n off
    using that assms(2) by simp
  then show ?thesis using assms(3) idle
    by (auto simp: uds_rx_sf_def Let_def with_iso_def b bytes_at_def intro!: may_if calm_input split: if_splits)
qed

lemma calm_ff:
  assumes "calm s" "length data = 8" "data ! 2 \<noteq> UDS_SID_READ_BY_PER_ID"
  shows "may (uds_rx_ff cfg data s) calm"
proof -
  have b: "byte_at data 0 = Some (data ! 0)" "byte_at data (Suc 0) = Some (data ! Suc 0)"
    "bytes_at data 2 6 = Some (drop 2 data)"
    using assms(2) by (auto simp: byte_at_def bytes_at_def)
  have pc: "periodic_count s = 0" using assms(1) by (simp add: calm_def)
  have first: "c \<noteq> [] \<and> c ! 0 \<noteq> UDS_SID_READ_BY_PER_ID" if "blit 0 (drop 2 data) (rx_buf s) = Some c" for c
  proof -
    have "c = drop 2 data @ drop 6 (rx_buf s)"
      using that assms(2) by (auto simp: blit_def split: if_splits)
    then show ?thesis using assms(2,3) by (simp add: nth_append)
  qed
  have six: "6 \<le> n" if "\<not> n < 8" for n :: u16
    using that by (simp add: word_le_nat_alt word_less_nat_alt)
  show ?thesis
    using pc assms(2) by (auto simp: uds_rx_ff_def Let_def with_iso_def b calm_def receiving_def may_def six
        split: if_splits bind_splits dest!: first)
qed

lemma calm_cf:
  assumes "calm s" "length data = 8"
  shows "may (uds_rx_cf cfg no_callbacks data s) calm"
proof (cases "iso_state (app s) = ISOTP_RX_WAIT_CF")
  case True
  define g where "g = app s"
  have g: "0 < bytes_processed g" "bytes_processed g \<le> msg_len g" "rx_buf s \<noteq> []" "rx_buf s ! 0 \<noteq> UDS_SID_READ_BY_PER_ID"
    and pc: "periodic_count s = 0"
    using assms(1) True by (simp_all add: calm_def receiving_def g_def)
  define k where "k = clip (of_nat (length data) - 1) (msg_len g - bytes_processed g)"
  have "unat k \<le> unat (msg_len g) - unat (bytes_processed g)"
    using g(2) by (simp add: k_def unat_clip unat_minus_le word_le_nat_alt)
  then have q: "unat (bytes_processed g + ucast k) = unat (bytes_processed g) + unat k"
    "unat (bytes_processed g) + unat k \<le> unat (msg_len g)"
    using g(2) u16_less [of "msg_len g"]
    by (auto simp: unat_word_ariths word_le_nat_alt simp del: u16_less)
  then have q': "0 < bytes_processed g + ucast k" "bytes_processed g + ucast k \<le> msg_len g" "0 < unat (msg_len g)"
    using g(1) by (auto simp: word_less_nat_alt word_le_nat_alt)
  have first: "c \<noteq> [] \<and> c ! 0 = rx_buf s ! 0" if "blit (unat (bytes_processed g)) bs (rx_buf s) = Some c" for bs c
  proof -
    have "0 < unat (bytes_processed g)" using g(1) by (simp add: word_less_nat_alt)
    then show ?thesis using that g(3) by (auto simp: blit_def nth_append split: if_splits)
  qed
  have b: "byte_at data 0 = Some (data ! 0)" using assms(2) by (simp add: byte_at_def)
  let ?g = "g\<lparr>iso_sn := (iso_sn g + 1) AND 0x0F, bytes_processed := bytes_processed g + ucast k\<rparr>"
  have idle: "calm (s\<lparr>app := g\<lparr>iso_state := ISOTP_IDLE\<rparr>\<rparr>)" using pc by (simp add: calm_def receiving_not)
  have more: "calm (s\<lparr>rx_buf := c, app := ?g\<rparr>)" "calm (s\<lparr>rx_buf := c, app := ?g\<lparr>iso_state := ISOTP_IDLE\<rparr>\<rparr>)"
    "take (unat (msg_len g)) c ! 0 \<noteq> UDS_SID_READ_BY_PER_ID"
    if "blit (unat (bytes_processed g)) bs (rx_buf s) = Some c" for bs c
    using first [OF that] pc q' g(4) by (simp_all add: calm_def receiving_def)
  show ?thesis
    unfolding uds_rx_cf_def using True idle more
    by (auto simp: Let_def b with_iso_def bytes_at_def simp flip: g_def k_def
        intro!: may_if may_result [of "blit x y z" for x y z] calm_input)
qed (use assms(1) in \<open>simp add: uds_rx_cf_def\<close>)

lemma calm_rx:
  assumes "calm s" "length data = 8" "\<not> asks_periodic data"
  shows "may (uds_isotp_rx_callback cfg no_callbacks i data s) calm"
proof -
  have fc: "may (uds_rx_fc data (app s)) (\<lambda>g. calm (s\<lparr>app := g\<rparr>))"
    using assms(1) by (auto simp: uds_rx_fc_def calm_def receiving_not intro!: may_if may_any)
  have b: "byte_at data 0 = Some (data ! 0)" using assms(2) by (simp add: byte_at_def)
  show ?thesis using assms calm_sf [of s data] calm_ff [of s data] calm_cf [of s data] fc
    by (auto simp: uds_isotp_rx_callback_def b asks_periodic_def Let_def intro!: may_if may_any split: if_splits)
qed

end

section \<open>The server\<close>

lemma fallback_fields:
  "user_services (fallback_config K rx tx) = []" "fn_periodic_read (fallback_config K rx tx) = None"
  "tx_buffer_size (fallback_config K rx tx) = tx" "rx_buffer_size (fallback_config K rx tx) = rx"
  "did_table (fallback_config K rx tx) = []" "fn_nvm_load (fallback_config K rx tx) = None"
  by (simp_all add: fallback_config_def server_config_def base_config_def)

lemma fallback_compliant:
  assumes "10 \<le> unat tx" shows "compliant (fallback_config K rx tx)"
  using assms isotp.sdu_transport_axioms
  by (simp add: compliant_def fallback_config_def server_config_def base_config_def)

lemma fallback_closed:
  assumes "\<And>c g d. I g \<Longrightarrow> I (snd (isotp_tp c g d))" "\<And>g b. I g \<Longrightarrow> I (g\<lparr>bus := b\<rparr>)"
  shows "app_closed (fallback_config K rx tx) no_callbacks I"
  using assms
  by (auto simp: app_closed_def fallback_config_def server_config_def base_config_def no_callbacks_def
      case_prod_beta Let_def)

interpretation fallback: calm_app "fallback_config K rx tx" for K :: "'k kernel" and rx tx
  by unfold_locales (auto intro!: fallback_closed simp: receiving_isotp fallback_fields, simp add: receiving_def)

lemma fallback_keeps:
  "app_closed (fallback_config K rx tx) no_callbacks tx_safe"
  "app_closed (fallback_config K rx tx) no_callbacks (rx_safe cfg)"
  by (rule fallback_closed; (simp only: tx_safe_isotp rx_safe_isotp | simp add: tx_safe_def rx_safe_def))+

definition run_inv :: "'k kernel \<Rightarrow> u16 \<Rightarrow> u16 \<Rightarrow> 'k can isotp machine \<Rightarrow> bool" where
  "run_inv K rx tx s \<longleftrightarrow> bus_inv (fallback_config K rx tx) s \<and> calm s"

lemma ok_run_frame:
  assumes "10 \<le> unat tx" "run_inv K rx tx s" "length (snd f) = 8" "\<not> asks_periodic (snd f)"
  shows "ok (uds_internal_zephyr_can_rx_cb K rx tx f s) (run_inv K rx tx)"
proof -
  let ?c = "fallback_config K rx tx"
  have "ok (uds_isotp_rx_callback ?c no_callbacks (fst f) (snd f) s) (bus_inv ?c)"
    by (rule ok_rx_callback_app)
       (use assms fallback_keeps in \<open>simp_all add: app_ok_def fallback_fields fallback_compliant no_callbacks_ok
          run_inv_def frame_fits_def\<close>)
  moreover have "may (uds_isotp_rx_callback ?c no_callbacks (fst f) (snd f) s) calm"
    by (rule fallback.calm_rx) (use assms in \<open>simp_all add: run_inv_def\<close>)
  ultimately show ?thesis using assms(2)
    by (auto simp: uds_internal_zephyr_can_rx_cb_def run_inv_def ok_iff may_def)
qed

lemma ok_run_process:
  assumes "10 \<le> unat tx" "run_inv K rx tx s"
  shows "ok (uds_process (fallback_config K rx tx) s) (run_inv K rx tx)"
proof -
  let ?c = "fallback_config K rx tx"
  have s: "wfm ?c s" "periodic_count s = 0" "calm s" "iso_safe ?c (app s)" "length (rx_buf s) = unat rx"
    using assms(2) by (simp_all add: run_inv_def bus_inv_def calm_def fallback_fields)
  have keep: "may (uds_process ?c s) (\<lambda>r. I (app r) \<and> rx_buf r = rx_buf s)"
    if "app_closed ?c no_callbacks I" "I (app s)" for I
    using closed_app.may_process [OF closed_appI [OF that(1)], of "rx_buf s" s] that(2)
    by (simp add: framed_def [abs_def])
  show ?thesis
    using ok_quiet_process [OF fallback_compliant [OF assms(1)] fallback_fields(1) s(1,2)]
      fallback.calm_process [OF s(3)] keep [OF fallback_keeps(1)] keep [OF fallback_keeps(2), of ?c] s(4,5)
    by (auto simp: ok_iff may_def run_inv_def bus_inv_def iso_safe_def fallback_fields)
qed

lemma run_inv_bus [simp]: "run_inv K rx tx (s\<lparr>app := (app s)\<lparr>bus := b\<rparr>\<rparr>) = run_inv K rx tx s"
  by (simp add: run_inv_def bus_inv_def iso_safe_def rx_safe_def tx_safe_def calm_def receiving_def)

lemma may_receiving_tick: "receiving b g \<Longrightarrow> may (uds_tp_isotp_process t g) (receiving b)"
  by (auto simp: uds_tp_isotp_process_def uds_send_cf_def Let_def case_prod_beta receiving_def
      intro!: may_if may_any)

lemma ok_run_tick:
  assumes "run_inv K rx tx s"
  shows "ok (uds_tp_isotp_process t (app s)) (\<lambda>g. run_inv K rx tx (s\<lparr>app := g\<rparr>))"
  using ok_linked_tick [of "fallback_config K rx tx" s t] may_receiving_tick [of "rx_buf s" "app s" t] assms
  by (auto simp: run_inv_def calm_def ok_iff may_def)

lemma ok_run_turn:
  assumes "10 \<le> unat tx" "run_inv K rx tx s"
  shows "ok (fallback_turn K rx tx s) (run_inv K rx tx)"
proof -
  define k where "k = uds_get_time_ms_zephyr K (ck (bus (app s)))"
  define g where "g = (app s)\<lparr>bus := (bus (app s))\<lparr>ck := snd k\<rparr>\<rparr>"
  have "run_inv K rx tx (s\<lparr>app := g\<rparr>)" using assms(2) by (simp add: g_def)
  from ok_run_tick [OF this, of "fst k"] have "ok (uds_tp_isotp_process (fst k) g) (\<lambda>g. run_inv K rx tx (s\<lparr>app := g\<rparr>))"
    by simp
  then show ?thesis
    unfolding fallback_turn_def Let_def case_prod_beta ok_bind k_def [symmetric] g_def [symmetric]
    by (rule ok_mono) (auto intro!: ok_mono [OF ok_run_process [OF assms(1)]])
qed

text \<open>A run in which only such frames arrive.\<close>

inductive calm_reach :: "'k kernel \<Rightarrow> u16 \<Rightarrow> u16 \<Rightarrow> 'k \<Rightarrow> 'k can isotp machine \<Rightarrow> 'k can isotp machine \<Rightarrow> bool"
  for K rx tx k m where
  boot: "fallback_start K rx tx k m = (0, s) \<Longrightarrow> fallback_boot K rx tx s = Some (0, s') \<Longrightarrow> calm_reach K rx tx k m s'"
| turn: "calm_reach K rx tx k m s \<Longrightarrow> fallback_turn K rx tx s = Some s' \<Longrightarrow> calm_reach K rx tx k m s'"
| frame: "calm_reach K rx tx k m s \<Longrightarrow> length (snd f) = 8 \<Longrightarrow> \<not> asks_periodic (snd f) \<Longrightarrow>
    uds_internal_zephyr_can_rx_cb K rx tx f s = Some s' \<Longrightarrow> calm_reach K rx tx k m s'"

lemma run_inv_booted:
  assumes "fallback_start K rx tx k m = (0, s)" "fallback_boot K rx tx s = Some (0, s')"
  shows "run_inv K rx tx s'"
proof -
  let ?c = "fallback_config K rx tx"
  have s: "\<not> ctx_null s" "length (tx_buf s) = unat tx" "length (rx_buf s) = unat rx"
    "iso_safe ?c (app s)" "iso_state (app s) = ISOTP_IDLE"
    using assms(1)
    by (auto simp: fallback_start_def uds_zephyr_tp_fallback_init_def uds_tp_isotp_init_def can_print_def
        isotp_static_def iso_safe_def rx_safe_def tx_safe_def Let_def split: prod.splits if_splits)
  then have i: "uds_init (Some ?c) s = Some (0, reset_ctx ?c s)"
    by (simp add: uds_init_def fallback_config_def server_config_def base_config_def Let_def uds_internal_log_def load_state_def)
  have "memory_ok ?c s" using s by (simp add: memory_ok_def fallback_fields)
  from wfm_reset_ctx [OF this] have w: "wfm ?c (reset_ctx ?c s)" .
  have r: "rx_buf (reset_ctx ?c s) = rx_buf s" "periodic_count (reset_ctx ?c s) = 0"
    "\<exists>b. app (reset_ctx ?c s) = app s" by (simp_all add: reset_ctx_def Let_def)
  have "run_inv K rx tx (reset_ctx ?c s)"
    using w r s by (simp add: run_inv_def bus_inv_def calm_def receiving_not fallback_fields)
  then show ?thesis using assms(2) by (auto simp: fallback_boot_def i can_print_def)
qed

lemma calm_reach_inv:
  assumes "10 \<le> unat tx"
  shows "calm_reach K rx tx k m s \<Longrightarrow> run_inv K rx tx s"
proof (induction rule: calm_reach.induct)
  case (boot s s')
  then show ?case by (rule run_inv_booted)
next
  case (turn s s')
  then show ?case using ok_run_turn [OF assms turn.IH] by (simp add: ok_iff)
next
  case (frame s f s')
  then show ?case using ok_run_frame [OF assms frame.IH frame.hyps(2,3)] by (simp add: ok_iff)
qed

section \<open>Property\<close>



end
