(* ===== verification/Uds_Skeletons.thy ===== *)
theory Uds_Skeletons
  imports Uds_Host_Sim
begin

text \<open>
  The two skeletons of a server: the super loop of \<open>examples/bare_metal/main.c\<close> and the UDS task of
  \<open>examples/freertos_demo/main.c\<close>, which takes a semaphore around every call. Neither gets a request:
  the receive path of the first is a comment, and the receive task of the second does not compile.
\<close>

section \<open>A server without requests\<close>

text \<open>An idle server: the default session, nothing pending, nothing periodic.\<close>

definition idle :: "'w machine \<Rightarrow> bool" where
  "idle s \<longleftrightarrow> \<not> ctx_null s \<and> config_set s \<and> active_session s = 1 \<and> \<not> p2_msg_pending s \<and> periodic_count s = 0"

lemma idle_frame [simp]:
  "idle (s\<lparr>app := w\<rparr>) = idle s" "idle (emit ev s) = idle s" "idle (mutex_lock cfg s) = idle s"
  "idle (mutex_unlock cfg s) = idle s"
  by (simp_all add: idle_def emit_def mutex_lock_def mutex_unlock_def split: option.split)

lemma idle_process:
  assumes "idle s" "get_time_ms cfg = Some f"
  shows "uds_process cfg s = (let t = mutex_lock cfg s in Some (mutex_unlock cfg (t\<lparr>app := snd (f (app t))\<rparr>)))"
proof -
  define t where "t = (mutex_lock cfg s)\<lparr>app := snd (f (app (mutex_lock cfg s)))\<rparr>"
  have "idle t" using assms(1) by (simp add: t_def)
  then have "s3_tick cfg n t = t" "p2_tick cfg n t = Some (False, t)" "periodic_scheduler cfg n t = Some t" for n
    by (simp_all add: idle_def s3_tick_def p2_tick_def periodic_scheduler_def)
  moreover have "\<not> ctx_null s" "config_set s" using assms(1) by (simp_all add: idle_def)
  moreover have "time_now cfg (mutex_lock cfg s) = Some (fst (f (app (mutex_lock cfg s))), t)"
    using assms(2) by (simp add: time_now_def t_def)
  ultimately show ?thesis by (simp add: uds_process_def Let_def flip: t_def)
qed

lemma idle_boot:
  assumes "\<not> ctx_null s" "get_time_ms cfg \<noteq> None" "fn_tp_send cfg \<noteq> None" "rx_buffer cfg" "tx_buffer cfg"
    "fn_log cfg = None" "fn_nvm_load cfg = None"
  shows "\<exists>s'. uds_init (Some cfg) s = Some (0, s') \<and> idle s' \<and> tr s' = tr s \<and> app s' = app s"
  using assms by (simp add: uds_init_def Let_def uds_internal_log_def load_state_def idle_def reset_ctx_def)

text \<open>The first \<open>n\<close> turns of an endless loop.\<close>

fun turns :: "('s \<Rightarrow> 's option) \<Rightarrow> nat \<Rightarrow> 's \<Rightarrow> 's option" where
  "turns f 0 s = Some s"
| "turns f (Suc n) s = do { s \<leftarrow> f s; turns f n s }"

lemma ok_turns:
  assumes "\<And>s. P s \<Longrightarrow> ok (f s) P" shows "P s \<Longrightarrow> ok (turns f n s) P"
proof (induction n arbitrary: s)
  case (Suc n)
  then show ?case using assms [OF Suc.prems] by (auto simp: ok_iff)
qed simp

section \<open>Bare metal\<close>

text \<open>The hardware is stubbed: the time is always 0 and a frame is sent by doing nothing.\<close>

definition get_system_time_ms :: "unit \<Rightarrow> u32 \<times> unit" where
  "get_system_time_ms w = (0, w)"

definition can_send_stub :: "unit \<Rightarrow> u8 list \<Rightarrow> int \<times> unit" where
  "can_send_stub w data = (0, w)"

definition bare_tp_send :: "uds_ctx \<Rightarrow> unit \<Rightarrow> u8 list \<Rightarrow> int \<times> unit" where
  "bare_tp_send c w data = can_send_stub w data"

interpretation bare_tp: sdu_transport bare_tp_send
  by unfold_locales (simp add: bare_tp_send_def can_send_stub_def)

definition bare_config :: "unit config" where
  "bare_config = (base_config get_system_time_ms bare_tp_send)\<lparr>ecu_address := 0, cfg_p2_ms := 0, cfg_p2_star_ms := 0,
     rx_buffer_size := 4096, tx_buffer_size := 4096, p2_server_max := 0, p2_star_server_max := 0\<rparr>"

definition bare_boot :: "unit machine \<Rightarrow> (int \<times> unit machine) option" where
  "bare_boot m = uds_init (Some bare_config) (m\<lparr>ctx_null := False, tx_buf := replicate 4096 0,
     rx_buf := replicate 4096 0, did_store := (\<lambda>a. []), tr := [], app := ()\<rparr>)"

definition bare_turn :: "unit machine \<Rightarrow> unit machine option" where
  "bare_turn s = uds_process bare_config s"

lemma bare_fields:
  "get_time_ms bare_config = Some get_system_time_ms" "fn_tp_send bare_config = Some bare_tp_send"
  "rx_buffer bare_config" "tx_buffer bare_config" "fn_log bare_config = None" "fn_nvm_load bare_config = None"
  "fn_mutex_lock bare_config = None" "fn_mutex_unlock bare_config = None"
  by (simp_all add: bare_config_def base_config_def)

text \<open>The super loop never stops and never sends.\<close>

lemma bare_runs: "\<exists>s s'. bare_boot m = Some (0, s) \<and> turns bare_turn n s = Some s' \<and> tr s' = []"
proof -
  let ?m = "m\<lparr>ctx_null := False, tx_buf := replicate 4096 0, rx_buf := replicate 4096 0,
    did_store := (\<lambda>a. []), tr := [], app := ()\<rparr>"
  let ?P = "\<lambda>s. idle s \<and> tr s = []"
  obtain s where s: "bare_boot m = Some (0, s)" "?P s"
    using idle_boot [of ?m bare_config] by (auto simp: bare_boot_def bare_fields)
  have "ok (bare_turn s) ?P" if "?P s" for s
    using that by (simp add: bare_turn_def idle_process [OF _ bare_fields(1)] mutex_lock_def mutex_unlock_def bare_fields Let_def)
  from ok_turns [where P = ?P and f = bare_turn, OF this s(2), of n] s(1) show ?thesis by (auto simp: ok_iff)
qed

section \<open>FreeRTOS\<close>

text \<open>
  The world of the task: its semaphore, whether the task waits for it for ever (\<open>portMAX_DELAY\<close>: a
  take that cannot succeed does not return), the tick count at the n-th reading and the length of a
  tick in milliseconds.
\<close>

record rtos =
  uds_mutex :: bool
  blocked :: bool
  tick_count :: "nat \<Rightarrow> u32"
  tick_reads :: nat
  portTICK_PERIOD_MS :: u32

definition os_lock :: "rtos \<Rightarrow> rtos" where
  "os_lock w = (if uds_mutex w then w\<lparr>uds_mutex := False\<rparr> else w\<lparr>blocked := True\<rparr>)"

definition os_unlock :: "rtos \<Rightarrow> rtos" where
  "os_unlock w = w\<lparr>uds_mutex := True\<rparr>"

definition os_get_time :: "rtos \<Rightarrow> u32 \<times> rtos" where
  "os_get_time w = (tick_count w (tick_reads w) * portTICK_PERIOD_MS w, w\<lparr>tick_reads := tick_reads w + 1\<rparr>)"

definition mock_send :: "uds_ctx \<Rightarrow> rtos \<Rightarrow> u8 list \<Rightarrow> int \<times> rtos" where
  "mock_send c w data = (0, w)"

interpretation rtos_tp: sdu_transport mock_send
  by unfold_locales (simp add: mock_send_def)

definition rtos_config :: "rtos config" where
  "rtos_config = (base_config os_get_time mock_send)\<lparr>ecu_address := 0, cfg_p2_ms := 0, cfg_p2_star_ms := 0,
     rx_buffer_size := 1024, tx_buffer_size := 1024, fn_mutex_lock := Some os_lock, fn_mutex_unlock := Some os_unlock,
     p2_server_max := 0, p2_star_server_max := 0\<rparr>"

definition task_boot :: "rtos \<Rightarrow> rtos machine \<Rightarrow> (int \<times> rtos machine) option" where
  "task_boot w m = uds_init (Some rtos_config) (m\<lparr>ctx_null := False, tx_buf := replicate 1024 0,
     rx_buf := replicate 1024 0, did_store := (\<lambda>a. []), tr := [], app := w\<lparr>uds_mutex := True, blocked := False\<rparr>\<rparr>)"

definition task_turn :: "rtos machine \<Rightarrow> rtos machine option" where
  "task_turn s = uds_process rtos_config s"

lemma rtos_fields:
  "get_time_ms rtos_config = Some os_get_time" "fn_tp_send rtos_config = Some mock_send"
  "rx_buffer rtos_config" "tx_buffer rtos_config" "fn_log rtos_config = None" "fn_nvm_load rtos_config = None"
  "fn_mutex_lock rtos_config = Some os_lock" "fn_mutex_unlock rtos_config = Some os_unlock"
  by (simp_all add: rtos_config_def base_config_def)

text \<open>The task never waits for its own semaphore, and leaves it free after every turn.\<close>

lemma task_runs: "\<exists>s s'. task_boot w m = Some (0, s) \<and> turns task_turn n s = Some s'
    \<and> uds_mutex (app s') \<and> \<not> blocked (app s')"
proof -
  let ?m = "m\<lparr>ctx_null := False, tx_buf := replicate 1024 0, rx_buf := replicate 1024 0,
    did_store := (\<lambda>a. []), tr := [], app := w\<lparr>uds_mutex := True, blocked := False\<rparr>\<rparr>"
  let ?P = "\<lambda>s. idle s \<and> uds_mutex (app s) \<and> \<not> blocked (app s)"
  obtain s where s: "task_boot w m = Some (0, s)" "?P s"
    using idle_boot [of ?m rtos_config] by (auto simp: task_boot_def rtos_fields)
  have "ok (task_turn s) ?P" if "?P s" for s
    using that by (simp add: task_turn_def idle_process [OF _ rtos_fields(1)] mutex_lock_def mutex_unlock_def rtos_fields
      os_lock_def os_unlock_def os_get_time_def emit_def Let_def idle_def)
  from ok_turns [where P = ?P and f = task_turn, OF this s(2), of n] s(1) show ?thesis by (auto simp: ok_iff)
qed

end
