(* ===== verification/Spec2Isabelle.thy ===== *)
theory Spec2Isabelle
  imports Uds_Access Uds_Automaton Uds_Relay Uds_Programs Uds_Flash_Tool Uds_Zephyr_Run Uds_Skeletons
begin

text \<open>
  A verification of udslib, a C library for the ECU side of ISO 14229 (Unified Diagnostic
  Services) with an ISO 15765-2 (ISO-TP) transport.

  \<^bold>\<open>The program.\<close> A tester sends a request, the transport assembles it and calls
  \<open>uds_input_sdu\<close> (\<open>src/core/uds_core.c\<close>), which looks the service up, checks session,
  subfunction, length, security and the application's safety gate, and runs a handler
  (\<open>src/services/*.c\<close>). The handler calls the application through \<open>uds_config_t\<close>, writes the
  transmit buffer and answers with \<open>uds_send_response\<close> or \<open>uds_send_nrc\<close>, which call
  \<open>config->fn_tp_send\<close>. \<open>uds_process\<close> runs the S3, P2 and periodic timers;
  \<open>uds_client_request\<close> makes the stack a client. The transport (\<open>src/transport/uds_tp_isotp.c\<close>)
  keeps its own static state, sends frames through a CAN driver and hands assembled SDUs to the
  stack. \<open>examples/host_sim/main.c\<close> links all of it into a virtual ECU, and
  \<open>examples/client_demo/main.c\<close> is the tester at the other end of its bus;
  \<open>examples/pro_flash_tool.c\<close> is another client. The port to Zephyr (\<open>zephyr/*.c\<close>,
  \<open>examples/zephyr_uds_server\<close>) runs the stack over sockets of the kernel or, over a CAN controller,
  with the library's own transport.

  \<^bold>\<open>State and effects.\<close> \<open>'w machine\<close> (Uds_Config) is the context \<open>uds_ctx_t\<close> extended by the memory
  behind the buffers and data identifiers, the application's state \<open>app\<close> and a ghost trace
  \<open>tr\<close> of what the stack did to the outside: frames sent, locks, logs, callbacks with their
  arguments. An operation is a function from the machine to \<open>'a option\<close>: \<open>None\<close> is undefined
  behaviour of the C code (a null callback called, an access outside a buffer), so "\<open>\<noteq> None\<close>"
  is memory safety and termination. The C return code is part of the result. Integers are words
  of their C width. Loops run over the table or request they range over, so nothing needs fuel;
  the transmit loop of the transport is one call per tick, and its completion is a theorem about a
  sequence of ticks.

  \<^bold>\<open>Theories.\<close>

  \<^item> Uds_Prelude: bytes, bounded copies (\<open>blit\<close>, \<open>bytes_at\<close>), the partial-correctness
  and totality rule \<open>ok\<close>.
  \<^item> Uds_Config: constants, context, machine, configuration (\<open>uds_config.h\<close>, \<open>uds_core.h\<close>,
  \<open>uds_internal.h\<close>).
  \<^item> Uds_Support: the helpers and the two send functions; the contract of the application
  (\<open>compliant\<close>), the invariant \<open>wfm\<close>, and the locales \<open>sdu_transport\<close>, \<open>uds_service\<close> and
  \<open>immediate_service\<close> that every handler is an interpretation of.
  \<^item> Uds_Session, Uds_Security, Uds_Maintenance, Uds_Data, Uds_Periodic, Uds_Flash, Uds_Memory: the
  handlers of \<open>src/services/*.c\<close>, one definition each, with their contract.
  \<^item> Uds_Core: service table, dispatcher, timers, \<open>uds_init\<close>, \<open>uds_process\<close>,
  \<open>uds_client_request\<close>, \<open>uds_input_sdu\<close>. Uds_Example: a small application for the witnesses.
  \<^item> Uds_Requests: safety and priority of the checks, suppression, busy responses, client requests.
  Uds_Timing: S3, P2 and the lock. Uds_System: everything an application can do as a step
  relation, and invariants of the reachable machines.
  \<^item> Uds_Access: SecurityAccess refines an abstract lock with attempts and delay. Uds_Automaton: session
  and security level of the whole stack refine an automaton of four events.
  Uds_Identifiers: access control and round trip of data identifiers. Uds_Transfer: address parser,
  memory writes, download blocks. Uds_Relay: the twelve services that pass a request on to the
  application implement one reference definition (locale \<open>relaying_service\<close>). Uds_Rates: the periodic table refines a bounded map (locale
  \<open>bounded_map\<close>); the scheduler. Uds_Frame: what the stack cannot change (locale
  \<open>closed_app\<close>).
  \<^item> Uds_Isotp: the transport, with its state as the application state of the machine.
  Uds_Isotp_Send and Uds_Isotp_Receive: frames of an SDU, the transmit invariant, completion, flow
  control; reassembly, its safety, and the whole transmission end to end.
  \<^item> Uds_Linked: the stack over this transport as one step relation, safe on any bus traffic and a
  refinement of the application-level relation. Uds_Host_Sim: the simulator, which is
  such a linked stack. Uds_Client_Demo: the client, and its dialogue with the simulator.
  Uds_Programs: the command lines and \<open>main\<close> of both.
  \<^item> Uds_Unchecked: requests that the stack serves without a check, and the safety of a server that
  is not asked for periodic data. Uds_Flash_Tool: the flash tool and what a server makes of it.
  Uds_Zephyr: the kernel's functions as a record of parameters, the socket transport as an
  interpretation of \<open>sdu_transport\<close>, the server on it. Uds_Zephyr_Can: the driver, the interrupt and
  the server on the library's transport; Uds_Zephyr_Run: that this server keeps running (locale
  \<open>calm_app\<close>). Uds_Skeletons: the bare-metal loop and the FreeRTOS task,
  which run for ever and, the latter, never wait for their own semaphore.

  \<^bold>\<open>Assumptions.\<close> \<open>compliant\<close> (Uds_Support) and \<open>app_ok\<close>, \<open>cbs_ok\<close>, \<open>periodic_ok\<close> (Uds_Core),
  \<open>nvm_ok\<close> and \<open>memory_ok\<close> (Uds_System) state what the documentation of \<open>uds_config_t\<close> asks of an
  application, and the two bounds it leaves out; \<open>driver\<close> (Uds_Isotp) the documented result of a CAN
  driver; \<open>frame_fits\<close> (Uds_Isotp_Receive) the frame lengths and buffer size for which the
  receive path is memory safe, with a theorem that smaller buffers are not enough on CAN-FD.
  Uds_Host_Sim discharges all of them for a concrete program. Of the Zephyr kernel, \<open>recv_fits\<close>
  (Uds_Zephyr) is all that is assumed.

  \<^bold>\<open>Not modelled.\<close> The receive task of the FreeRTOS example, which does not compile, the unused
  header \<open>uds_tp.h\<close>, the Python tools and the table they generate (\<open>examples/generated\<close>), which
  includes a header the repository does not have. Of the programs: sockets but for the result of
  \<open>bind\<close>, and sleeping; datagrams whose \<open>len\<close> exceeds 64. Preemption inside a call is not modelled:
  with \<open>fn_mutex_lock\<close> set, calls exclude each other, and the lock discipline is a theorem; the Zephyr
  server sets none, and its interrupt is modelled between two
  turns of the loop only.
\<close>

end
